theory Spec2Isabelle
  imports Complex_Main
begin

section \<open>JavaScript numbers\<close>

text \<open>
  The renderer of \<^verbatim>\<open>src/write/abc_renderer.js\<close> computes with JavaScript numbers. They are
  modelled as exact reals extended with the three special values of IEEE arithmetic; every
  operation spells out what it does on the special values. Rounding, overflow of a finite
  result and the sign of zero are not modelled (a division of a nonzero number by zero takes
  the zero as positive).
\<close>

datatype jsnum = Num real | NaN | PInf | NInf

fun isNaN :: "jsnum \<Rightarrow> bool" where
  "isNaN NaN = True"
| "isNaN _ = False"

fun isFinite :: "jsnum \<Rightarrow> bool" where
  "isFinite (Num _) = True"
| "isFinite _ = False"

fun truthy :: "jsnum \<Rightarrow> bool" where
  "truthy (Num a) = (a \<noteq> 0)"
| "truthy NaN = False"
| "truthy _ = True"

fun jneg :: "jsnum \<Rightarrow> jsnum" where
  "jneg (Num a) = Num (- a)"
| "jneg NaN = NaN"
| "jneg PInf = NInf"
| "jneg NInf = PInf"

fun jadd :: "jsnum \<Rightarrow> jsnum \<Rightarrow> jsnum" where
  "jadd (Num a) (Num b) = Num (a + b)"
| "jadd NaN _ = NaN"
| "jadd _ NaN = NaN"
| "jadd PInf NInf = NaN"
| "jadd NInf PInf = NaN"
| "jadd PInf _ = PInf"
| "jadd _ PInf = PInf"
| "jadd NInf _ = NInf"
| "jadd _ NInf = NInf"

definition jsub :: "jsnum \<Rightarrow> jsnum \<Rightarrow> jsnum" where
  "jsub a b = jadd a (jneg b)"

definition inf_of_sign :: "real \<Rightarrow> jsnum" where
  "inf_of_sign s = (if s = 0 then NaN else if 0 < s then PInf else NInf)"

fun jsign :: "jsnum \<Rightarrow> real" where
  "jsign (Num a) = sgn a"
| "jsign PInf = 1"
| "jsign NInf = - 1"
| "jsign NaN = 0"

fun jmul :: "jsnum \<Rightarrow> jsnum \<Rightarrow> jsnum" where
  "jmul (Num a) (Num b) = Num (a * b)"
| "jmul NaN _ = NaN"
| "jmul _ NaN = NaN"
| "jmul a b = inf_of_sign (jsign a * jsign b)"

fun jdiv :: "jsnum \<Rightarrow> jsnum \<Rightarrow> jsnum" where
  "jdiv (Num a) (Num b) = (if b \<noteq> 0 then Num (a / b) else inf_of_sign (sgn a))"
| "jdiv NaN _ = NaN"
| "jdiv _ NaN = NaN"
| "jdiv (Num a) _ = Num 0"
| "jdiv a (Num b) = (if 0 \<le> b then a else jneg a)"
| "jdiv _ _ = NaN"

fun Math_sqrt :: "jsnum \<Rightarrow> jsnum" where
  "Math_sqrt (Num a) = (if a < 0 then NaN else Num (sqrt a))"
| "Math_sqrt PInf = PInf"
| "Math_sqrt _ = NaN"

fun jle :: "jsnum \<Rightarrow> jsnum \<Rightarrow> bool" where
  "jle NaN _ = False"
| "jle _ NaN = False"
| "jle (Num a) (Num b) = (a \<le> b)"
| "jle NInf _ = True"
| "jle _ PInf = True"
| "jle _ _ = False"

definition Math_min :: "jsnum \<Rightarrow> jsnum \<Rightarrow> jsnum" where
  "Math_min a b = (if isNaN a \<or> isNaN b then NaN else if jle a b then a else b)"

definition Math_max :: "jsnum \<Rightarrow> jsnum \<Rightarrow> jsnum" where
  "Math_max a b = (if isNaN a \<or> isNaN b then NaN else if jle a b then b else a)"

fun Math_round :: "jsnum \<Rightarrow> jsnum" where
  "Math_round (Num a) = Num (of_int \<lfloor>a + 1 / 2\<rfloor>)"
| "Math_round a = a"

text \<open>A missing property read as a number: \<^verbatim>\<open>undefined\<close> converts to \<^verbatim>\<open>NaN\<close>.\<close>

fun ToNumber :: "jsnum option \<Rightarrow> jsnum" where
  "ToNumber (Some a) = a"
| "ToNumber None = NaN"


section \<open>The renderer's data\<close>

text \<open>
  A font descriptor of the tune's formatting, the attribute bundle that
  \<^verbatim>\<open>getFontAndAttr\<close> builds from it, and the calls the renderer makes on its drawing
  surface \<^verbatim>\<open>this.paper\<close>. A path is kept as its list of commands (a letter and its
  numbers) instead of the string that \<^verbatim>\<open>sprintf\<close> or \<^verbatim>\<open>join\<close> makes of them. The
  CSS class decoration of \<^verbatim>\<open>addClasses\<close>, the regression log and the controller's
  \<^verbatim>\<open>currentAbsEl\<close> bookkeeping do not influence the cursor, the geometry or the
  diagnostics and are left out; a class is carried as the undecorated argument.
\<close>

datatype error = TypeError

definition bindE :: "error + 'a \<Rightarrow> ('a \<Rightarrow> error + 'b) \<Rightarrow> error + 'b" where
  "bindE m f = (case m of Inl e \<Rightarrow> Inl e | Inr a \<Rightarrow> f a)"

record font =
  font_face :: string
  font_size :: jsnum
  font_decoration :: string
  font_style :: string
  font_weight :: string
  font_box :: bool

datatype font_ref = FontKey string | FontDesc font

record text_attr =
  attr_font_size :: jsnum
  attr_font_style :: string
  attr_font_family :: string
  attr_font_weight :: string
  attr_text_decoration :: string
  attr_class :: "string option"
  attr_text_anchor :: "string option"
  attr_x :: "jsnum option"
  attr_y :: "jsnum option"
  attr_dy :: "string option"
  attr_stroke :: "string option"

type_synonym path_cmd = "string \<times> jsnum list"

datatype canvas_call =
    PaperText string text_attr
  | PaperPath "path_cmd list" string string "string option"
  | PaperPathToBack "path_cmd list" string string "string option"
  | PaperRect jsnum jsnum jsnum jsnum
  | PaperGlyph jsnum jsnum string string
  | PaperOpenGroup "string option"
  | PaperCloseGroup

record header_text =
  header_left :: "string option"
  header_center :: "string option"
  header_right :: "string option"

text \<open>
  An entry of \<^verbatim>\<open>metaText.unalignedWords\<close> is a string or an array of words, each word a
  text with or without a font descriptor. An absent array is the empty list.
\<close>

record word =
  word_font :: "font option"
  word_text :: string

datatype words_item = WordsString string | WordsParts "word list"

record metaText =
  meta_header :: "header_text option"
  meta_title :: "string option"
  meta_rhythm :: "string option"
  meta_origin :: "string option"
  meta_composer :: "string option"
  meta_author :: "string option"
  meta_partOrder :: "string option"
  meta_unalignedWords :: "words_item list"
  meta_book :: "string option"
  meta_source :: "string option"
  meta_discography :: "string option"
  meta_notes :: "string option"
  meta_transcription :: "string option"
  meta_history :: "string option"
  meta_abc_copyright :: "string option"
  meta_abc_creator :: "string option"
  meta_abc_edited_by :: "string option"
  meta_footer :: "header_text option"

record abctune =
  formatting_num :: "string \<rightharpoonup> jsnum"
  formatting_font :: "string \<rightharpoonup> font"
  tune_metaText :: metaText
  line0_subtitle :: "string option"

record spacing =
  spacing_composer :: jsnum
  spacing_info :: jsnum
  spacing_music :: jsnum
  spacing_staffSeparation :: jsnum
  spacing_subtitle :: jsnum
  spacing_title :: jsnum
  spacing_top :: jsnum
  spacing_words :: jsnum

record renderer =
  this_y :: jsnum
  padding :: "string \<rightharpoonup> jsnum"
  paddingOverride :: "(string \<rightharpoonup> jsnum) option"
  isPrint :: bool
  this_spacing :: spacing
  ingroup :: bool
  this_path :: "path_cmd list option"
  lastM :: "(jsnum \<times> jsnum) option"
  this_abctune :: abctune
  paper :: "canvas_call list"
  history :: "(canvas_call option \<times> bool) list"
  console :: "string list"


section \<open>Padding and spacing\<close>

text \<open>
  \<^verbatim>\<open>setPaddingOverride\<close> copies the four renderer-level paddings out of the parameters; a
  key that the parameters lack is stored as \<^verbatim>\<open>undefined\<close>, which the map models as an
  absent key.
\<close>

definition setPaddingOverride :: "renderer \<Rightarrow> (string \<rightharpoonup> jsnum) \<Rightarrow> renderer" where
  "setPaddingOverride self params =
     self\<lparr>paddingOverride := Some (\<lambda>k.
        if k = ''top'' then params ''paddingtop''
        else if k = ''bottom'' then params ''paddingbottom''
        else if k = ''right'' then params ''paddingright''
        else if k = ''left'' then params ''paddingleft''
        else None)\<rparr>"

definition setPrintMode :: "renderer \<Rightarrow> bool \<Rightarrow> renderer" where
  "setPrintMode self p = self\<lparr>isPrint := p\<rparr>"

text \<open>
  The inner function of \<^verbatim>\<open>setPadding\<close>. Reading \<^verbatim>\<open>self.paddingOverride[paddingKey]\<close>
  throws when \<^verbatim>\<open>setPaddingOverride\<close> was never called.
\<close>

definition setPaddingVariable ::
  "(string \<rightharpoonup> jsnum) \<Rightarrow> renderer \<Rightarrow> string \<Rightarrow> string \<Rightarrow> jsnum \<Rightarrow> jsnum \<Rightarrow> error + renderer" where
  "setPaddingVariable fmt self paddingKey formattingKey printDefault screenDefault =
     (case fmt formattingKey of
        Some v \<Rightarrow> Inr (self\<lparr>padding := (padding self)(paddingKey \<mapsto> v)\<rparr>)
      | None \<Rightarrow>
          (case paddingOverride self of
             None \<Rightarrow> Inl TypeError
           | Some ov \<Rightarrow>
               (case ov paddingKey of
                  Some v \<Rightarrow> Inr (self\<lparr>padding := (padding self)(paddingKey \<mapsto> v)\<rparr>)
                | None \<Rightarrow>
                    if isPrint self
                    then Inr (self\<lparr>padding := (padding self)(paddingKey \<mapsto> printDefault)\<rparr>)
                    else Inr (self\<lparr>padding := (padding self)(paddingKey \<mapsto> screenDefault)\<rparr>))))"

definition setPadding :: "renderer \<Rightarrow> abctune \<Rightarrow> error + renderer" where
  "setPadding self tune =
     bindE (setPaddingVariable (formatting_num tune) self ''top'' ''topmargin'' (Num 38) (Num 15)) (\<lambda>s1.
     bindE (setPaddingVariable (formatting_num tune) s1 ''bottom'' ''botmargin'' (Num 38) (Num 15)) (\<lambda>s2.
     bindE (setPaddingVariable (formatting_num tune) s2 ''left'' ''leftmargin'' (Num 68) (Num 15)) (\<lambda>s3.
     setPaddingVariable (formatting_num tune) s3 ''right'' ''rightmargin'' (Num 68) (Num 15))))"

text \<open>The precedence that the comment of \<^verbatim>\<open>setPadding\<close> describes, for one margin.\<close>

definition resolve_margin :: "jsnum option \<Rightarrow> jsnum option \<Rightarrow> bool \<Rightarrow> jsnum \<Rightarrow> jsnum \<Rightarrow> jsnum" where
  "resolve_margin doc ovr isprint printDefault screenDefault =
     (case doc of Some v \<Rightarrow> v
      | None \<Rightarrow> (case ovr of Some v \<Rightarrow> v
                | None \<Rightarrow> if isprint then printDefault else screenDefault))"

text \<open>
  The defaults of \<^verbatim>\<open>initVerticalSpace\<close> for the spacing constants that the operations on
  the cursor read.
\<close>

definition default_spacing :: spacing where
  "default_spacing = \<lparr>spacing_composer = Num (756 / 100), spacing_info = Num 0,
     spacing_music = Num (756 / 100), spacing_staffSeparation = Num (6133 / 100),
     spacing_subtitle = Num (378 / 100), spacing_title = Num (756 / 100),
     spacing_top = Num (3024 / 100), spacing_words = Num 0\<rparr>"

text \<open>
  The state of a renderer after construction and \<^verbatim>\<open>reset\<close>: the cursor at 0, no padding,
  no padding override, screen mode, no group, nothing drawn. The tune is the one that
  \<^verbatim>\<open>newTune\<close> then stores.
\<close>

definition new_renderer :: "abctune \<Rightarrow> renderer" where
  "new_renderer tune = \<lparr>this_y = Num 0, padding = Map.empty, paddingOverride = None,
     isPrint = False, this_spacing = default_spacing, ingroup = False, this_path = None,
     lastM = None, this_abctune = tune, paper = [], history = [], console = []\<rparr>"

definition empty_metaText :: metaText where
  "empty_metaText = \<lparr>meta_header = None, meta_title = None, meta_rhythm = None,
     meta_origin = None, meta_composer = None, meta_author = None, meta_partOrder = None,
     meta_unalignedWords = [], meta_book = None, meta_source = None, meta_discography = None,
     meta_notes = None, meta_transcription = None, meta_history = None,
     meta_abc_copyright = None, meta_abc_creator = None, meta_abc_edited_by = None,
     meta_footer = None\<rparr>"

definition plain_tune :: abctune where
  "plain_tune = \<lparr>formatting_num = Map.empty, formatting_font = Map.empty,
     tune_metaText = empty_metaText, line0_subtitle = None\<rparr>"

text \<open>
  \<^verbatim>\<open>setVerticalSpace\<close>, for the spacing constants kept in the model (the source treats
  \<^verbatim>\<open>parts\<close>, \<^verbatim>\<open>text\<close>, \<^verbatim>\<open>systemStaffSeparation\<close> and \<^verbatim>\<open>vocal\<close> in the same way): a value
  of the tune's formatting, given in points, replaces the default as pixels.
\<close>

definition setVerticalSpace :: "renderer \<Rightarrow> (string \<rightharpoonup> jsnum) \<Rightarrow> renderer" where
  "setVerticalSpace self fmt =
     (let sp0 = this_spacing self;
          sp1 = (case fmt ''staffsep'' of
                   None \<Rightarrow> sp0
                 | Some v \<Rightarrow> sp0\<lparr>spacing_staffSeparation := jdiv (jmul v (Num 4)) (Num 3)\<rparr>);
          sp2 = (case fmt ''composerspace'' of
                   None \<Rightarrow> sp1
                 | Some v \<Rightarrow> sp1\<lparr>spacing_composer := jdiv (jmul v (Num 4)) (Num 3)\<rparr>);
          sp3 = (case fmt ''musicspace'' of
                   None \<Rightarrow> sp2
                 | Some v \<Rightarrow> sp2\<lparr>spacing_music := jdiv (jmul v (Num 4)) (Num 3)\<rparr>);
          sp4 = (case fmt ''titlespace'' of
                   None \<Rightarrow> sp3
                 | Some v \<Rightarrow> sp3\<lparr>spacing_title := jdiv (jmul v (Num 4)) (Num 3)\<rparr>);
          sp5 = (case fmt ''subtitlespace'' of
                   None \<Rightarrow> sp4
                 | Some v \<Rightarrow> sp4\<lparr>spacing_subtitle := jdiv (jmul v (Num 4)) (Num 3)\<rparr>);
          sp6 = (case fmt ''topspace'' of
                   None \<Rightarrow> sp5
                 | Some v \<Rightarrow> sp5\<lparr>spacing_top := jdiv (jmul v (Num 4)) (Num 3)\<rparr>);
          sp7 = (case fmt ''wordsspace'' of
                   None \<Rightarrow> sp6
                 | Some v \<Rightarrow> sp6\<lparr>spacing_words := jdiv (jmul v (Num 4)) (Num 3)\<rparr>)
      in self\<lparr>this_spacing := sp7\<rparr>)"


section \<open>The collaborators that are not part of the renderer\<close>

text \<open>
  The renderer reads three constants of \<^verbatim>\<open>abc_spacing\<close> and the width that its controller
  holds, asks its drawing surface for the extent of a text and asks \<^verbatim>\<open>abc_glyphs\<close> for the
  metrics and the outline of a glyph. None of them is given with the renderer, so they are
  parameters of the model.
\<close>

record extern =
  STEP :: jsnum
  SPACE :: jsnum
  INDENT :: jsnum
  controller_width :: jsnum
  paper_getTextSize :: "string \<Rightarrow> text_attr \<Rightarrow> jsnum \<times> jsnum"
  glyphs_getYCorr :: "string \<Rightarrow> jsnum"
  glyphs_getSymbolWidth :: "string \<Rightarrow> jsnum"
  glyphs_defined :: "string \<Rightarrow> bool"
  glyphs_getPathForSymbol :: "jsnum \<Rightarrow> jsnum \<Rightarrow> string \<Rightarrow> jsnum \<Rightarrow> jsnum \<Rightarrow> path_cmd list option"

text \<open>
  Modelled from the spec: \<^verbatim>\<open>glyphs.printSymbol\<close> of \<^verbatim>\<open>abc_glyphs\<close>, the
  \<^verbatim>\<open>place(glyphId, x, y, canvas, styleClass) -> element|null\<close> of the glyph table. It draws
  the glyph on the surface and returns the element, or returns \<^verbatim>\<open>null\<close> and draws nothing
  when the table has no geometry for the glyph.
\<close>

definition glyphs_printSymbol ::
  "extern \<Rightarrow> jsnum \<Rightarrow> jsnum \<Rightarrow> string \<Rightarrow> canvas_call list \<Rightarrow> string \<Rightarrow> canvas_call option \<times> canvas_call list" where
  "glyphs_printSymbol E x y s ppr klass =
     (if glyphs_defined E s then (Some (PaperGlyph x y s klass), ppr @ [PaperGlyph x y s klass])
      else (None, ppr))"


section \<open>The vertical cursor and text\<close>

definition calcY :: "extern \<Rightarrow> renderer \<Rightarrow> jsnum \<Rightarrow> jsnum" where
  "calcY E self ofs = jsub (this_y self) (jmul ofs (STEP E))"

text \<open>\<^verbatim>\<open>moveY(em, numLines)\<close>; an omitted \<^verbatim>\<open>numLines\<close> is \<^verbatim>\<open>None\<close>.\<close>

definition moveY :: "renderer \<Rightarrow> jsnum \<Rightarrow> jsnum option \<Rightarrow> renderer" where
  "moveY self em numLines =
     (let n = (case numLines of None \<Rightarrow> Num 1 | Some k \<Rightarrow> k)
      in self\<lparr>this_y := jadd (this_y self) (jmul em n)\<rparr>)"

definition recordHistory :: "renderer \<Rightarrow> canvas_call option \<Rightarrow> bool \<Rightarrow> renderer" where
  "recordHistory self el notSelectable = self\<lparr>history := history self @ [(el, notSelectable)]\<rparr>"

definition points_to_pixels :: "font \<Rightarrow> font" where
  "points_to_pixels f = f\<lparr>font_size := Math_round (jdiv (jmul (font_size f) (Num 4)) (Num 3))\<rparr>"

definition fallback_font :: font where
  "fallback_font = \<lparr>font_face = ''Arial'',
     font_size = Math_round (jdiv (jmul (Num 12) (Num 4)) (Num 3)),
     font_decoration = ''underline'', font_style = ''normal'', font_weight = ''normal'',
     font_box = False\<rparr>"

definition getFontAndAttr :: "renderer \<Rightarrow> font_ref \<Rightarrow> string \<Rightarrow> font \<times> text_attr" where
  "getFontAndAttr self type klass =
     (let fnt = (case type of
                   FontKey k \<Rightarrow> (case formatting_font (this_abctune self) k of
                                  Some f \<Rightarrow> points_to_pixels f
                                | None \<Rightarrow> fallback_font)
                 | FontDesc f \<Rightarrow> points_to_pixels f)
      in (fnt, \<lparr>attr_font_size = font_size fnt, attr_font_style = font_style fnt,
                attr_font_family = font_face fnt, attr_font_weight = font_weight fnt,
                attr_text_decoration = font_decoration fnt, attr_class = Some klass,
                attr_text_anchor = None, attr_x = None, attr_y = None, attr_dy = None,
                attr_stroke = None\<rparr>))"

text \<open>\<^verbatim>\<open>getTextSize\<close> returns the pair (width, height).\<close>

definition getTextSize :: "extern \<Rightarrow> renderer \<Rightarrow> string \<Rightarrow> font_ref \<Rightarrow> string \<Rightarrow> jsnum \<times> jsnum" where
  "getTextSize E self text type klass =
     (let (fnt, attr) = getFontAndAttr self type klass;
          (w, h) = paper_getTextSize E text attr
      in if font_box fnt then (jadd w (Num 8), jadd h (Num 8)) else (w, h))"

text \<open>The two replacements that \<^verbatim>\<open>renderText\<close> makes in its text.\<close>

fun blank_between_newlines :: "string \<Rightarrow> string" where
  "blank_between_newlines (a # b # rest) =
     (if a = CHR 0x0A \<and> b = CHR 0x0A
      then CHR 0x0A # CHR '' '' # CHR 0x0A # blank_between_newlines rest
      else a # blank_between_newlines (b # rest))"
| "blank_between_newlines xs = xs"

fun nbsp_before_leading_newline :: "string \<Rightarrow> string" where
  "nbsp_before_leading_newline (c # rest) =
     (if c = CHR 0x0A then CHR 0xA0 # CHR 0x0A # rest else c # rest)"
| "nbsp_before_leading_newline [] = []"

text \<open>
  \<^verbatim>\<open>renderText(params)\<close> with the parameters that the renderer passes: x, y, text, type,
  klass, anchor, noClass and history (\<^verbatim>\<open>centerVertically\<close> is never passed). The
  attributes that it sets on the bundle of \<^verbatim>\<open>getFontAndAttr\<close>, in the order of the
  source, come first; \<open>bx\<close> is the box flag of the font.
\<close>

definition renderText_attr ::
  "text_attr \<Rightarrow> bool \<Rightarrow> jsnum \<Rightarrow> jsnum \<Rightarrow> font_ref \<Rightarrow> string \<Rightarrow> bool \<Rightarrow> text_attr" where
  "renderText_attr a0 bx x y0 type anchr noClass =
     (let a1 = (if anchr \<noteq> [] then a0\<lparr>attr_text_anchor := Some anchr\<rparr> else a0);
          a2 = a1\<lparr>attr_x := Some x, attr_y := Some (jadd y0 (Num 7)), attr_dy := Some ''0.5em''\<rparr>;
          a3 = (if type = FontKey ''debugfont'' then a2\<lparr>attr_stroke := Some ''#ff0000''\<rparr> else a2);
          a4 = (if bx
                then a3\<lparr>attr_x := Some (jadd x (Num 2)), attr_y := Some (jadd (jadd y0 (Num 7)) (Num 4)),
                        attr_class := None\<rparr>
                else a3)
      in if noClass then a4\<lparr>attr_class := None\<rparr> else a4)"

text \<open>\<^verbatim>\<open>renderText\<close> returns the element and the renderer.\<close>

definition renderText ::
  "extern \<Rightarrow> renderer \<Rightarrow> jsnum \<Rightarrow> jsnum \<Rightarrow> string \<Rightarrow> font_ref \<Rightarrow> string \<Rightarrow> string \<Rightarrow> bool
     \<Rightarrow> string option \<Rightarrow> canvas_call \<times> renderer" where
  "renderText E self x y0 txt type klass anchr noClass hist =
     (let (fnt, a0) = getFontAndAttr self type klass;
          s1 = (if type = FontKey ''debugfont''
                then self\<lparr>console := console self @ [''Debug msg: '' @ txt]\<rparr> else self);
          text2 = nbsp_before_leading_newline (blank_between_newlines txt);
          s2 = (if font_box fnt then s1\<lparr>paper := paper s1 @ [PaperOpenGroup (Some klass)]\<rparr> else s1);
          el = PaperText text2 (renderText_attr a0 (font_box fnt) x y0 type anchr noClass);
          s3 = s2\<lparr>paper := paper s2 @ [el]\<rparr>;
          s4 = (if font_box fnt
                then (let (w, h) = getTextSize E s3 text2 type klass
                      in s3\<lparr>paper := paper s3 @
                           [PaperRect (jsub x (Num 2)) y0 (jsub w (Num 2)) (jsub h (Num 8)),
                            PaperCloseGroup]\<rparr>)
                else s3);
          elem = (if font_box fnt then PaperCloseGroup else el)
      in (case hist of
            None \<Rightarrow> (elem, recordHistory s4 (Some elem) False)
          | Some k \<Rightarrow> if k = ''not-selectable'' then (elem, recordHistory s4 (Some elem) True)
                      else (elem, s4)))"

text \<open>A string is falsy when it is missing or empty.\<close>

fun str_truthy :: "string option \<Rightarrow> bool" where
  "str_truthy None = False"
| "str_truthy (Some s) = (s \<noteq> [])"

text \<open>\<^verbatim>\<open>str.split("\n").length\<close>: one more than the number of newlines.\<close>

definition split_newline_length :: "string \<Rightarrow> nat" where
  "split_newline_length s = Suc (length (filter (\<lambda>c. c = CHR 0x0A) s))"

text \<open>
  \<^verbatim>\<open>outputTextIf\<close> returns \<^verbatim>\<open>[width, height, el]\<close>, or \<^verbatim>\<open>[0,0]\<close> with no third
  component; a \<^verbatim>\<open>null\<close> bottom margin is \<^verbatim>\<open>None\<close>.
\<close>

definition outputTextIf ::
  "extern \<Rightarrow> renderer \<Rightarrow> jsnum \<Rightarrow> string option \<Rightarrow> font_ref \<Rightarrow> string \<Rightarrow> jsnum \<Rightarrow> jsnum option
     \<Rightarrow> string \<Rightarrow> bool \<Rightarrow> (jsnum \<times> jsnum \<times> canvas_call option) \<times> renderer" where
  "outputTextIf E self x str kind klass marginTop marginBottom alignment noClass =
     (if str_truthy str then
        (let txt = the str;
             s1 = (if truthy marginTop then moveY self marginTop None else self);
             (el, s2) = renderText E s1 x (this_y s1) txt kind klass alignment noClass None;
             (bw, bh) = getTextSize E s2 txt kind klass;
             width0 = (if isNaN bw then Num 0 else bw);
             height0 = (if isNaN bh then Num 0 else bh);
             (fnt, attr) = getFontAndAttr s2 kind klass;
             width = (if font_box fnt then jadd width0 (Num 8) else width0);
             height = (if font_box fnt then jadd height0 (Num 8) else height0);
             s3 = (case marginBottom of
                     None \<Rightarrow> s2
                   | Some mb \<Rightarrow>
                       (let numLines = Num (real (split_newline_length txt))
                        in if \<not> isNaN bh
                           then moveY s2 (jdiv height numLines) (Some (jadd numLines mb))
                           else s2))
         in ((width, height, Some el), s3))
      else ((Num 0, Num 0, None), self))"

text \<open>The renderer after the first step of \<^verbatim>\<open>outputTextIf\<close> on a non-empty string.\<close>

definition after_marginTop :: "renderer \<Rightarrow> jsnum \<Rightarrow> renderer" where
  "after_marginTop self marginTop = (if truthy marginTop then moveY self marginTop None else self)"


section \<open>The cursor and its trace\<close>

text \<open>
  A statement about the cursor during an operation speaks of every value that \<^verbatim>\<open>this.y\<close>
  takes while the operation runs, not only of the value it leaves. The operations that write
  the cursor are therefore given on a renderer paired with a log, to which every assignment
  to \<^verbatim>\<open>this.y\<close> appends the value before and the value after. The log is a history variable:
  the source has no such object and no operation reads it.
\<close>

type_synonym step = "jsnum \<times> jsnum"

type_synonym traced = "renderer \<times> step list"

definition assign_y :: "traced \<Rightarrow> jsnum \<Rightarrow> traced" where
  "assign_y st v = ((fst st)\<lparr>this_y := v\<rparr>, snd st @ [(this_y (fst st), v)])"

text \<open>\<^verbatim>\<open>moveY\<close> and \<^verbatim>\<open>outputTextIf\<close> once more, on a renderer with its log.\<close>

definition moveY_traced :: "traced \<Rightarrow> jsnum \<Rightarrow> jsnum option \<Rightarrow> traced" where
  "moveY_traced st em numLines =
     (let n = (case numLines of None \<Rightarrow> Num 1 | Some k \<Rightarrow> k)
      in assign_y st (jadd (this_y (fst st)) (jmul em n)))"

definition outputTextIf_traced ::
  "extern \<Rightarrow> traced \<Rightarrow> jsnum \<Rightarrow> string option \<Rightarrow> font_ref \<Rightarrow> string \<Rightarrow> jsnum \<Rightarrow> jsnum option
     \<Rightarrow> string \<Rightarrow> bool \<Rightarrow> (jsnum \<times> jsnum \<times> canvas_call option) \<times> traced" where
  "outputTextIf_traced E st x str kind klass marginTop marginBottom alignment noClass =
     (if str_truthy str then
        (let txt = the str;
             st1 = (if truthy marginTop then moveY_traced st marginTop None else st);
             (el, s2) = renderText E (fst st1) x (this_y (fst st1)) txt kind klass alignment noClass None;
             (bw, bh) = getTextSize E s2 txt kind klass;
             width0 = (if isNaN bw then Num 0 else bw);
             height0 = (if isNaN bh then Num 0 else bh);
             (fnt, attr) = getFontAndAttr s2 kind klass;
             width = (if font_box fnt then jadd width0 (Num 8) else width0);
             height = (if font_box fnt then jadd height0 (Num 8) else height0);
             st3 = (case marginBottom of
                      None \<Rightarrow> (s2, snd st1)
                    | Some mb \<Rightarrow>
                        (let numLines = Num (real (split_newline_length txt))
                         in if \<not> isNaN bh
                            then moveY_traced (s2, snd st1) (jdiv height numLines) (Some (jadd numLines mb))
                            else (s2, snd st1)))
         in ((width, height, Some el), st3))
      else ((Num 0, Num 0, None), st))"


section \<open>Text above the score\<close>

text \<open>
  \<^verbatim>\<open>engraveTopText\<close> is a sequence of conditional blocks; each block is a function of its
  own here, in the order of the source, and \<^verbatim>\<open>engraveTopText\<close> runs them one after the
  other. \<^verbatim>\<open>wrapInAbsElem\<close> only calls the function it is given.
\<close>

definition padding_left :: "renderer \<Rightarrow> jsnum" where
  "padding_left self = ToNumber (padding self ''left'')"

definition header_block :: "extern \<Rightarrow> traced \<Rightarrow> jsnum \<Rightarrow> abctune \<Rightarrow> traced" where
  "header_block E st width tune =
     (case meta_header (tune_metaText tune) of
        None \<Rightarrow> st
      | Some hdr \<Rightarrow>
          if isPrint (fst st) then
            (let headerTextHeight =
                   snd (getTextSize E (fst st) ''XXXX'' (FontKey ''headerfont'') ''abcjs-header abcjs-meta-top'');
                 st1 = assign_y st (jsub (this_y (fst st)) headerTextHeight);
                 st2 = snd (outputTextIf_traced E st1 (padding_left (fst st1)) (header_left hdr)
                              (FontKey ''headerfont'') ''header meta-top'' (Num 0) None ''start'' False);
                 st3 = snd (outputTextIf_traced E st2 (jadd (padding_left (fst st2)) (jdiv width (Num 2)))
                              (header_center hdr)
                              (FontKey ''headerfont'') ''header meta-top'' (Num 0) None ''middle'' False);
                 st4 = snd (outputTextIf_traced E st3 (jadd (padding_left (fst st3)) width) (header_right hdr)
                              (FontKey ''headerfont'') ''header meta-top'' (Num 0) None ''end'' False)
             in assign_y st4 (jadd (this_y (fst st4)) headerTextHeight))
          else st)"

definition top_space_block :: "traced \<Rightarrow> traced" where
  "top_space_block st =
     (if isPrint (fst st) then moveY_traced st (spacing_top (this_spacing (fst st))) None else st)"

definition title_block :: "extern \<Rightarrow> traced \<Rightarrow> jsnum \<Rightarrow> abctune \<Rightarrow> traced" where
  "title_block E st width tune =
     (if str_truthy (meta_title (tune_metaText tune))
      then snd (outputTextIf_traced E st (jadd (padding_left (fst st)) (jdiv width (Num 2)))
                  (meta_title (tune_metaText tune)) (FontKey ''titlefont'') ''title meta-top''
                  (spacing_title (this_spacing (fst st))) (Some (Num 0)) ''middle'' False)
      else st)"

definition subtitle_block :: "extern \<Rightarrow> traced \<Rightarrow> jsnum \<Rightarrow> abctune \<Rightarrow> traced" where
  "subtitle_block E st width tune =
     (if str_truthy (line0_subtitle tune)
      then snd (outputTextIf_traced E st (jadd (padding_left (fst st)) (jdiv width (Num 2)))
                  (line0_subtitle tune) (FontKey ''subtitlefont'') ''text meta-top subtitle''
                  (spacing_subtitle (this_spacing (fst st))) (Some (Num 0)) ''middle'' False)
      else st)"

definition composerLine :: "metaText \<Rightarrow> string" where
  "composerLine m =
     (if str_truthy (meta_composer m) then the (meta_composer m) else [])
     @ (if str_truthy (meta_origin m) then '' ('' @ the (meta_origin m) @ '')'' else [])"

text \<open>
  The rhythm, origin and composer block. Reading \<^verbatim>\<open>rSpace[1]\<close> of an unset
  \<^verbatim>\<open>rSpace\<close> throws.
\<close>

definition composer_block :: "extern \<Rightarrow> traced \<Rightarrow> jsnum \<Rightarrow> abctune \<Rightarrow> error + traced" where
  "composer_block E st width tune =
     (let m = tune_metaText tune in
      if str_truthy (meta_rhythm m) \<or> str_truthy (meta_origin m) \<or> str_truthy (meta_composer m) then
        (let st1 = moveY_traced st (spacing_composer (this_spacing (fst st))) None;
             (rSpace, st2) =
               (if str_truthy (meta_rhythm m) \<and> 0 < length (the (meta_rhythm m))
                then (let (r, s) = outputTextIf_traced E st1 (padding_left (fst st1)) (meta_rhythm m)
                                     (FontKey ''infofont'') ''meta-top rhythm'' (Num 0) None ''start'' False
                      in (Some r, s))
                else (None, st1))
         in if 0 < length (composerLine m) then
              (let (space, st3) = outputTextIf_traced E st2 (jadd (padding_left (fst st2)) width)
                                    (Some (composerLine m))
                                    (FontKey ''composerfont'') ''meta-top composer'' (Num 0) None ''end'' False;
                   st4 = moveY_traced st3 (fst (snd space)) None
               in Inr (moveY_traced st4 (Num (- 6)) None))
            else
              (case rSpace of
                 None \<Rightarrow> Inl TypeError
               | Some r \<Rightarrow> Inr (moveY_traced (moveY_traced st2 (fst (snd r)) None) (Num (- 6)) None)))
      else Inr st)"

definition author_block :: "extern \<Rightarrow> traced \<Rightarrow> jsnum \<Rightarrow> abctune \<Rightarrow> traced" where
  "author_block E st width tune =
     (let m = tune_metaText tune in
      if str_truthy (meta_author m) \<and> 0 < length (the (meta_author m))
      then snd (outputTextIf_traced E st (jadd (padding_left (fst st)) width) (meta_author m)
                  (FontKey ''composerfont'') ''meta-top author'' (Num 0) (Some (Num 0)) ''end'' False)
      else st)"

definition partOrder_block :: "extern \<Rightarrow> traced \<Rightarrow> jsnum \<Rightarrow> abctune \<Rightarrow> traced" where
  "partOrder_block E st width tune =
     (let m = tune_metaText tune in
      if str_truthy (meta_partOrder m) \<and> 0 < length (the (meta_partOrder m))
      then snd (outputTextIf_traced E st (padding_left (fst st)) (meta_partOrder m)
                  (FontKey ''partsfont'') ''meta-top part-order'' (Num 0) (Some (Num 0)) ''start'' False)
      else st)"

definition engraveTopText :: "extern \<Rightarrow> traced \<Rightarrow> jsnum \<Rightarrow> abctune \<Rightarrow> error + traced" where
  "engraveTopText E st width tune =
     bindE (composer_block E
              (subtitle_block E
                 (title_block E (top_space_block (header_block E st width tune)) width tune)
                 width tune)
              width tune)
       (\<lambda>st'. Inr (partOrder_block E (author_block E st' width tune) width tune))"


section \<open>The other operations on the cursor\<close>

text \<open>
  Besides \<^verbatim>\<open>engraveTopText\<close>, \<^verbatim>\<open>moveY\<close> and \<^verbatim>\<open>outputTextIf\<close>, these are all the operations
  of the renderer that write \<^verbatim>\<open>this.y\<close>. \<^verbatim>\<open>topMargin\<close> ignores its argument.
\<close>

definition topMargin :: "traced \<Rightarrow> abctune \<Rightarrow> traced" where
  "topMargin st tune = moveY_traced st (ToNumber (padding (fst st) ''top'')) None"

definition addMusicPadding :: "traced \<Rightarrow> traced" where
  "addMusicPadding st = moveY_traced st (spacing_music (this_spacing (fst st))) None"

text \<open>The comparison \<^verbatim>\<open>a < b\<close> of two numbers.\<close>

fun jlt :: "jsnum \<Rightarrow> jsnum \<Rightarrow> bool" where
  "jlt NaN _ = False"
| "jlt _ NaN = False"
| "jlt (Num a) (Num b) = (a < b)"
| "jlt PInf _ = False"
| "jlt _ NInf = False"
| "jlt _ _ = True"

text \<open>
  A staff group is the array of its staffs, of which \<^verbatim>\<open>addStaffPadding\<close> reads the top of
  the first and the bottom of the last; reading either of an empty array throws.
\<close>

record staff =
  staff_top :: jsnum
  staff_bottom :: jsnum

definition addStaffPadding :: "extern \<Rightarrow> traced \<Rightarrow> staff list \<Rightarrow> staff list \<Rightarrow> error + traced" where
  "addStaffPadding E st lastStaffGroup thisStaffGroup =
     (if lastStaffGroup = [] \<or> thisStaffGroup = [] then Inl TypeError
      else
        (let lastStaff = last lastStaffGroup;
             lastBottomLine = jneg (jsub (staff_bottom lastStaff) (Num 2));
             nextTopLine = jsub (staff_top (hd thisStaffGroup)) (Num 10);
             naturalSeparation = jadd nextTopLine lastBottomLine;
             separationInPixels = jmul naturalSeparation (STEP E)
         in if jlt separationInPixels (spacing_staffSeparation (this_spacing (fst st)))
            then Inr (moveY_traced st
                        (jsub (spacing_staffSeparation (this_spacing (fst st))) separationInPixels) None)
            else Inr st))"

text \<open>
  \<^verbatim>\<open>this.space\<close> is set by the constructor to \<^verbatim>\<open>3*spacing.SPACE\<close> and never assigned
  again.
\<close>

definition skipSpaceY :: "extern \<Rightarrow> traced \<Rightarrow> traced" where
  "skipSpaceY E st = assign_y st (jadd (this_y (fst st)) (jmul (Num 3) (SPACE E)))"

definition outputSubtitle :: "extern \<Rightarrow> traced \<Rightarrow> jsnum \<Rightarrow> string option \<Rightarrow> traced" where
  "outputSubtitle E st width subtitle =
     snd (outputTextIf_traced E st (jadd (padding_left (fst st)) (jdiv width (Num 2))) subtitle
            (FontKey ''subtitlefont'') ''text subtitle''
            (spacing_subtitle (this_spacing (fst st))) (Some (Num 0)) ''middle'' False)"

record separator =
  sep_lineLength :: jsnum
  sep_spaceAbove :: jsnum
  sep_spaceBelow :: jsnum

definition printSeparator :: "extern \<Rightarrow> renderer \<Rightarrow> jsnum \<Rightarrow> renderer" where
  "printSeparator E self width =
     (let y = Math_round (this_y self);
          staffWidth = controller_width E;
          x1 = jdiv (jsub staffWidth width) (Num 2);
          x2 = jadd x1 width
      in self\<lparr>paper := paper self @
           [PaperPathToBack
              [(''M'', [x1, y]), (''L'', [x2, y]), (''L'', [x2, jadd y (Num 1)]),
               (''L'', [x1, jadd y (Num 1)]), (''L'', [x1, y]), (''z'', [])]
              ''rgba(0,0,0,0)'' ''rgba(0,0,0,255)'' (Some ''defined-text'')]\<rparr>)"

definition outputSeparator :: "extern \<Rightarrow> traced \<Rightarrow> separator \<Rightarrow> traced" where
  "outputSeparator E st separator =
     (if \<not> truthy (sep_lineLength separator) then st
      else
        (let st1 = moveY_traced st (sep_spaceAbove separator) None;
             st2 = (printSeparator E (fst st1) (sep_lineLength separator), snd st1)
         in moveY_traced st2 (sep_spaceBelow separator) None))"

text \<open>
  A free text is a string or an array of parts; the font of a part is kept as the string that
  \<^verbatim>\<open>"FONT(" + text[i].font + ")"\<close> makes of it.
\<close>

record text_part =
  part_font :: "string option"
  part_text :: string
  part_center :: bool

datatype free_text = FreeString string | FreeParts "text_part list"

definition outputFreeText :: "extern \<Rightarrow> traced \<Rightarrow> free_text \<Rightarrow> jsnum \<Rightarrow> traced" where
  "outputFreeText E st text vskip =
     (let st1 = (if truthy vskip then moveY_traced st vskip None else st);
          (fnt, attr) = getFontAndAttr (fst st1) (FontKey ''textfont'') ''defined-text''
      in case text of
           FreeString s \<Rightarrow>
             if s = [] then moveY_traced st1 (jmul (attr_font_size attr) (Num 2)) None
             else
               (let st2 = moveY_traced st1 (jdiv (attr_font_size attr) (Num 2)) None
                in snd (outputTextIf_traced E st2 (padding_left (fst st2)) (Some s)
                          (FontKey ''textfont'') ''defined-text'' (Num 0) (Some (Num 0)) ''start'' False))
         | FreeParts parts \<Rightarrow>
             (let str = concat (map (\<lambda>p. (if str_truthy (part_font p)
                                            then ''FONT('' @ the (part_font p) @ '')'' else [])
                                           @ part_text p) parts);
                  isCentered = list_ex part_center parts;
                  alignment = (if isCentered then ''middle'' else ''start'');
                  x = (if isCentered then jdiv (controller_width E) (Num 2) else padding_left (fst st1))
              in snd (outputTextIf_traced E st1 x (Some str)
                        (FontKey ''textfont'') ''defined-text'' (Num 0) (Some (Num 1)) alignment False)))"


section \<open>Text below the score\<close>

text \<open>
  The inner loop of \<^verbatim>\<open>engraveExtraText\<close> over the words of one line: it carries
  \<^verbatim>\<open>largestY\<close> and \<^verbatim>\<open>offsetX\<close>; \<open>spaceWidth\<close> is the measured width of \<^verbatim>\<open>"i"\<close>.
\<close>

fun unaligned_words ::
  "extern \<Rightarrow> jsnum \<Rightarrow> renderer \<Rightarrow> jsnum \<times> jsnum \<Rightarrow> word list \<Rightarrow> (jsnum \<times> jsnum) \<times> renderer" where
  "unaligned_words E spaceWidth self (largestY, offsetX) [] = ((largestY, offsetX), self)"
| "unaligned_words E spaceWidth self (largestY, offsetX) (thisWord # rest) =
     (let type = (case word_font thisWord of Some f \<Rightarrow> FontDesc f | None \<Rightarrow> FontKey ''wordsfont'');
          s1 = snd (renderText E self (jadd (jadd (padding_left self) (INDENT E)) offsetX) (this_y self)
                      (word_text thisWord) type ''meta-bottom unaligned-words'' ''start'' True None);
          (sw, sh) = getTextSize E s1 (word_text thisWord) type ''meta-bottom unaligned-words'';
          largestY1 = Math_max largestY sh;
          offsetX1 = jadd offsetX sw;
          offsetX2 = (if word_text thisWord \<noteq> [] \<and> last (word_text thisWord) = CHR '' ''
                      then jadd offsetX1 spaceWidth else offsetX1)
      in unaligned_words E spaceWidth s1 (largestY1, offsetX2) rest)"

text \<open>The outer loop, over the entries of \<^verbatim>\<open>unalignedWords\<close>; \<open>fontSize\<close> is \<^verbatim>\<open>hash.font.size\<close>.\<close>

fun unaligned_lines :: "extern \<Rightarrow> jsnum \<Rightarrow> jsnum \<Rightarrow> traced \<Rightarrow> words_item list \<Rightarrow> traced" where
  "unaligned_lines E fontSize spaceWidth st [] = st"
| "unaligned_lines E fontSize spaceWidth st (WordsString s # rest) =
     (if s = [] then unaligned_lines E fontSize spaceWidth (moveY_traced st fontSize (Some (Num 1))) rest
      else unaligned_lines E fontSize spaceWidth
             (snd (outputTextIf_traced E st (jadd (padding_left (fst st)) (INDENT E)) (Some s)
                     (FontKey ''wordsfont'') ''meta-bottom unaligned-words'' (Num 0) (Some (Num 0))
                     ''start'' True))
             rest)"
| "unaligned_lines E fontSize spaceWidth st (WordsParts ws # rest) =
     (let ((largestY, offsetX), s1) = unaligned_words E spaceWidth (fst st) (Num 0, Num 0) ws
      in unaligned_lines E fontSize spaceWidth (moveY_traced (s1, snd st) largestY (Some (Num 1))) rest)"

definition extraText :: "metaText \<Rightarrow> string" where
  "extraText m =
     (if str_truthy (meta_book m) then ''Book: '' @ the (meta_book m) @ [CHR 0x0A] else [])
     @ (if str_truthy (meta_source m) then ''Source: '' @ the (meta_source m) @ [CHR 0x0A] else [])
     @ (if str_truthy (meta_discography m)
        then ''Discography: '' @ the (meta_discography m) @ [CHR 0x0A] else [])
     @ (if str_truthy (meta_notes m) then ''Notes: '' @ the (meta_notes m) @ [CHR 0x0A] else [])
     @ (if str_truthy (meta_transcription m)
        then ''Transcription: '' @ the (meta_transcription m) @ [CHR 0x0A] else [])
     @ (if str_truthy (meta_history m) then ''History: '' @ the (meta_history m) @ [CHR 0x0A] else [])
     @ (if str_truthy (meta_abc_copyright m)
        then ''Copyright: '' @ the (meta_abc_copyright m) @ [CHR 0x0A] else [])
     @ (if str_truthy (meta_abc_creator m)
        then ''Creator: '' @ the (meta_abc_creator m) @ [CHR 0x0A] else [])
     @ (if str_truthy (meta_abc_edited_by m)
        then ''Edited By: '' @ the (meta_abc_edited_by m) @ [CHR 0x0A] else [])"

text \<open>
  \<^verbatim>\<open>engraveExtraText\<close> in its three blocks: the unaligned words, the extra text and the
  footer. \<^verbatim>\<open>combineHistory\<close> is a method of the controller, which is not given with the
  renderer; the log of \<^verbatim>\<open>recordHistory\<close> keeps the elements as they were recorded.
\<close>

definition words_block :: "extern \<Rightarrow> traced \<Rightarrow> abctune \<Rightarrow> traced" where
  "words_block E st tune =
     (if meta_unalignedWords (tune_metaText tune) \<noteq> [] then
        (let (fnt, attr) = getFontAndAttr (fst st) (FontKey ''wordsfont'') ''meta-bottom unaligned-words'';
             spaceWidth = fst (getTextSize E (fst st) ''i'' (FontKey ''wordsfont'')
                                 ''meta-bottom unaligned-words'');
             st1 = moveY_traced st (spacing_words (this_spacing (fst st))) (Some (Num 1));
             st2 = ((fst st1)\<lparr>paper := paper (fst st1) @
                       [PaperOpenGroup (Some ''abcjs-meta-bottom abcjs-unaligned-words'')]\<rparr>, snd st1);
             st3 = unaligned_lines E (font_size fnt) spaceWidth st2 (meta_unalignedWords (tune_metaText tune));
             st4 = moveY_traced st3 (font_size fnt) (Some (Num 2))
         in ((fst st4)\<lparr>paper := paper (fst st4) @ [PaperCloseGroup]\<rparr>, snd st4))
      else st)"

definition extraText_block :: "extern \<Rightarrow> traced \<Rightarrow> abctune \<Rightarrow> traced" where
  "extraText_block E st tune =
     (if 0 < length (extraText (tune_metaText tune))
      then snd (outputTextIf_traced E st (padding_left (fst st)) (Some (extraText (tune_metaText tune)))
                  (FontKey ''historyfont'') ''meta-bottom extra-text''
                  (spacing_info (this_spacing (fst st))) (Some (Num 0)) ''start'' False)
      else st)"

definition footer_block :: "extern \<Rightarrow> traced \<Rightarrow> jsnum \<Rightarrow> abctune \<Rightarrow> traced" where
  "footer_block E st width tune =
     (case meta_footer (tune_metaText tune) of
        None \<Rightarrow> st
      | Some ftr \<Rightarrow>
          if isPrint (fst st) then
            (let st1 = snd (outputTextIf_traced E st (padding_left (fst st)) (header_left ftr)
                              (FontKey ''footerfont'') ''header meta-bottom'' (Num 0) None ''start'' False);
                 st2 = snd (outputTextIf_traced E st1 (jadd (padding_left (fst st1)) (jdiv width (Num 2)))
                              (header_center ftr)
                              (FontKey ''footerfont'') ''header meta-bottom'' (Num 0) None ''middle'' False)
             in snd (outputTextIf_traced E st2 (jadd (padding_left (fst st2)) width) (header_right ftr)
                       (FontKey ''footerfont'') ''header meta-bottom'' (Num 0) None ''end'' False))
          else st)"

definition engraveExtraText :: "extern \<Rightarrow> traced \<Rightarrow> jsnum \<Rightarrow> abctune \<Rightarrow> traced" where
  "engraveExtraText E st width tune =
     footer_block E (extraText_block E (words_block E st tune) tune) width tune"


section \<open>A pass\<close>

text \<open>
  The controller that runs a pass is not given with the renderer. A pass is taken to be any
  sequence of calls of the operations that write the cursor; a call of \<^verbatim>\<open>moveY\<close> stands for
  every move that the drawing of the music makes.
\<close>

datatype pass_op =
    TopMargin abctune
  | EngraveTopText jsnum abctune
  | AddMusicPadding
  | AddStaffPadding "staff list" "staff list"
  | MoveY jsnum "jsnum option"
  | SkipSpaceY
  | OutputSubtitle jsnum "string option"
  | OutputSeparator separator
  | OutputFreeText free_text jsnum
  | EngraveExtraText jsnum abctune

fun perform :: "extern \<Rightarrow> traced \<Rightarrow> pass_op \<Rightarrow> error + traced" where
  "perform E st (TopMargin tune) = Inr (topMargin st tune)"
| "perform E st (EngraveTopText width tune) = engraveTopText E st width tune"
| "perform E st AddMusicPadding = Inr (addMusicPadding st)"
| "perform E st (AddStaffPadding lastStaffGroup thisStaffGroup) =
     addStaffPadding E st lastStaffGroup thisStaffGroup"
| "perform E st (MoveY em numLines) = Inr (moveY_traced st em numLines)"
| "perform E st SkipSpaceY = Inr (skipSpaceY E st)"
| "perform E st (OutputSubtitle width subtitle) = Inr (outputSubtitle E st width subtitle)"
| "perform E st (OutputSeparator separator) = Inr (outputSeparator E st separator)"
| "perform E st (OutputFreeText text vskip) = Inr (outputFreeText E st text vskip)"
| "perform E st (EngraveExtraText width tune) = Inr (engraveExtraText E st width tune)"

fun pass :: "extern \<Rightarrow> traced \<Rightarrow> pass_op list \<Rightarrow> error + traced" where
  "pass E st [] = Inr st"
| "pass E st (op # ops) = bindE (perform E st op) (\<lambda>st'. pass E st' ops)"


section \<open>Slurs and ties\<close>

text \<open>
  The local variables of \<^verbatim>\<open>drawArc\<close>, in the order in which the source computes them.
  The parameter \<^verbatim>\<open>above\<close> of the source is \<open>isAbove\<close> here.
\<close>

record arc =
  arc_x1 :: jsnum
  arc_x2 :: jsnum
  arc_y1 :: jsnum
  arc_y2 :: jsnum
  arc_norm :: jsnum
  arc_ux :: jsnum
  arc_uy :: jsnum
  arc_flatten :: jsnum
  arc_curve :: jsnum
  controlx1 :: jsnum
  controly1 :: jsnum
  controlx2 :: jsnum
  controly2 :: jsnum

definition arc_locals ::
  "extern \<Rightarrow> renderer \<Rightarrow> jsnum \<Rightarrow> jsnum \<Rightarrow> jsnum \<Rightarrow> jsnum \<Rightarrow> bool \<Rightarrow> bool \<Rightarrow> arc" where
  "arc_locals E self x1 x2 pitch1 pitch2 isAbove isTie =
     (let spc = (if isTie then Num (12 / 10) else Num (15 / 10));
          x1 = jadd x1 (Num 6);
          x2 = jadd x2 (Num 4);
          pitch1 = jadd pitch1 (if isAbove then spc else jneg spc);
          pitch2 = jadd pitch2 (if isAbove then spc else jneg spc);
          y1 = calcY E self pitch1;
          y2 = calcY E self pitch2;
          dx = jsub x2 x1;
          dy = jsub y2 y1;
          norm = Math_sqrt (jadd (jmul dx dx) (jmul dy dy));
          ux = jdiv dx norm;
          uy = jdiv dy norm;
          flatten = jdiv norm (Num (35 / 10));
          maxFlatten = (if isTie then Num 10 else Num 25);
          curve = jmul (if isAbove then Num (- 1) else Num 1)
                       (Math_min maxFlatten (Math_max (Num 4) flatten))
      in \<lparr>arc_x1 = x1, arc_x2 = x2, arc_y1 = y1, arc_y2 = y2, arc_norm = norm,
          arc_ux = ux, arc_uy = uy, arc_flatten = flatten, arc_curve = curve,
          controlx1 = jsub (jadd x1 (jmul flatten ux)) (jmul curve uy),
          controly1 = jadd (jadd y1 (jmul flatten uy)) (jmul curve ux),
          controlx2 = jsub (jsub x2 (jmul flatten ux)) (jmul curve uy),
          controly2 = jadd (jsub y2 (jmul flatten uy)) (jmul curve ux)\<rparr>)"

definition arc_path :: "arc \<Rightarrow> path_cmd list" where
  "arc_path a =
     (let thickness = Num 2 in
      [(''M'', [arc_x1 a, arc_y1 a]),
       (''C'', [controlx1 a, controly1 a, controlx2 a, controly2 a, arc_x2 a, arc_y2 a]),
       (''C'', [jsub (controlx2 a) (jmul thickness (arc_uy a)),
                jadd (controly2 a) (jmul thickness (arc_ux a)),
                jsub (controlx1 a) (jmul thickness (arc_uy a)),
                jadd (controly1 a) (jmul thickness (arc_ux a)),
                arc_x1 a, arc_y1 a]),
       (''z'', [])])"

definition drawArc ::
  "extern \<Rightarrow> renderer \<Rightarrow> jsnum \<Rightarrow> jsnum \<Rightarrow> jsnum \<Rightarrow> jsnum \<Rightarrow> bool \<Rightarrow> string option \<Rightarrow> bool
     \<Rightarrow> canvas_call \<times> renderer" where
  "drawArc E self x1 x2 pitch1 pitch2 isAbove klass isTie =
     (let a = arc_locals E self x1 x2 pitch1 pitch2 isAbove isTie;
          klass2 = (if str_truthy klass then the klass @ '' slur'' else ''slur'');
          ret = PaperPath (arc_path a) ''none'' ''#000000'' (Some klass2);
          s1 = self\<lparr>paper := paper self @ [ret]\<rparr>
      in (ret, recordHistory s1 (Some ret) False))"


section \<open>The path accumulator\<close>

definition beginGroup :: "renderer \<Rightarrow> renderer" where
  "beginGroup self = self\<lparr>this_path := Some [], lastM := Some (Num 0, Num 0), ingroup := True\<rparr>"

text \<open>
  \<^verbatim>\<open>path[i][1]\<close> and \<^verbatim>\<open>path[i][2]\<close> of a command: the first and second number after
  the letter, \<^verbatim>\<open>undefined\<close> (in arithmetic, \<^verbatim>\<open>NaN\<close>) when the command is shorter.
\<close>

fun cmd_x :: "path_cmd \<Rightarrow> jsnum" where
  "cmd_x (c, a # _) = a"
| "cmd_x (c, []) = NaN"

fun cmd_y :: "path_cmd \<Rightarrow> jsnum" where
  "cmd_y (c, _ # b # _) = b"
| "cmd_y (c, _) = NaN"

text \<open>The loop of \<^verbatim>\<open>addPath\<close> over the commands after the first.\<close>

fun addPath_loop ::
  "(jsnum \<times> jsnum) \<Rightarrow> path_cmd list \<Rightarrow> path_cmd list \<Rightarrow> (jsnum \<times> jsnum) \<times> path_cmd list" where
  "addPath_loop lm acc [] = (lm, acc)"
| "addPath_loop lm acc (c # cs) =
     addPath_loop
       (if fst c = ''m'' then (jadd (fst lm) (cmd_x c), jadd (snd lm) (cmd_y c)) else lm)
       (acc @ [c]) cs"

text \<open>
  \<^verbatim>\<open>addPath(path)\<close>; a \<^verbatim>\<open>null\<close> path is \<^verbatim>\<open>None\<close>. Outside a group
  \<^verbatim>\<open>this.lastM\<close> and \<^verbatim>\<open>this.path\<close> are \<^verbatim>\<open>null\<close> and reading them throws.
  The source rewrites the leading command inside the caller's array; the model keeps the
  accumulated path and the cumulative origin only.
\<close>

definition addPath :: "renderer \<Rightarrow> path_cmd list option \<Rightarrow> error + renderer" where
  "addPath self path =
     (case (case path of None \<Rightarrow> [] | Some p \<Rightarrow> p) of
        [] \<Rightarrow> Inr self
      | c0 # cs \<Rightarrow>
          (case lastM self of
             None \<Rightarrow> Inl TypeError
           | Some (l0, l1) \<Rightarrow>
               (let a1 = jsub (cmd_x c0) l0;
                    a2 = jsub (cmd_y c0) l1;
                    first = (''m'', a1 # a2 # drop 2 (snd c0));
                    lm = (jadd l0 a1, jadd l1 a2)
                in case this_path self of
                     None \<Rightarrow> Inl TypeError
                   | Some acc \<Rightarrow>
                       (let (lm2, acc2) = addPath_loop lm (acc @ [first]) cs
                        in Inr (self\<lparr>lastM := Some lm2, this_path := Some acc2\<rparr>)))))"

text \<open>\<^verbatim>\<open>endGroup(klass)\<close> returns the element it emitted, or \<^verbatim>\<open>null\<close>.\<close>

definition endGroup :: "renderer \<Rightarrow> string \<Rightarrow> error + (canvas_call option \<times> renderer)" where
  "endGroup self klass =
     (let s1 = self\<lparr>ingroup := False\<rparr> in
      case this_path s1 of
        None \<Rightarrow> Inl TypeError
      | Some [] \<Rightarrow> Inr (None, s1)
      | Some (c # cs) \<Rightarrow>
          (let ret = PaperPath (c # cs) ''none'' ''#000000'' (Some klass);
               s2 = s1\<lparr>paper := paper s1 @ [ret]\<rparr>;
               s3 = recordHistory s2 (Some ret) False
           in Inr (Some ret, s3\<lparr>this_path := Some []\<rparr>)))"

text \<open>
  The sum of the relative movetos of a path: how far the commands \<^verbatim>\<open>m\<close> of the path move
  its origin.
\<close>

fun displacement :: "path_cmd list \<Rightarrow> jsnum \<times> jsnum" where
  "displacement [] = (Num 0, Num 0)"
| "displacement (c # cs) =
     (if fst c = ''m''
      then (jadd (cmd_x c) (fst (displacement cs)), jadd (cmd_y c) (snd (displacement cs)))
      else displacement cs)"


text \<open>
  A fragment as \<^verbatim>\<open>addPath\<close> appends it when the cumulative origin is \<open>lm\<close>: the leading
  command becomes a relative moveto whose coordinates are taken relative to \<open>lm\<close>.
\<close>

fun normalize_fragment :: "jsnum \<times> jsnum \<Rightarrow> path_cmd list \<Rightarrow> path_cmd list" where
  "normalize_fragment lm [] = []"
| "normalize_fragment lm (c0 # cs) =
     (''m'', jsub (cmd_x c0) (fst lm) # jsub (cmd_y c0) (snd lm) # drop 2 (snd c0)) # cs"

text \<open>The sum of two displacements.\<close>

definition vadd :: "jsnum \<times> jsnum \<Rightarrow> jsnum \<times> jsnum \<Rightarrow> jsnum \<times> jsnum" where
  "vadd u v = (jadd (fst u) (fst v), jadd (snd u) (snd v))"

text \<open>The call sequence \<^verbatim>\<open>beginGroup(); addPath(f1); addPath(f2); endGroup(klass)\<close>.\<close>

definition group_of_two ::
  "renderer \<Rightarrow> path_cmd list \<Rightarrow> path_cmd list \<Rightarrow> string \<Rightarrow> error + (canvas_call option \<times> renderer)" where
  "group_of_two self f1 f2 klass =
     bindE (addPath (beginGroup self) (Some f1)) (\<lambda>s1.
     bindE (addPath s1 (Some f2)) (\<lambda>s2. endGroup s2 klass))"


section \<open>Symbols\<close>

definition kernSymbols :: "string \<Rightarrow> string \<Rightarrow> jsnum \<Rightarrow> jsnum" where
  "kernSymbols lastSymbol thisSymbol lastSymbolWidth =
     (let width = lastSymbolWidth;
          width = (if lastSymbol = ''f'' \<and> thisSymbol = ''f''
                   then jdiv (jmul width (Num 2)) (Num 3) else width);
          width = (if lastSymbol = ''p'' \<and> thisSymbol = ''p''
                   then jdiv (jmul width (Num 5)) (Num 6) else width);
          width = (if lastSymbol = ''f'' \<and> thisSymbol = ''z''
                   then jdiv (jmul width (Num 5)) (Num 8) else width)
      in width)"

text \<open>
  The loop of \<^verbatim>\<open>printSymbol\<close> over the characters of a multi-character symbol: \<open>dx\<close> is the
  horizontal offset so far and the list holds the characters still to place.
\<close>

fun printSymbol_loop ::
  "extern \<Rightarrow> renderer \<Rightarrow> jsnum \<Rightarrow> jsnum \<Rightarrow> string \<Rightarrow> jsnum \<Rightarrow> string \<Rightarrow> renderer" where
  "printSymbol_loop E self x offset symbol dx [] = self"
| "printSymbol_loop E self x offset symbol dx (c # cs) =
     (let s = [c];
          ycorr = glyphs_getYCorr E s;
          (el, ppr) = glyphs_printSymbol E (jadd x dx) (calcY E self (jadd offset ycorr)) s (paper self) []
      in case el of
           Some e \<Rightarrow>
             printSymbol_loop E (self\<lparr>paper := ppr\<rparr>) x offset symbol
               (if cs \<noteq> [] then jadd dx (kernSymbols s [hd cs] (glyphs_getSymbolWidth E s)) else dx) cs
         | None \<Rightarrow>
             printSymbol_loop E
               (snd (renderText E (self\<lparr>paper := ppr\<rparr>) x (this_y self) (''no symbol:'' @ symbol)
                       (FontKey ''debugfont'') ''debug-msg'' ''start'' False None))
               x offset symbol dx cs)"

definition printSymbol ::
  "extern \<Rightarrow> renderer \<Rightarrow> jsnum \<Rightarrow> jsnum \<Rightarrow> string \<Rightarrow> jsnum \<Rightarrow> jsnum \<Rightarrow> string
     \<Rightarrow> error + (canvas_call option \<times> renderer)" where
  "printSymbol E self x offset symbol scalex scaley klass =
     (if symbol = [] then Inr (None, self)
      else if 1 < length symbol \<and> CHR ''.'' \<notin> set symbol then
        (let s1 = self\<lparr>paper := paper self @ [PaperOpenGroup (Some klass)]\<rparr>;
             s2 = printSymbol_loop E s1 x offset symbol (Num 0) symbol;
             s3 = s2\<lparr>paper := paper s2 @ [PaperCloseGroup]\<rparr>
         in Inr (Some PaperCloseGroup, recordHistory s3 (Some PaperCloseGroup) False))
      else
        (let ycorr = glyphs_getYCorr E symbol in
         if ingroup self then
           bindE (addPath self
                    (glyphs_getPathForSymbol E x (calcY E self (jadd offset ycorr)) symbol scalex scaley))
             (\<lambda>s. Inr (None, s))
         else
           (let (el, ppr) = glyphs_printSymbol E x (calcY E self (jadd offset ycorr)) symbol (paper self) klass;
                s1 = recordHistory (self\<lparr>paper := ppr\<rparr>) el False
            in case el of
                 Some e \<Rightarrow> Inr (Some e, s1)
               | None \<Rightarrow>
                   Inr (None,
                        snd (renderText E s1 x (this_y s1) (''no symbol:'' @ symbol)
                               (FontKey ''debugfont'') ''debug-msg'' ''start'' False None)))))"


section \<open>Endings\<close>

text \<open>
  The ending element of \<^verbatim>\<open>abc_ending_element.js\<close>. An anchor has an \<^verbatim>\<open>x\<close> and a
  \<^verbatim>\<open>w\<close>; a \<^verbatim>\<open>null\<close> anchor and the \<^verbatim>\<open>undefined\<close> pitch are \<^verbatim>\<open>None\<close>.
\<close>

record anchor =
  anchor_x :: jsnum
  anchor_w :: jsnum

record EndingElem =
  ending_text :: string
  anchor1 :: "anchor option"
  anchor2 :: "anchor option"
  endingHeightAbove :: jsnum
  pitch :: "jsnum option"

definition new_EndingElem :: "string \<Rightarrow> anchor option \<Rightarrow> anchor option \<Rightarrow> EndingElem" where
  "new_EndingElem txt a1 a2 =
     \<lparr>ending_text = txt, anchor1 = a1, anchor2 = a2, endingHeightAbove = Num 5, pitch = None\<rparr>"

text \<open>The argument is \<^verbatim>\<open>positionY.endingHeightAbove\<close>, \<^verbatim>\<open>None\<close> when it is missing.\<close>

definition setUpperAndLowerElements :: "EndingElem \<Rightarrow> jsnum option \<Rightarrow> EndingElem" where
  "setUpperAndLowerElements this positionY_endingHeightAbove =
     this\<lparr>pitch := Some (jsub (ToNumber positionY_endingHeightAbove) (Num 2))\<rparr>"

definition printPath ::
  "renderer \<Rightarrow> path_cmd list \<Rightarrow> string \<Rightarrow> string \<Rightarrow> string option \<Rightarrow> canvas_call \<times> renderer" where
  "printPath self pth stroke fill hist =
     (let ret = PaperPath pth stroke fill None;
          s1 = self\<lparr>paper := paper self @ [ret]\<rparr>
      in case hist of
           None \<Rightarrow> (ret, recordHistory s1 (Some ret) False)
         | Some k \<Rightarrow> if k = ''not-selectable'' then (ret, recordHistory s1 (Some ret) True)
                     else (ret, s1))"

definition ending_message :: string where
  "ending_message = ''Ending Element y-coordinate not set.''"

definition draw ::
  "extern \<Rightarrow> EndingElem \<Rightarrow> renderer \<Rightarrow> jsnum \<Rightarrow> jsnum \<Rightarrow> canvas_call \<times> renderer" where
  "draw E this rend linestartx lineendx =
     (let r1 = (if pitch this = None then rend\<lparr>console := console rend @ [ending_message]\<rparr> else rend);
          y = calcY E r1 (ToNumber (pitch this));
          height = Num 20;
          (linestartx, path1) =
            (case anchor1 this of
               None \<Rightarrow> (linestartx, [])
             | Some a \<Rightarrow>
                 (let lsx = jadd (anchor_x a) (anchor_w a)
                  in (lsx, [(''M'', [lsx, y]), (''L'', [lsx, jadd y height])])));
          (lineendx, path2) =
            (case anchor2 this of
               None \<Rightarrow> (lineendx, path1)
             | Some a \<Rightarrow>
                 (anchor_x a, path1 @ [(''M'', [anchor_x a, y]), (''L'', [anchor_x a, jadd y height])]));
          pathString = path2 @ [(''M'', [linestartx, y]), (''L'', [lineendx, y])];
          r2 = r1\<lparr>paper := paper r1 @ [PaperOpenGroup (Some ''ending'')]\<rparr>;
          r3 = snd (printPath r2 pathString ''#000000'' ''#000000'' (Some ''ignore''));
          r4 = (if anchor1 this \<noteq> None
                then snd (renderText E r3 (jadd linestartx (Num 5))
                            (calcY E r3 (jsub (ToNumber (pitch this)) (Num (1 / 2))))
                            (ending_text this) (FontKey ''repeatfont'') ''ending'' ''start'' True
                            (Some ''ignore''))
                else r3);
          r5 = r4\<lparr>paper := paper r4 @ [PaperCloseGroup]\<rparr>
      in (PaperCloseGroup, recordHistory r5 (Some PaperCloseGroup) False))"


section \<open>Vocabulary of the statements\<close>

text \<open>
  The padding that a call of \<^verbatim>\<open>setPadding\<close> resolved for a key, when the call returned.
\<close>

definition resolved_padding :: "error + renderer \<Rightarrow> string \<Rightarrow> jsnum option" where
  "resolved_padding r k = (case r of Inl e \<Rightarrow> None | Inr s \<Rightarrow> padding s k)"

text \<open>A number that is not negative.\<close>

fun nonneg :: "jsnum \<Rightarrow> bool" where
  "nonneg (Num a) = (0 \<le> a)"
| "nonneg _ = False"

text \<open>
  The steps lead from the value \<open>a\<close> to the value \<open>b\<close>: the first starts at \<open>a\<close>, each
  starts where the one before ended, and the last ends at \<open>b\<close>.
\<close>

fun walk :: "jsnum \<Rightarrow> step list \<Rightarrow> jsnum \<Rightarrow> bool" where
  "walk a [] b = (a = b)"
| "walk a (s # ss) b = (fst s = a \<and> walk (snd s) ss b)"

text \<open>A step that leaves the cursor unchanged or increases it, and a step by -6.\<close>

definition unlowered :: "step \<Rightarrow> bool" where
  "unlowered s = jle (fst s) (snd s)"

definition minus_six :: "step \<Rightarrow> bool" where
  "minus_six s = (snd s = jadd (fst s) (Num (- 6)))"

text \<open>
  The cursor does not decrease along the steps, except in a step by -6 and in a step that is
  followed at once by the step that takes the cursor back to the value before.
\<close>

fun lawful :: "step list \<Rightarrow> bool" where
  "lawful [] = True"
| "lawful [s] = (unlowered s \<or> minus_six s)"
| "lawful (s # s' # ss) =
     (if unlowered s \<or> minus_six s then lawful (s' # ss)
      else fst s' = snd s \<and> snd s' = fst s \<and> lawful ss)"

text \<open>
  The renderer with its log \<open>st'\<close> is \<open>st\<close> after the steps \<open>new\<close>, which lead from the
  cursor of \<open>st\<close> to the cursor of \<open>st'\<close>, a number; spacing, mode, tune and padding are the
  same.
\<close>

definition proceeds :: "traced \<Rightarrow> step list \<Rightarrow> traced \<Rightarrow> bool" where
  "proceeds st new st' =
     (snd st' = snd st @ new \<and> walk (this_y (fst st)) new (this_y (fst st'))
      \<and> isFinite (this_y (fst st'))
      \<and> this_spacing (fst st') = this_spacing (fst st) \<and> isPrint (fst st') = isPrint (fst st)
      \<and> this_abctune (fst st') = this_abctune (fst st) \<and> padding (fst st') = padding (fst st))"


text \<open>
  The amounts that a call adds to the cursor are numbers that are not negative. For
  \<^verbatim>\<open>addStaffPadding\<close>, whose guard makes the amount positive, the numbers it computes with are
  finite and both staff groups have a staff.
\<close>

fun permitted :: "extern \<Rightarrow> renderer \<Rightarrow> pass_op \<Rightarrow> bool" where
  "permitted E self (TopMargin tune) = nonneg (ToNumber (padding self ''top''))"
| "permitted E self (EngraveTopText width tune) =
     (nonneg (spacing_top (this_spacing self)) \<and> nonneg (spacing_title (this_spacing self))
      \<and> nonneg (spacing_subtitle (this_spacing self)) \<and> nonneg (spacing_composer (this_spacing self)))"
| "permitted E self AddMusicPadding = nonneg (spacing_music (this_spacing self))"
| "permitted E self (AddStaffPadding lastStaffGroup thisStaffGroup) =
     (lastStaffGroup \<noteq> [] \<and> thisStaffGroup \<noteq> []
      \<and> isFinite (staff_bottom (last lastStaffGroup)) \<and> isFinite (staff_top (hd thisStaffGroup))
      \<and> isFinite (STEP E) \<and> isFinite (spacing_staffSeparation (this_spacing self)))"
| "permitted E self (MoveY em numLines) =
     nonneg (jmul em (case numLines of None \<Rightarrow> Num 1 | Some k \<Rightarrow> k))"
| "permitted E self SkipSpaceY = nonneg (SPACE E)"
| "permitted E self (OutputSubtitle width subtitle) = nonneg (spacing_subtitle (this_spacing self))"
| "permitted E self (OutputSeparator separator) =
     (\<not> truthy (sep_lineLength separator)
      \<or> nonneg (sep_spaceAbove separator) \<and> nonneg (sep_spaceBelow separator))"
| "permitted E self (OutputFreeText freeText vskip) =
     ((\<not> truthy vskip \<or> nonneg vskip)
      \<and> nonneg (attr_font_size (snd (getFontAndAttr self (FontKey ''textfont'') ''defined-text''))))"
| "permitted E self (EngraveExtraText width tune) =
     (nonneg (spacing_words (this_spacing self)) \<and> nonneg (spacing_info (this_spacing self))
      \<and> nonneg (font_size (fst (getFontAndAttr self (FontKey ''wordsfont'')
                                  ''meta-bottom unaligned-words''))))"

text \<open>The call is one of \<^verbatim>\<open>engraveTopText\<close>.\<close>

fun is_EngraveTopText :: "pass_op \<Rightarrow> bool" where
  "is_EngraveTopText (EngraveTopText width tune) = True"
| "is_EngraveTopText _ = False"


text \<open>
  The steps of one call: a call of \<^verbatim>\<open>engraveTopText\<close> lowers the cursor in at most two
  steps, each a step by -6 or taken back by the next step; any other call lowers it in none.
\<close>

definition call_steps :: "pass_op \<Rightarrow> step list \<Rightarrow> bool" where
  "call_steps op seg =
     (if is_EngraveTopText op
      then lawful seg \<and> length (filter (\<lambda>s. \<not> unlowered s) seg) \<le> 2
      else list_all unlowered seg)"

text \<open>The steps that a call logged, when it returned.\<close>

definition trace_of :: "error + traced \<Rightarrow> step list option" where
  "trace_of r = (case r of Inl e \<Rightarrow> None | Inr st \<Rightarrow> Some (snd st))"


section \<open>Concrete inputs\<close>

text \<open>
  A tune whose formatting sets the top margin to 50, rendered for the screen by a renderer
  whose override sets the bottom padding to 20.
\<close>

definition example_tune :: abctune where
  "example_tune = plain_tune\<lparr>formatting_num := [''topmargin'' \<mapsto> Num 50]\<rparr>"

definition example_renderer :: renderer where
  "example_renderer =
     setPrintMode (setPaddingOverride (new_renderer example_tune) [''paddingbottom'' \<mapsto> Num 20]) False"

text \<open>
  Collaborators for the concrete inputs: every text measures 60 by 30, every glyph is 12 wide
  with no vertical correction, and the glyph table knows the glyphs f, x and y only.
\<close>

definition example_extern :: extern where
  "example_extern = \<lparr>STEP = Num (155 / 100), SPACE = Num 10, INDENT = Num 50,
     controller_width = Num 740,
     paper_getTextSize = (\<lambda>t a. (Num 60, Num 30)),
     glyphs_getYCorr = (\<lambda>s. Num 0),
     glyphs_getSymbolWidth = (\<lambda>s. Num 12),
     glyphs_defined = (\<lambda>s. s = ''f'' \<or> s = ''x'' \<or> s = ''y''),
     glyphs_getPathForSymbol = (\<lambda>x y s sx sy. None)\<rparr>"

text \<open>A text of three lines.\<close>

definition three_lines :: string where
  "three_lines = [CHR ''a'', CHR 0x0A, CHR ''b'', CHR 0x0A, CHR ''c'']"

text \<open>A tune whose text font is boxed.\<close>

definition boxed_tune :: abctune where
  "boxed_tune = plain_tune\<lparr>formatting_font := [''textfont'' \<mapsto>
     \<lparr>font_face = ''Times'', font_size = Num 12, font_decoration = ''none'',
      font_style = ''normal'', font_weight = ''normal'', font_box = True\<rparr>]\<rparr>"

text \<open>
  Two slurs above the staff, drawn by a fresh renderer: one from x = 0 to x = 107 and one from
  x = 10 to x = 12, both between equal pitches. The adjusted ends of the second coincide.
\<close>

definition example_arc :: arc where
  "example_arc = arc_locals example_extern (new_renderer plain_tune) (Num 0) (Num 107) (Num 4) (Num 4) True False"

text \<open>The slur whose adjusted ends coincide.\<close>

definition degenerate_arc :: arc where
  "degenerate_arc = arc_locals example_extern (new_renderer plain_tune) (Num 10) (Num 12) (Num 4) (Num 4) True False"

text \<open>Two fragments: the outline of a stem and a glyph with a second subpath.\<close>

definition stem_fragment :: "path_cmd list" where
  "stem_fragment = [(''M'', [Num 10, Num 20]), (''L'', [Num 10, Num 40]), (''z'', [])]"

definition glyph_fragment :: "path_cmd list" where
  "glyph_fragment = [(''M'', [Num 30, Num 50]), (''l'', [Num 1, Num 1]), (''m'', [Num 2, Num 3]), (''z'', [])]"

text \<open>An anchor for the start of an ending.\<close>

definition example_anchor :: anchor where
  "example_anchor = \<lparr>anchor_x = Num 40, anchor_w = Num 8\<rparr>"

text \<open>
  A tune with a rhythm and no other text, whose formatting sets the space above the composer
  line to 0.
\<close>

definition rhythm_tune :: abctune where
  "rhythm_tune = plain_tune\<lparr>formatting_num := [''composerspace'' \<mapsto> Num 0],
     tune_metaText := empty_metaText\<lparr>meta_rhythm := Some ''Jig''\<rparr>\<rparr>"

text \<open>The renderer of that tune after \<^verbatim>\<open>setVerticalSpace\<close>.\<close>

definition rhythm_renderer :: renderer where
  "rhythm_renderer = setVerticalSpace (new_renderer rhythm_tune) (formatting_num rhythm_tune)"

text \<open>A drawing surface on which every text measures 20 by 4.\<close>

definition small_text_extern :: extern where
  "small_text_extern = example_extern\<lparr>paper_getTextSize := (\<lambda>t a. (Num 20, Num 4))\<rparr>"

text \<open>A tune with a title and a composer.\<close>

definition titled_tune :: abctune where
  "titled_tune = plain_tune\<lparr>tune_metaText :=
     empty_metaText\<lparr>meta_title := Some ''The Reel'', meta_composer := Some ''Trad.''\<rparr>\<rparr>"

text \<open>
  A slur whose first pitch is \<^verbatim>\<open>NaN\<close>, which is what an \<^verbatim>\<open>undefined\<close> pitch becomes in
  \<^verbatim>\<open>pitch1 + spacing\<close>, and a slur whose second end is infinite.
\<close>

definition unset_pitch_arc :: arc where
  "unset_pitch_arc = arc_locals example_extern (new_renderer plain_tune) (Num 0) (Num 107) NaN (Num 4) True False"

definition infinite_arc :: arc where
  "infinite_arc = arc_locals example_extern (new_renderer plain_tune) (Num 0) PInf (Num 4) (Num 4) True False"

text \<open>A drawing surface that cannot measure a text: every extent is \<^verbatim>\<open>NaN\<close>.\<close>

definition nan_extern :: extern where
  "nan_extern = example_extern\<lparr>paper_getTextSize := (\<lambda>t a. (NaN, NaN))\<rparr>"

text \<open>
  The tune with a title and a composer once more, with a page header and for print: the
  renderer in print mode with the print paddings, and a pass over two staff systems.
\<close>

definition printed_tune :: abctune where
  "printed_tune = titled_tune\<lparr>tune_metaText := (tune_metaText titled_tune)\<lparr>meta_header :=
     Some \<lparr>header_left = Some ''Page'', header_center = None, header_right = None\<rparr>\<rparr>\<rparr>"

definition pass_renderer :: renderer where
  "pass_renderer = (setPrintMode (new_renderer printed_tune) True)\<lparr>padding :=
     [''top'' \<mapsto> Num 38, ''bottom'' \<mapsto> Num 38, ''left'' \<mapsto> Num 68, ''right'' \<mapsto> Num 68]\<rparr>"

definition example_pass :: "pass_op list" where
  "example_pass =
     [TopMargin printed_tune, EngraveTopText (Num 500) printed_tune, AddMusicPadding,
      MoveY (Num 100) None,
      AddStaffPadding [\<lparr>staff_top = Num 10, staff_bottom = Num 2\<rparr>]
                      [\<lparr>staff_top = Num 10, staff_bottom = Num 2\<rparr>],
      MoveY (Num 100) None, EngraveExtraText (Num 500) printed_tune]"

text \<open>A tune with a title whose formatting sets the title space to -30 points, and its renderer.\<close>

definition negative_title_tune :: abctune where
  "negative_title_tune = titled_tune\<lparr>formatting_num := [''titlespace'' \<mapsto> Num (- 30)]\<rparr>"

definition negative_title_renderer :: renderer where
  "negative_title_renderer =
     setVerticalSpace (new_renderer negative_title_tune) (formatting_num negative_title_tune)"



section \<open>Padding resolution\<close>

lemma setPaddingVariable_Inr:
  assumes "paddingOverride self = Some ov"
  shows "setPaddingVariable fmt self pk fk pd sd =
     Inr (self\<lparr>padding := (padding self)(pk \<mapsto> resolve_margin (fmt fk) (ov pk) (isPrint self) pd sd)\<rparr>)"
  using assms by (simp add: setPaddingVariable_def resolve_margin_def split: option.splits)

lemma example_override:
  "paddingOverride example_renderer = Some (\<lambda>k. if k = ''bottom'' then Some (Num 20) else None)"
  by (auto simp add: example_renderer_def setPrintMode_def setPaddingOverride_def fun_eq_iff)

text \<open>
  Claim C1, as the code has it. Once \<^verbatim>\<open>setPaddingOverride\<close> has been called,
  \<^verbatim>\<open>setPadding\<close> returns and resolves each of the four margins on its own by the
  precedence: the tune's formatting, else the renderer's override, else the default of the
  mode (38 or 68 for print, 15 for the screen).
\<close>

theorem setPadding_precedence:
  assumes "paddingOverride self = Some ov"
  shows "resolved_padding (setPadding self tune) ''top'' =
           Some (resolve_margin (formatting_num tune ''topmargin'') (ov ''top'') (isPrint self) (Num 38) (Num 15))
       \<and> resolved_padding (setPadding self tune) ''bottom'' =
           Some (resolve_margin (formatting_num tune ''botmargin'') (ov ''bottom'') (isPrint self) (Num 38) (Num 15))
       \<and> resolved_padding (setPadding self tune) ''left'' =
           Some (resolve_margin (formatting_num tune ''leftmargin'') (ov ''left'') (isPrint self) (Num 68) (Num 15))
       \<and> resolved_padding (setPadding self tune) ''right'' =
           Some (resolve_margin (formatting_num tune ''rightmargin'') (ov ''right'') (isPrint self) (Num 68) (Num 15))"
  using assms
  by (simp add: setPadding_def bindE_def setPaddingVariable_Inr resolved_padding_def)

text \<open>
  The input of the claim: document override top = 50, renderer override bottom = 20, screen
  mode. The precedence resolves the padding to top 50, bottom 20, left 15, right 15.
\<close>

theorem setPadding_precedence_witness:
  "resolved_padding (setPadding example_renderer example_tune) ''top'' = Some (Num 50)
   \<and> resolved_padding (setPadding example_renderer example_tune) ''bottom'' = Some (Num 20)
   \<and> resolved_padding (setPadding example_renderer example_tune) ''left'' = Some (Num 15)
   \<and> resolved_padding (setPadding example_renderer example_tune) ''right'' = Some (Num 15)"
  using setPadding_precedence [OF example_override, of example_tune]
  by (simp add: resolve_margin_def example_tune_def plain_tune_def example_renderer_def
      setPrintMode_def setPaddingOverride_def new_renderer_def)

text \<open>
  Claim C1 as stated gives the bottom padding of that input as the screen default 15. The
  renderer's override of 20 takes precedence over the default, so the bottom padding is 20.
\<close>

theorem setPadding_example_counterexample:
  "isPrint example_renderer = False
   \<and> resolved_padding (setPadding example_renderer example_tune) ''bottom'' = Some (Num 20)
   \<and> resolved_padding (setPadding example_renderer example_tune) ''bottom'' \<noteq> Some (Num 15)"
  by (simp add: setPadding_def bindE_def setPaddingVariable_def resolved_padding_def
      example_tune_def plain_tune_def example_renderer_def
      setPrintMode_def setPaddingOverride_def new_renderer_def)

section \<open>Text output\<close>

lemma getFontAndAttr_abctune:
  "this_abctune s = this_abctune s' \<Longrightarrow> getFontAndAttr s type klass = getFontAndAttr s' type klass"
  by (cases type) (simp_all add: getFontAndAttr_def)

lemma getTextSize_abctune:
  "this_abctune s = this_abctune s' \<Longrightarrow> getTextSize E s txt type klass = getTextSize E s' txt type klass"
  by (simp add: getTextSize_def getFontAndAttr_abctune [of s s'])

lemma moveY_frame [simp]:
  "this_abctune (moveY s em n) = this_abctune s"
  "this_spacing (moveY s em n) = this_spacing s"
  "padding (moveY s em n) = padding s"
  "isPrint (moveY s em n) = isPrint s"
  "paper (moveY s em n) = paper s"
  "console (moveY s em n) = console s"
  by (simp_all add: moveY_def Let_def)

lemma renderText_frame [simp]:
  "this_y (snd (renderText E s x y0 txt type klass anchr nc hist)) = this_y s"
  "this_abctune (snd (renderText E s x y0 txt type klass anchr nc hist)) = this_abctune s"
  "this_spacing (snd (renderText E s x y0 txt type klass anchr nc hist)) = this_spacing s"
  "padding (snd (renderText E s x y0 txt type klass anchr nc hist)) = padding s"
  "isPrint (snd (renderText E s x y0 txt type klass anchr nc hist)) = isPrint s"
  "ingroup (snd (renderText E s x y0 txt type klass anchr nc hist)) = ingroup s"
  "this_path (snd (renderText E s x y0 txt type klass anchr nc hist)) = this_path s"
  "lastM (snd (renderText E s x y0 txt type klass anchr nc hist)) = lastM s"
  unfolding renderText_def recordHistory_def
  by (simp_all add: Let_def case_prod_beta split: option.splits)

lemma outputTextIf_falsy:
  "\<not> str_truthy str \<Longrightarrow>
     outputTextIf E self x str kind klass mt mb al nc = ((Num 0, Num 0, None), self)"
  by (simp add: outputTextIf_def)

lemma after_marginTop_abctune [simp]: "this_abctune (after_marginTop s mt) = this_abctune s"
  by (simp add: after_marginTop_def)

lemma outputTextIf_truthy:
  assumes "txt \<noteq> []"
  shows "outputTextIf E self x (Some txt) kind klass mt mb al nc =
     (let s1 = after_marginTop self mt;
          drawn = renderText E s1 x (this_y s1) txt kind klass al nc None;
          bb = getTextSize E self txt kind klass;
          bx = font_box (fst (getFontAndAttr self kind klass));
          width = (if bx then jadd (if isNaN (fst bb) then Num 0 else fst bb) (Num 8)
                   else (if isNaN (fst bb) then Num 0 else fst bb));
          height = (if bx then jadd (if isNaN (snd bb) then Num 0 else snd bb) (Num 8)
                   else (if isNaN (snd bb) then Num 0 else snd bb));
          n = Num (real (split_newline_length txt))
      in ((width, height, Some (fst drawn)),
          (case mb of None \<Rightarrow> snd drawn
           | Some b \<Rightarrow> if \<not> isNaN (snd bb) then moveY (snd drawn) (jdiv height n) (Some (jadd n b))
                       else snd drawn)))"
proof -
  have a: "this_abctune (snd (renderText E (after_marginTop self mt) x
              (this_y (after_marginTop self mt)) txt kind klass al nc None)) = this_abctune self"
    by simp
  show ?thesis
    using assms
    by (simp add: outputTextIf_def Let_def case_prod_beta after_marginTop_def [symmetric]
        getTextSize_abctune [OF a] getFontAndAttr_abctune [OF a] split: option.splits)
qed

lemma jmul_one [simp]: "jmul a (Num 1) = a"
  by (cases a) (simp_all add: inf_of_sign_def)

lemma moveY_y: "this_y (moveY s em n) = jadd (this_y s) (jmul em (case n of None \<Rightarrow> Num 1 | Some k \<Rightarrow> k))"
  by (simp add: moveY_def Let_def)

lemma jadd_eight_twice: "\<not> isNaN c \<Longrightarrow> jadd (jadd c (Num 8)) (Num 8) = jadd c (Num 16)"
  by (cases c) simp_all

lemma jadd_not_NaN: "\<not> isNaN c \<Longrightarrow> \<not> isNaN (jadd c (Num a))"
  by (cases c) simp_all

lemma boxed_font:
  "getFontAndAttr (new_renderer boxed_tune) (FontKey ''textfont'') klass =
     (\<lparr>font_face = ''Times'', font_size = Num 16, font_decoration = ''none'',
       font_style = ''normal'', font_weight = ''normal'', font_box = True\<rparr>,
      \<lparr>attr_font_size = Num 16, attr_font_style = ''normal'', attr_font_family = ''Times'',
       attr_font_weight = ''normal'', attr_text_decoration = ''none'', attr_class = Some klass,
       attr_text_anchor = None, attr_x = None, attr_y = None, attr_dy = None,
       attr_stroke = None\<rparr>)"
  by (simp add: getFontAndAttr_def new_renderer_def boxed_tune_def plain_tune_def points_to_pixels_def)

lemma renderText_attr_fields:
  assumes "ta = renderText_attr a0 bx x y0 type anchr noClass"
  shows "attr_x ta = Some (if bx then jadd x (Num 2) else x)"
    and "attr_y ta = Some (if bx then jadd (jadd y0 (Num 7)) (Num 4) else jadd y0 (Num 7))"
    and "attr_dy ta = Some ''0.5em''"
    and "attr_text_anchor ta = (if anchr \<noteq> [] then Some anchr else attr_text_anchor a0)"
    and "attr_class ta = (if bx \<or> noClass then None else attr_class a0)"
    and "attr_stroke ta = (if type = FontKey ''debugfont'' then Some ''#ff0000'' else attr_stroke a0)"
    and "attr_font_size ta = attr_font_size a0 \<and> attr_font_style ta = attr_font_style a0
       \<and> attr_font_family ta = attr_font_family a0 \<and> attr_font_weight ta = attr_font_weight a0
       \<and> attr_text_decoration ta = attr_text_decoration a0"
  unfolding assms renderText_attr_def by (simp_all add: Let_def)

lemma renderText_emits:
  assumes "bx = font_box (fst (getFontAndAttr s type klass))"
    and "a0 = snd (getFontAndAttr s type klass)"
    and "shown = nbsp_before_leading_newline (blank_between_newlines t)"
    and "el = PaperText shown (renderText_attr a0 bx x y0 type anchr nc)"
    and "frame = PaperRect (jsub x (Num 2)) y0
                   (jsub (jadd (fst (paper_getTextSize E shown a0)) (Num 8)) (Num 2))
                   (jsub (jadd (snd (paper_getTextSize E shown a0)) (Num 8)) (Num 8))"
    and "drawn = renderText E s x y0 t type klass anchr nc None"
  shows "fst drawn = (if bx then PaperCloseGroup else el)"
    and "paper (snd drawn) = paper s @ (if bx then [PaperOpenGroup (Some klass), el, frame, PaperCloseGroup] else [el])"
    and "history (snd drawn) = history s @ [(Some (if bx then PaperCloseGroup else el), False)]"
    and "console (snd drawn) = (if type = FontKey ''debugfont'' then console s @ [''Debug msg: '' @ t] else console s)"
proof -
  have g: "getFontAndAttr (r\<lparr>paper := p\<rparr>) ty klass = getFontAndAttr r ty klass"
    "getFontAndAttr (r\<lparr>console := c\<rparr>) ty klass = getFontAndAttr r ty klass" for r p c ty
    by (rule getFontAndAttr_abctune, simp)+
  show "fst drawn = (if bx then PaperCloseGroup else el)"
    unfolding assms renderText_def recordHistory_def
    by (simp add: Let_def case_prod_beta)
  show "paper (snd drawn) = paper s @ (if bx then [PaperOpenGroup (Some klass), el, frame, PaperCloseGroup] else [el])"
    unfolding assms renderText_def recordHistory_def
    by (simp add: Let_def case_prod_beta getTextSize_def g)
  show "history (snd drawn) = history s @ [(Some (if bx then PaperCloseGroup else el), False)]"
    unfolding assms renderText_def recordHistory_def
    by (simp add: Let_def case_prod_beta)
  show "console (snd drawn) = (if type = FontKey ''debugfont'' then console s @ [''Debug msg: '' @ t] else console s)"
    unfolding assms renderText_def recordHistory_def
    by (simp add: Let_def case_prod_beta)
qed

lemma moveY_history: "history (moveY s em n) = history s"
  by (simp add: moveY_def Let_def)

lemma after_marginTop_keeps:
  "paper (after_marginTop s mt) = paper s" "history (after_marginTop s mt) = history s"
  "console (after_marginTop s mt) = console s"
  by (simp_all add: after_marginTop_def moveY_history)

lemma isNaN_jadd_Num: "isNaN (jadd c (Num a)) = isNaN c"
  by (cases c) simp_all

text \<open>
  Claim C4. \<^verbatim>\<open>outputTextIf\<close> on a missing or empty string returns (0, 0) and leaves the
  renderer, hence the cursor, as it is. On a non-empty string it first advances the cursor by
  the top margin when that is truthy; it then hands the drawing surface the text, with
  \<^verbatim>\<open>y\<close> set 7 below the cursor reached and \<^verbatim>\<open>x\<close> as given, or, for a font with the box style,
  a group holding the text 2 to the right and 11 below and a frame rectangle at the cursor;
  it returns the extent that the surface measures for the string, with \<^verbatim>\<open>NaN\<close> replaced by 0
  and, for a boxed font, 8 added twice. When the bottom margin is \<^verbatim>\<open>null\<close>, or the surface
  measures the height \<^verbatim>\<open>NaN\<close>, the cursor stays where the top margin left it; otherwise it
  advances by (height / lineCount) * (lineCount + marginBottom), where height is the height
  returned (the measured height, plus 16 for a boxed font) and lineCount the number of
  newline-separated lines.
\<close>

theorem outputTextIf_cursor:
  assumes "s1 = after_marginTop self marginTop"
    and "bx = font_box (fst (getFontAndAttr self kind klass))"
    and "a0 = snd (getFontAndAttr self kind klass)"
    and "measuredWidth = fst (paper_getTextSize E str a0)"
    and "measuredHeight = snd (paper_getTextSize E str a0)"
    and "width = (if isNaN measuredWidth then (if bx then Num 8 else Num 0)
                  else if bx then jadd (jadd measuredWidth (Num 8)) (Num 8) else measuredWidth)"
    and "height = (if isNaN measuredHeight then (if bx then Num 8 else Num 0)
                   else if bx then jadd (jadd measuredHeight (Num 8)) (Num 8) else measuredHeight)"
    and "lineCount = Num (real (split_newline_length str))"
    and "shown = nbsp_before_leading_newline (blank_between_newlines str)"
    and "ta = renderText_attr a0 bx x (this_y s1) kind alignment noClass"
    and "frame = PaperRect (jsub x (Num 2)) (this_y s1)
                   (jsub (jadd (fst (paper_getTextSize E shown a0)) (Num 8)) (Num 2))
                   (jsub (jadd (snd (paper_getTextSize E shown a0)) (Num 8)) (Num 8))"
    and "r = outputTextIf E self x (Some str) kind klass marginTop marginBottom alignment noClass"
  shows
   "outputTextIf E self x None kind klass marginTop marginBottom alignment noClass = ((Num 0, Num 0, None), self)
    \<and> outputTextIf E self x (Some []) kind klass marginTop marginBottom alignment noClass = ((Num 0, Num 0, None), self)
    \<and> (str \<noteq> [] \<longrightarrow>
         this_y s1 = (if truthy marginTop then jadd (this_y self) marginTop else this_y self)
       \<and> fst r = (width, height, Some (if bx then PaperCloseGroup else PaperText shown ta))
       \<and> paper (snd r) = paper self @
            (if bx then [PaperOpenGroup (Some klass), PaperText shown ta, frame, PaperCloseGroup]
             else [PaperText shown ta])
       \<and> attr_x ta = Some (if bx then jadd x (Num 2) else x)
       \<and> attr_y ta = Some (if bx then jadd (jadd (this_y s1) (Num 7)) (Num 4) else jadd (this_y s1) (Num 7))
       \<and> attr_text_anchor ta = (if alignment \<noteq> [] then Some alignment else None)
       \<and> attr_class ta = (if bx \<or> noClass then None else Some klass)
       \<and> this_y (snd r) =
           (case marginBottom of
              None \<Rightarrow> this_y s1
            | Some b \<Rightarrow> if isNaN measuredHeight then this_y s1
                        else jadd (this_y s1) (jmul (jdiv height lineCount) (jadd lineCount b))))"
proof -
  have falsy: "outputTextIf E self x None kind klass marginTop marginBottom alignment noClass = ((Num 0, Num 0, None), self)"
    "outputTextIf E self x (Some []) kind klass marginTop marginBottom alignment noClass = ((Num 0, Num 0, None), self)"
    by (simp_all add: outputTextIf_falsy)
  have y1: "this_y s1 = (if truthy marginTop then jadd (this_y self) marginTop else this_y self)"
    by (simp add: assms(1) after_marginTop_def moveY_y)
  have a1: "getFontAndAttr s1 kind klass = getFontAndAttr self kind klass"
    by (rule getFontAndAttr_abctune) (simp add: assms(1))
  note at = renderText_attr_fields [OF assms(10)]
  have a0c: "attr_class a0 = Some klass" "attr_text_anchor a0 = None"
    by (simp_all add: assms(3) getFontAndAttr_def Let_def)
  have rest: "fst r = (width, height, Some (if bx then PaperCloseGroup else PaperText shown ta))
       \<and> paper (snd r) = paper self @
            (if bx then [PaperOpenGroup (Some klass), PaperText shown ta, frame, PaperCloseGroup]
             else [PaperText shown ta])
       \<and> this_y (snd r) =
           (case marginBottom of
              None \<Rightarrow> this_y s1
            | Some b \<Rightarrow> if isNaN measuredHeight then this_y s1
                        else jadd (this_y s1) (jmul (jdiv height lineCount) (jadd lineCount b)))"
    if ne: "str \<noteq> []"
  proof -
    define drawn where "drawn = renderText E s1 x (this_y s1) str kind klass alignment noClass None"
    note d = renderText_emits [where E = E and s = s1 and type = kind and klass = klass and t = str
        and x = x and ?y0.0 = "this_y s1" and anchr = alignment and nc = noClass,
        unfolded a1, OF assms(2) assms(3) assms(9) refl assms(11) drawn_def, folded assms(10)]
    have bb: "getTextSize E self str kind klass =
        (if bx then (jadd measuredWidth (Num 8), jadd measuredHeight (Num 8))
         else (measuredWidth, measuredHeight))"
      by (simp add: getTextSize_def case_prod_beta assms(2-5))
    have yd: "this_y (snd drawn) = this_y s1" by (simp add: drawn_def)
    have r: "r = (let bb = getTextSize E self str kind klass;
          w = (if bx then jadd (if isNaN (fst bb) then Num 0 else fst bb) (Num 8)
                   else (if isNaN (fst bb) then Num 0 else fst bb));
          h = (if bx then jadd (if isNaN (snd bb) then Num 0 else snd bb) (Num 8)
                   else (if isNaN (snd bb) then Num 0 else snd bb))
      in ((w, h, Some (fst drawn)),
          (case marginBottom of None \<Rightarrow> snd drawn
           | Some b \<Rightarrow> if \<not> isNaN (snd bb) then moveY (snd drawn) (jdiv h lineCount) (Some (jadd lineCount b))
                       else snd drawn)))"
      unfolding assms(12) outputTextIf_truthy [OF ne] drawn_def assms(1) assms(2) assms(8) Let_def
      by (rule refl)
    have w: "(if bx then jadd (if isNaN (fst (getTextSize E self str kind klass)) then Num 0
                              else fst (getTextSize E self str kind klass)) (Num 8)
              else (if isNaN (fst (getTextSize E self str kind klass)) then Num 0
                    else fst (getTextSize E self str kind klass))) = width"
      unfolding bb assms(6) by (simp add: isNaN_jadd_Num)
    have h: "(if bx then jadd (if isNaN (snd (getTextSize E self str kind klass)) then Num 0
                              else snd (getTextSize E self str kind klass)) (Num 8)
              else (if isNaN (snd (getTextSize E self str kind klass)) then Num 0
                    else snd (getTextSize E self str kind klass))) = height"
      unfolding bb assms(7) by (simp add: isNaN_jadd_Num)
    have n: "isNaN (snd (getTextSize E self str kind klass)) = isNaN measuredHeight"
      unfolding bb by (simp add: isNaN_jadd_Num)
    have r2: "r = ((width, height, Some (fst drawn)),
          (case marginBottom of None \<Rightarrow> snd drawn
           | Some b \<Rightarrow> if \<not> isNaN measuredHeight then moveY (snd drawn) (jdiv height lineCount) (Some (jadd lineCount b))
                       else snd drawn))"
      unfolding r Let_def w h unfolding n by (rule refl)
    show ?thesis
      unfolding r2 by (simp add: d(1,2) yd moveY_y assms(1) after_marginTop_keeps split: option.splits)
  qed
  show ?thesis using falsy y1 rest at(1,2,4,5) a0c by simp
qed

text \<open>
  A three-line string with top margin 5 and bottom margin 1, measured 30 high, from the cursor
  0: the text is drawn with \<^verbatim>\<open>y\<close> = 12, and the cursor ends at 5 + (30 / 3) * (3 + 1).
\<close>

theorem outputTextIf_cursor_witness:
  "three_lines \<noteq> []
   \<and> split_newline_length three_lines = 3
   \<and> snd (paper_getTextSize example_extern three_lines
        (snd (getFontAndAttr (new_renderer plain_tune) (FontKey ''textfont'') ''defined-text''))) = Num 30
   \<and> \<not> font_box (fst (getFontAndAttr (new_renderer plain_tune) (FontKey ''textfont'') ''defined-text''))
   \<and> this_y (new_renderer plain_tune) = Num 0
   \<and> fst (snd (fst (outputTextIf example_extern (new_renderer plain_tune) (Num 15) (Some three_lines)
        (FontKey ''textfont'') ''defined-text'' (Num 5) (Some (Num 1)) ''start'' False))) = Num 30
   \<and> this_y (snd (outputTextIf example_extern (new_renderer plain_tune) (Num 15) (Some three_lines)
        (FontKey ''textfont'') ''defined-text'' (Num 5) (Some (Num 1)) ''start'' False))
      = jadd (Num 5) (jmul (jdiv (Num 30) (Num 3)) (jadd (Num 3) (Num 1)))
   \<and> paper (snd (outputTextIf example_extern (new_renderer plain_tune) (Num 15) (Some three_lines)
        (FontKey ''textfont'') ''defined-text'' (Num 5) (Some (Num 1)) ''start'' False))
      = [PaperText three_lines
           \<lparr>attr_font_size = Num 16, attr_font_style = ''normal'', attr_font_family = ''Arial'',
            attr_font_weight = ''normal'', attr_text_decoration = ''underline'',
            attr_class = Some ''defined-text'', attr_text_anchor = Some ''start'',
            attr_x = Some (Num 15), attr_y = Some (Num 12), attr_dy = Some ''0.5em'',
            attr_stroke = None\<rparr>]"
proof -
  have ne: "three_lines \<noteq> []" by (simp add: three_lines_def)
  have n: "split_newline_length three_lines = 3" by (simp add: three_lines_def split_newline_length_def)
  have f: "getFontAndAttr (new_renderer plain_tune) (FontKey ''textfont'') ''defined-text'' =
     (fallback_font,
      \<lparr>attr_font_size = Num 16, attr_font_style = ''normal'', attr_font_family = ''Arial'',
       attr_font_weight = ''normal'', attr_text_decoration = ''underline'',
       attr_class = Some ''defined-text'', attr_text_anchor = None, attr_x = None, attr_y = None,
       attr_dy = None, attr_stroke = None\<rparr>)"
    by (simp add: getFontAndAttr_def new_renderer_def plain_tune_def fallback_font_def)
  have b: "\<not> font_box fallback_font" by (simp add: fallback_font_def)
  have m: "paper_getTextSize example_extern t a = (Num 60, Num 30)" for t a
    by (simp add: example_extern_def)
  have y: "this_y (new_renderer plain_tune) = Num 0" "paper (new_renderer plain_tune) = []"
    by (simp_all add: new_renderer_def)
  have y1: "this_y (after_marginTop (new_renderer plain_tune) (Num 5)) = Num 5"
    by (simp add: after_marginTop_def moveY_y y)
  have sh: "nbsp_before_leading_newline (blank_between_newlines three_lines) = three_lines"
    by (simp add: three_lines_def)
  have ta: "renderText_attr
       \<lparr>attr_font_size = Num 16, attr_font_style = ''normal'', attr_font_family = ''Arial'',
        attr_font_weight = ''normal'', attr_text_decoration = ''underline'',
        attr_class = Some ''defined-text'', attr_text_anchor = None, attr_x = None, attr_y = None,
        attr_dy = None, attr_stroke = None\<rparr> False (Num 15) (Num 5) (FontKey ''textfont'') ''start'' False
      = \<lparr>attr_font_size = Num 16, attr_font_style = ''normal'', attr_font_family = ''Arial'',
            attr_font_weight = ''normal'', attr_text_decoration = ''underline'',
            attr_class = Some ''defined-text'', attr_text_anchor = Some ''start'',
            attr_x = Some (Num 15), attr_y = Some (Num 12), attr_dy = Some ''0.5em'',
            attr_stroke = None\<rparr>"
    by (simp add: renderText_attr_def Let_def)
  show ?thesis
    using outputTextIf_cursor [where str = three_lines and E = example_extern
        and self = "new_renderer plain_tune" and x = "Num 15" and kind = "FontKey ''textfont''"
        and klass = "''defined-text''" and marginTop = "Num 5" and marginBottom = "Some (Num 1)"
        and alignment = "''start''" and noClass = False,
        OF refl refl refl refl refl refl refl refl refl refl refl refl]
      ne
    unfolding f fst_conv snd_conv m y1 sh n
    by (simp add: b y ta)
qed

text \<open>
  Claim C4 as stated has the cursor advance by (measuredHeight / lineCount) * (lineCount +
  marginBottom). A boxed one-line text that the surface measures 30 high, for which
  \<^verbatim>\<open>getTextSize\<close> returns 38, with the bottom margin 0, moves the cursor from 0 to 46, not to 30
  or 38. A three-line text whose height the surface measures as \<^verbatim>\<open>NaN\<close>, with top margin 5 and
  bottom margin 1, leaves the cursor at 5, where the formula gives \<^verbatim>\<open>NaN\<close>.
\<close>

theorem outputTextIf_boxed_advance_counterexample:
  "font_box (fst (getFontAndAttr (new_renderer boxed_tune) (FontKey ''textfont'') ''defined-text''))
   \<and> snd (paper_getTextSize example_extern ''Fine''
        (snd (getFontAndAttr (new_renderer boxed_tune) (FontKey ''textfont'') ''defined-text''))) = Num 30
   \<and> snd (getTextSize example_extern (new_renderer boxed_tune) ''Fine'' (FontKey ''textfont'') ''defined-text'') = Num 38
   \<and> split_newline_length ''Fine'' = 1
   \<and> this_y (new_renderer boxed_tune) = Num 0
   \<and> this_y (snd (outputTextIf example_extern (new_renderer boxed_tune) (Num 15) (Some ''Fine'')
        (FontKey ''textfont'') ''defined-text'' (Num 0) (Some (Num 0)) ''start'' False)) = Num 46
   \<and> jadd (Num 0) (jmul (jdiv (Num 30) (Num 1)) (jadd (Num 1) (Num 0))) = Num 30
   \<and> jadd (Num 0) (jmul (jdiv (Num 38) (Num 1)) (jadd (Num 1) (Num 0))) = Num 38
   \<and> snd (getTextSize nan_extern (new_renderer plain_tune) three_lines (FontKey ''textfont'') ''defined-text'') = NaN
   \<and> split_newline_length three_lines = 3
   \<and> this_y (snd (outputTextIf nan_extern (new_renderer plain_tune) (Num 15) (Some three_lines)
        (FontKey ''textfont'') ''defined-text'' (Num 5) (Some (Num 1)) ''start'' False)) = Num 5
   \<and> jadd (Num 5) (jmul (jdiv NaN (Num 3)) (jadd (Num 3) (Num 1))) = NaN"
proof -
  have b: "font_box (fst (getFontAndAttr (new_renderer boxed_tune) (FontKey ''textfont'') ''defined-text''))"
    by (simp add: boxed_font)
  have m: "paper_getTextSize example_extern t a = (Num 60, Num 30)" for t a
    by (simp add: example_extern_def)
  have g: "getTextSize example_extern (new_renderer boxed_tune) ''Fine'' (FontKey ''textfont'') ''defined-text''
      = (Num 68, Num 38)"
    using b by (simp add: getTextSize_def case_prod_beta m)
  have n1: "split_newline_length ''Fine'' = 1" by (simp add: split_newline_length_def)
  have y0: "this_y (new_renderer boxed_tune) = Num 0" by (simp add: new_renderer_def)
  have c1: "this_y (snd (outputTextIf example_extern (new_renderer boxed_tune) (Num 15) (Some ''Fine'')
        (FontKey ''textfont'') ''defined-text'' (Num 0) (Some (Num 0)) ''start'' False)) = Num 46"
    unfolding outputTextIf_truthy [of "''Fine''", simplified] g n1 Let_def
    using b by (simp add: moveY_y after_marginTop_def y0)
  have f: "\<not> font_box (fst (getFontAndAttr (new_renderer plain_tune) (FontKey ''textfont'') ''defined-text''))"
    by (simp add: getFontAndAttr_def new_renderer_def plain_tune_def fallback_font_def)
  have gn: "getTextSize nan_extern (new_renderer plain_tune) three_lines (FontKey ''textfont'') ''defined-text''
      = (NaN, NaN)"
    using f by (simp add: getTextSize_def case_prod_beta nan_extern_def)
  have ne: "three_lines \<noteq> []" by (simp add: three_lines_def)
  have n3: "split_newline_length three_lines = 3" by (simp add: three_lines_def split_newline_length_def)
  have c2: "this_y (snd (outputTextIf nan_extern (new_renderer plain_tune) (Num 15) (Some three_lines)
        (FontKey ''textfont'') ''defined-text'' (Num 5) (Some (Num 1)) ''start'' False)) = Num 5"
    unfolding outputTextIf_truthy [OF ne] gn n3 Let_def
    by (simp add: moveY_y after_marginTop_def new_renderer_def)
  show ?thesis
    using b c1 c2 n1 n3 y0 by (simp add: m g gn)
qed



section \<open>Slur and tie geometry\<close>

lemma NaN_absorbs [simp]:
  "jadd a NaN = NaN" "jadd NaN a = NaN" "jmul a NaN = NaN" "jmul NaN a = NaN"
  "jdiv a NaN = NaN" "jdiv NaN a = NaN" "jsub a NaN = NaN" "jsub NaN a = NaN"
  by (cases a; simp add: jsub_def)+

lemma jsub_Num [simp]: "jsub (Num a) (Num b) = Num (a - b)"
  by (simp add: jsub_def)

lemma Math_min_Num [simp]: "Math_min (Num a) (Num b) = Num (min a b)"
  by (simp add: Math_min_def min_def)

lemma Math_max_Num [simp]: "Math_max (Num a) (Num b) = Num (max a b)"
  by (simp add: Math_max_def max_def)

lemma Math_sqrt_squares: "Math_sqrt (Num (a * a + b * b)) = Num (sqrt (a * a + b * b))"
  by (simp add: not_less)

lemma calcY_Num: "STEP E = Num st \<Longrightarrow> this_y self = Num y \<Longrightarrow> calcY E self (Num p) = Num (y - p * st)"
  by (simp add: calcY_def)

lemma arc_locals_fields:
  assumes "a = arc_locals E self x1 x2 pitch1 pitch2 isAbove isTie"
  shows "arc_x1 a = jadd x1 (Num 6)"
    and "arc_x2 a = jadd x2 (Num 4)"
    and "arc_y1 a = calcY E self (jadd pitch1 (if isAbove then (if isTie then Num (12 / 10) else Num (15 / 10))
                                               else jneg (if isTie then Num (12 / 10) else Num (15 / 10))))"
    and "arc_y2 a = calcY E self (jadd pitch2 (if isAbove then (if isTie then Num (12 / 10) else Num (15 / 10))
                                               else jneg (if isTie then Num (12 / 10) else Num (15 / 10))))"
    and "arc_norm a = Math_sqrt (jadd (jmul (jsub (arc_x2 a) (arc_x1 a)) (jsub (arc_x2 a) (arc_x1 a)))
                                      (jmul (jsub (arc_y2 a) (arc_y1 a)) (jsub (arc_y2 a) (arc_y1 a))))"
    and "arc_ux a = jdiv (jsub (arc_x2 a) (arc_x1 a)) (arc_norm a)"
    and "arc_uy a = jdiv (jsub (arc_y2 a) (arc_y1 a)) (arc_norm a)"
    and "arc_flatten a = jdiv (arc_norm a) (Num (35 / 10))"
    and "arc_curve a = jmul (if isAbove then Num (- 1) else Num 1)
                            (Math_min (if isTie then Num 10 else Num 25) (Math_max (Num 4) (arc_flatten a)))"
    and "controlx1 a = jsub (jadd (arc_x1 a) (jmul (arc_flatten a) (arc_ux a))) (jmul (arc_curve a) (arc_uy a))"
    and "controly1 a = jadd (jadd (arc_y1 a) (jmul (arc_flatten a) (arc_uy a))) (jmul (arc_curve a) (arc_ux a))"
    and "controlx2 a = jsub (jsub (arc_x2 a) (jmul (arc_flatten a) (arc_ux a))) (jmul (arc_curve a) (arc_uy a))"
    and "controly2 a = jadd (jsub (arc_y2 a) (jmul (arc_flatten a) (arc_uy a))) (jmul (arc_curve a) (arc_ux a))"
  unfolding assms arc_locals_def Let_def
  by (simp_all only: arc.select_convs)

lemma offset_pitch_Num:
  "jadd (Num p) (if isAbove then (if isTie then Num a else Num b) else jneg (if isTie then Num a else Num b))
     = Num (if isAbove then p + (if isTie then a else b) else p - (if isTie then a else b))"
  by simp

lemma distance_Num:
  "Math_sqrt (jadd (jmul (jsub (Num a) (Num b)) (jsub (Num a) (Num b)))
                   (jmul (jsub (Num c) (Num d)) (jsub (Num c) (Num d))))
     = Num (sqrt ((a - b)\<^sup>2 + (c - d)\<^sup>2))"
  by (simp add: power2_eq_square not_less)

lemma clamp_Num:
  "jmul (if isAbove then Num (- 1) else Num 1)
        (Math_min (if isTie then Num 10 else Num 25) (Math_max (Num 4) (Num f)))
     = Num ((if isAbove then - 1 else 1) * min (if isTie then 10 else 25) (max 4 f))"
  by simp

lemma drawArc_emits:
  "drawArc E self x1 x2 pitch1 pitch2 isAbove klass isTie =
     (PaperPath (arc_path (arc_locals E self x1 x2 pitch1 pitch2 isAbove isTie)) ''none'' ''#000000''
        (Some (if str_truthy klass then the klass @ '' slur'' else ''slur'')),
      self\<lparr>paper := paper self @
               [PaperPath (arc_path (arc_locals E self x1 x2 pitch1 pitch2 isAbove isTie)) ''none'' ''#000000''
                  (Some (if str_truthy klass then the klass @ '' slur'' else ''slur''))],
            history := history self @
               [(Some (PaperPath (arc_path (arc_locals E self x1 x2 pitch1 pitch2 isAbove isTie)) ''none''
                   ''#000000'' (Some (if str_truthy klass then the klass @ '' slur'' else ''slur''))), False)]\<rparr>)"
  by (simp add: drawArc_def Let_def recordHistory_def)

lemma arc_locals_numeric:
  assumes "STEP E = Num st" and "this_y self = Num y"
    and "a = arc_locals E self (Num x1) (Num x2) (Num p1) (Num p2) isAbove isTie"
    and "q1 = (if isAbove then p1 + (if isTie then 12 / 10 else 15 / 10)
               else p1 - (if isTie then 12 / 10 else 15 / 10))"
    and "q2 = (if isAbove then p2 + (if isTie then 12 / 10 else 15 / 10)
               else p2 - (if isTie then 12 / 10 else 15 / 10))"
    and "nrm = sqrt (((x2 + 4) - (x1 + 6))\<^sup>2 + ((y - q2 * st) - (y - q1 * st))\<^sup>2)"
    and "flatten = nrm / (35 / 10)"
  shows "arc_x1 a = Num (x1 + 6) \<and> arc_x2 a = Num (x2 + 4)
       \<and> arc_y1 a = calcY E self (Num q1) \<and> arc_y2 a = calcY E self (Num q2)
       \<and> arc_y1 a = Num (y - q1 * st) \<and> arc_y2 a = Num (y - q2 * st)
       \<and> arc_norm a = Num nrm
       \<and> arc_flatten a = Num flatten
       \<and> arc_curve a = Num ((if isAbove then - 1 else 1) * min (if isTie then 10 else 25) (max 4 flatten))
       \<and> fst (drawArc E self (Num x1) (Num x2) (Num p1) (Num p2) isAbove klass isTie)
           = PaperPath (arc_path a) ''none'' ''#000000''
               (Some (if str_truthy klass then the klass @ '' slur'' else ''slur''))"
proof -
  note f = arc_locals_fields [OF assms(3)]
  have x: "arc_x1 a = Num (x1 + 6)" "arc_x2 a = Num (x2 + 4)"
    by (simp_all add: f(1,2))
  have yc: "arc_y1 a = calcY E self (Num q1)" "arc_y2 a = calcY E self (Num q2)"
    unfolding f(3,4) offset_pitch_Num assms(4,5) by (rule refl)+
  have yn: "arc_y1 a = Num (y - q1 * st)" "arc_y2 a = Num (y - q2 * st)"
    unfolding yc by (rule calcY_Num [OF assms(1,2)])+
  have n: "arc_norm a = Num nrm"
    unfolding f(5) x yn distance_Num assms(6) by (rule refl)
  have fl: "arc_flatten a = Num flatten"
    unfolding f(8) n assms(7) by simp
  have c: "arc_curve a = Num ((if isAbove then - 1 else 1) * min (if isTie then 10 else 25) (max 4 flatten))"
    unfolding f(9) fl by (rule clamp_Num)
  have d: "fst (drawArc E self (Num x1) (Num x2) (Num p1) (Num p2) isAbove klass isTie)
           = PaperPath (arc_path a) ''none'' ''#000000''
               (Some (if str_truthy klass then the klass @ '' slur'' else ''slur''))"
    unfolding assms(3) drawArc_emits by simp
  show ?thesis using x yc yn n fl c d by blast
qed

text \<open>
  Claim C3. For numbers \<open>x1\<close>, \<open>x2\<close>, \<open>p1\<close>, \<open>p2\<close>, a cursor at the number \<open>y\<close> and the
  step \<open>st\<close>, \<^verbatim>\<open>drawArc\<close> moves the ends to x1 + 6 and x2 + 4, offsets each pitch by 1.2
  (tie) or 1.5 (slur), added when the arc is above and subtracted otherwise, and maps the
  offset pitches through \<^verbatim>\<open>calcY\<close>; its \<^verbatim>\<open>norm\<close> is the euclidean distance of the
  adjusted ends, \<^verbatim>\<open>flatten\<close> is norm / 3.5 and \<^verbatim>\<open>curve\<close> is min(maxFlatten, max(4,
  flatten)) with maxFlatten 10 for a tie and 25 for a slur, negated when the arc is above. The
  path it emits is built from these values.
\<close>

theorem drawArc_geometry:
  assumes "STEP E = Num st" and "this_y self = Num y"
    and "a = arc_locals E self (Num x1) (Num x2) (Num p1) (Num p2) isAbove isTie"
    and "q1 = (if isAbove then p1 + (if isTie then 12 / 10 else 15 / 10)
               else p1 - (if isTie then 12 / 10 else 15 / 10))"
    and "q2 = (if isAbove then p2 + (if isTie then 12 / 10 else 15 / 10)
               else p2 - (if isTie then 12 / 10 else 15 / 10))"
    and "nrm = sqrt (((x2 + 4) - (x1 + 6))\<^sup>2 + ((y - q2 * st) - (y - q1 * st))\<^sup>2)"
    and "flatten = nrm / (35 / 10)"
  shows "arc_x1 a = Num (x1 + 6) \<and> arc_x2 a = Num (x2 + 4)
       \<and> arc_y1 a = calcY E self (Num q1) \<and> arc_y2 a = calcY E self (Num q2)
       \<and> arc_y1 a = Num (y - q1 * st) \<and> arc_y2 a = Num (y - q2 * st)
       \<and> arc_norm a = Num nrm
       \<and> arc_flatten a = Num flatten
       \<and> arc_curve a = Num ((if isAbove then - 1 else 1) * min (if isTie then 10 else 25) (max 4 flatten))
       \<and> fst (drawArc E self (Num x1) (Num x2) (Num p1) (Num p2) isAbove klass isTie)
           = PaperPath (arc_path a) ''none'' ''#000000''
               (Some (if str_truthy klass then the klass @ '' slur'' else ''slur''))"
  using assms by (rule arc_locals_numeric)

lemma sqrt_11025: "sqrt 11025 = (105::real)"
  by (rule real_sqrt_unique) simp_all

text \<open>
  The slur from 0 to 107: the ends move to 6 and 111, the distance is 105, \<^verbatim>\<open>flatten\<close> is
  30 and \<^verbatim>\<open>curve\<close> is clamped to 25 and negated.
\<close>

theorem drawArc_geometry_witness:
  "STEP example_extern = Num (155 / 100) \<and> this_y (new_renderer plain_tune) = Num 0
   \<and> arc_x1 example_arc = Num 6 \<and> arc_x2 example_arc = Num 111
   \<and> arc_norm example_arc = Num 105
   \<and> arc_flatten example_arc = Num 30
   \<and> arc_curve example_arc = Num (- 25)"
proof -
  have s: "STEP example_extern = Num (155 / 100)" by (simp add: example_extern_def)
  have y: "this_y (new_renderer plain_tune) = Num 0" by (simp add: new_renderer_def)
  show ?thesis
    using drawArc_geometry [OF s y example_arc_def refl refl refl refl, of None] s y
    by (simp add: sqrt_11025)
qed

lemma Math_NaN:
  "Math_sqrt NaN = NaN" "Math_min a NaN = NaN" "Math_min NaN a = NaN"
  "Math_max a NaN = NaN" "Math_max NaN a = NaN"
  by (simp_all add: Math_min_def Math_max_def)

lemma equal_difference: "jsub a a = Num 0 \<or> jsub a a = NaN"
  by (cases a) (simp_all add: jsub_def)

lemma zero_distance:
  assumes "d1 = Num 0 \<or> d1 = NaN" and "d2 = Num 0 \<or> d2 = NaN"
    and "n = Math_sqrt (jadd (jmul d1 d1) (jmul d2 d2))"
  shows "(n = Num 0 \<or> n = NaN) \<and> jdiv d1 n = NaN \<and> jdiv d2 n = NaN"
  using assms(1,2) unfolding assms(3) by (auto simp add: inf_of_sign_def)

lemma arc_locals_coincide:
  assumes "a = arc_locals E self x1 x2 pitch1 pitch2 isAbove isTie"
    and "arc_x2 a = arc_x1 a" and "arc_y2 a = arc_y1 a"
  shows "(arc_norm a = Num 0 \<or> arc_norm a = NaN) \<and> arc_ux a = NaN \<and> arc_uy a = NaN
       \<and> controlx1 a = NaN \<and> controly1 a = NaN \<and> controlx2 a = NaN \<and> controly2 a = NaN"
proof -
  note f = arc_locals_fields [OF assms(1)]
  have z: "(arc_norm a = Num 0 \<or> arc_norm a = NaN) \<and> arc_ux a = NaN \<and> arc_uy a = NaN"
    unfolding f(6,7)
    by (rule zero_distance [OF _ _ f(5)]) (simp_all add: assms(2,3) equal_difference)
  then show ?thesis
    unfolding f(10-13) by simp
qed

lemma arc_locals_NaN_pitch:
  assumes "a = arc_locals E self x1 x2 pitch1 pitch2 isAbove isTie"
    and "pitch1 = NaN \<or> pitch2 = NaN"
  shows "controlx1 a = NaN \<and> controly1 a = NaN \<and> controlx2 a = NaN \<and> controly2 a = NaN"
proof -
  note f = arc_locals_fields [OF assms(1)]
  have y: "arc_y1 a = NaN \<or> arc_y2 a = NaN"
    using assms(2) unfolding f(3,4) by (auto simp add: calcY_def)
  then have d: "jsub (arc_y2 a) (arc_y1 a) = NaN" by auto
  have n: "arc_norm a = NaN" unfolding f(5) d by (simp add: Math_NaN)
  have u: "arc_ux a = NaN" "arc_uy a = NaN" unfolding f(6,7) n by simp_all
  show ?thesis unfolding f(10-13) u by simp
qed

text \<open>
  Claim C10. \<^verbatim>\<open>drawArc\<close> divides by the distance of the adjusted ends \<^verbatim>\<open>x1 + 6\<close>, \<^verbatim>\<open>x2 + 4\<close>,
  \<^verbatim>\<open>calcY(pitch1 +/- spacing)\<close>, \<^verbatim>\<open>calcY(pitch2 +/- spacing)\<close> whatever that distance is, for all
  arguments. When the computed ends coincide, the distance is 0 (or \<^verbatim>\<open>NaN\<close>), the division makes
  the four control coordinates \<^verbatim>\<open>NaN\<close>, and \<^verbatim>\<open>drawArc\<close> hands the surface exactly the path
  \<^verbatim>\<open>M x1 y1 C NaN NaN NaN NaN x2 y2 C NaN NaN NaN NaN x1 y1 z\<close>, unfilled, and records it. A pitch
  that is \<^verbatim>\<open>NaN\<close> makes the four control coordinates \<^verbatim>\<open>NaN\<close> as well, whatever the ends are.
\<close>

theorem drawArc_unguarded_division:
  assumes "a = arc_locals E self x1 x2 pitch1 pitch2 isAbove isTie"
    and "emitted = PaperPath
            [(''M'', [arc_x1 a, arc_y1 a]),
             (''C'', [NaN, NaN, NaN, NaN, arc_x2 a, arc_y2 a]),
             (''C'', [NaN, NaN, NaN, NaN, arc_x1 a, arc_y1 a]),
             (''z'', [])]
            ''none'' ''#000000'' (Some (if str_truthy klass then the klass @ '' slur'' else ''slur''))"
  shows "arc_x1 a = jadd x1 (Num 6) \<and> arc_x2 a = jadd x2 (Num 4)
       \<and> arc_ux a = jdiv (jsub (arc_x2 a) (arc_x1 a)) (arc_norm a)
       \<and> arc_uy a = jdiv (jsub (arc_y2 a) (arc_y1 a)) (arc_norm a)
       \<and> (arc_x2 a = arc_x1 a \<and> arc_y2 a = arc_y1 a \<longrightarrow>
            (arc_norm a = Num 0 \<or> arc_norm a = NaN)
          \<and> controlx1 a = NaN \<and> controly1 a = NaN \<and> controlx2 a = NaN \<and> controly2 a = NaN
          \<and> drawArc E self x1 x2 pitch1 pitch2 isAbove klass isTie =
               (emitted, self\<lparr>paper := paper self @ [emitted],
                             history := history self @ [(Some emitted, False)]\<rparr>))
       \<and> (pitch1 = NaN \<or> pitch2 = NaN \<longrightarrow>
            controlx1 a = NaN \<and> controly1 a = NaN \<and> controlx2 a = NaN \<and> controly2 a = NaN)"
proof -
  note f = arc_locals_fields [OF assms(1)]
  have deg: "(arc_norm a = Num 0 \<or> arc_norm a = NaN)
          \<and> controlx1 a = NaN \<and> controly1 a = NaN \<and> controlx2 a = NaN \<and> controly2 a = NaN
          \<and> drawArc E self x1 x2 pitch1 pitch2 isAbove klass isTie =
               (emitted, self\<lparr>paper := paper self @ [emitted],
                             history := history self @ [(Some emitted, False)]\<rparr>)"
    if c: "arc_x2 a = arc_x1 a \<and> arc_y2 a = arc_y1 a"
  proof -
    from arc_locals_coincide [OF assms(1)] c
    have n: "(arc_norm a = Num 0 \<or> arc_norm a = NaN) \<and> arc_ux a = NaN \<and> arc_uy a = NaN
       \<and> controlx1 a = NaN \<and> controly1 a = NaN \<and> controlx2 a = NaN \<and> controly2 a = NaN"
      by blast
    then have p: "arc_path a =
            [(''M'', [arc_x1 a, arc_y1 a]),
             (''C'', [NaN, NaN, NaN, NaN, arc_x2 a, arc_y2 a]),
             (''C'', [NaN, NaN, NaN, NaN, arc_x1 a, arc_y1 a]),
             (''z'', [])]"
      by (simp add: arc_path_def Let_def)
    have "drawArc E self x1 x2 pitch1 pitch2 isAbove klass isTie =
               (emitted, self\<lparr>paper := paper self @ [emitted],
                             history := history self @ [(Some emitted, False)]\<rparr>)"
      using p by (simp add: drawArc_emits assms(1) [symmetric] assms(2))
    with n show ?thesis by blast
  qed
  show ?thesis
    using f(1,2,6,7) deg arc_locals_NaN_pitch [OF assms(1)] by blast
qed

text \<open>The slur from 10 to 12 between equal pitches: both adjusted ends are (16, -8.525).\<close>

theorem drawArc_unguarded_division_witness:
  "arc_x2 degenerate_arc = arc_x1 degenerate_arc \<and> arc_y2 degenerate_arc = arc_y1 degenerate_arc
   \<and> arc_x1 degenerate_arc = Num 16 \<and> arc_y1 degenerate_arc = Num (- (55 / 10 * (155 / 100)))
   \<and> arc_norm degenerate_arc = Num 0
   \<and> controlx1 degenerate_arc = NaN \<and> controly1 degenerate_arc = NaN
   \<and> controlx2 degenerate_arc = NaN \<and> controly2 degenerate_arc = NaN
   \<and> paper (snd (drawArc example_extern (new_renderer plain_tune) (Num 10) (Num 12) (Num 4) (Num 4) True None False))
       = [PaperPath
            [(''M'', [Num 16, Num (- (55 / 10 * (155 / 100)))]),
             (''C'', [NaN, NaN, NaN, NaN, Num 16, Num (- (55 / 10 * (155 / 100)))]),
             (''C'', [NaN, NaN, NaN, NaN, Num 16, Num (- (55 / 10 * (155 / 100)))]),
             (''z'', [])]
            ''none'' ''#000000'' (Some ''slur'')]"
proof -
  note fd = arc_locals_fields [OF degenerate_arc_def]
  have e: "arc_x1 degenerate_arc = Num 16" "arc_x2 degenerate_arc = Num 16"
    "arc_y1 degenerate_arc = Num (- (55 / 10 * (155 / 100)))"
    "arc_y2 degenerate_arc = Num (- (55 / 10 * (155 / 100)))"
    by (simp_all add: fd(1-4) calcY_def example_extern_def new_renderer_def)
  have n: "arc_norm degenerate_arc = Num 0"
    unfolding fd(5) e by simp
  show ?thesis
    using drawArc_unguarded_division [OF degenerate_arc_def refl, of None] e n
    by (simp add: degenerate_arc_def [symmetric] new_renderer_def)
qed

text \<open>
  Claim C10 as stated says that differing adjusted ends give finite control coordinates. A
  slur from 0 to 107 whose first pitch is \<^verbatim>\<open>NaN\<close> has differing adjusted ends and four control
  coordinates that are \<^verbatim>\<open>NaN\<close>; so has a slur from 0 to \<^verbatim>\<open>Infinity\<close> between the pitches 4 and 4.
\<close>

theorem drawArc_differing_ends_counterexample:
  "arc_y2 unset_pitch_arc \<noteq> arc_y1 unset_pitch_arc
   \<and> arc_x2 unset_pitch_arc \<noteq> arc_x1 unset_pitch_arc
   \<and> \<not> isFinite (controlx1 unset_pitch_arc) \<and> \<not> isFinite (controly1 unset_pitch_arc)
   \<and> \<not> isFinite (controlx2 unset_pitch_arc) \<and> \<not> isFinite (controly2 unset_pitch_arc)
   \<and> arc_x2 infinite_arc \<noteq> arc_x1 infinite_arc
   \<and> \<not> isFinite (controlx1 infinite_arc) \<and> \<not> isFinite (controly1 infinite_arc)
   \<and> \<not> isFinite (controlx2 infinite_arc) \<and> \<not> isFinite (controly2 infinite_arc)"
proof -
  note fu = arc_locals_fields [OF unset_pitch_arc_def]
  note fi = arc_locals_fields [OF infinite_arc_def]
  have u: "arc_x1 unset_pitch_arc = Num 6" "arc_x2 unset_pitch_arc = Num 111"
    "arc_y1 unset_pitch_arc = NaN" "arc_y2 unset_pitch_arc = Num (- (55 / 10 * (155 / 100)))"
    by (simp_all add: fu(1-4) calcY_def example_extern_def new_renderer_def)
  have cu: "controlx1 unset_pitch_arc = NaN \<and> controly1 unset_pitch_arc = NaN
         \<and> controlx2 unset_pitch_arc = NaN \<and> controly2 unset_pitch_arc = NaN"
    by (rule arc_locals_NaN_pitch [OF unset_pitch_arc_def]) simp
  have i: "arc_x1 infinite_arc = Num 6" "arc_x2 infinite_arc = PInf"
    "arc_y1 infinite_arc = Num (- (55 / 10 * (155 / 100)))"
    "arc_y2 infinite_arc = Num (- (55 / 10 * (155 / 100)))"
    by (simp_all add: fi(1-4) calcY_def example_extern_def new_renderer_def)
  have ni: "arc_norm infinite_arc = PInf"
    unfolding fi(5) i by (simp add: jsub_def inf_of_sign_def)
  have ui: "arc_ux infinite_arc = NaN" "arc_uy infinite_arc = Num 0"
    unfolding fi(6,7) ni i by (simp_all add: jsub_def)
  have fl: "arc_flatten infinite_arc = PInf" unfolding fi(8) ni by simp
  have cv: "arc_curve infinite_arc = Num (- 25)"
    unfolding fi(9) fl by (simp add: Math_min_def Math_max_def)
  have ci: "controlx1 infinite_arc = NaN \<and> controly1 infinite_arc = NaN
         \<and> controlx2 infinite_arc = NaN \<and> controly2 infinite_arc = NaN"
    unfolding fi(10-13) ui fl cv i by (simp add: jsub_def inf_of_sign_def)
  show ?thesis using u cu i ci by simp
qed

section \<open>Grouped paths\<close>

lemma jadd_assoc: "jadd (jadd a b) c = jadd a (jadd b c)"
  by (cases a; cases b; cases c) simp_all

lemma jadd_zero [simp]: "jadd a (Num 0) = a" "jadd (Num 0) a = a"
  by (cases a; simp)+

lemma vadd_assoc: "vadd (vadd u v) w = vadd u (vadd v w)"
  by (simp add: vadd_def jadd_assoc)

lemma vadd_zero [simp]: "vadd u (Num 0, Num 0) = u" "vadd (Num 0, Num 0) u = u"
  by (simp_all add: vadd_def)

lemma displacement_Cons:
  "displacement (c # cs) = (if fst c = ''m'' then vadd (cmd_x c, cmd_y c) (displacement cs) else displacement cs)"
  by (simp add: vadd_def)

lemma displacement_append: "displacement (xs @ ys) = vadd (displacement xs) (displacement ys)"
  by (induction xs) (simp_all add: displacement_Cons vadd_assoc del: displacement.simps(2))

lemma addPath_loop_eq: "addPath_loop lm acc cs = (vadd lm (displacement cs), acc @ cs)"
proof (induction cs arbitrary: lm acc)
  case Nil
  then show ?case by simp
next
  case (Cons c cs)
  have "(if fst c = ''m'' then (jadd (fst lm) (cmd_x c), jadd (snd lm) (cmd_y c)) else lm)
          = (if fst c = ''m'' then vadd lm (cmd_x c, cmd_y c) else lm)"
    by (simp add: vadd_def)
  then show ?case
    by (simp add: Cons.IH displacement_Cons vadd_assoc del: displacement.simps(2))
qed

lemma addPath_empty: "addPath s None = Inr s" "addPath s (Some []) = Inr s"
  by (simp_all add: addPath_def)

lemma addPath_in_group:
  assumes "lastM s = Some lm" and "this_path s = Some acc"
  shows "addPath s (Some f) =
           Inr (s\<lparr>lastM := Some (vadd lm (displacement (normalize_fragment lm f))),
                  this_path := Some (acc @ normalize_fragment lm f)\<rparr>)"
proof (cases f)
  case Nil
  then show ?thesis using assms by (simp add: addPath_def)
next
  case (Cons c0 cs)
  obtain l0 l1 where lm: "lm = (l0, l1)" by (cases lm)
  show ?thesis
    using assms unfolding Cons lm
    by (simp add: addPath_def Let_def addPath_loop_eq vadd_def jadd_assoc)
qed

lemma endGroup_empty:
  "endGroup (beginGroup self) klass = Inr (None, (beginGroup self)\<lparr>ingroup := False\<rparr>)"
  by (simp add: endGroup_def beginGroup_def)

lemma endGroup_nonempty:
  assumes "this_path s = Some p" and "p \<noteq> []"
  shows "endGroup s klass =
           Inr (Some (PaperPath p ''none'' ''#000000'' (Some klass)),
                s\<lparr>ingroup := False,
                   paper := paper s @ [PaperPath p ''none'' ''#000000'' (Some klass)],
                   history := history s @ [(Some (PaperPath p ''none'' ''#000000'' (Some klass)), False)],
                   this_path := Some []\<rparr>)"
  using assms by (cases p) (simp_all add: endGroup_def Let_def recordHistory_def)

text \<open>
  Claim C5. \<^verbatim>\<open>beginGroup(); endGroup()\<close> returns \<^verbatim>\<open>null\<close> and leaves the drawing surface as
  it was. \<^verbatim>\<open>addPath\<close> with a \<^verbatim>\<open>null\<close> or empty fragment changes nothing. For two
  non-empty fragments, \<^verbatim>\<open>beginGroup(); addPath(f1); addPath(f2); endGroup(klass)\<close> adds
  exactly one path to the drawing surface, made of the commands of both fragments, where the
  leading command of each fragment has become a relative moveto whose coordinates are taken
  relative to the cumulative origin at that moment ((0, 0) for the first fragment, the
  displacement of the first fragment for the second). The displacement of the compound path
  is the sum of the displacements of the two appended fragments, and it is the cumulative
  origin that the renderer holds at the end.
\<close>

theorem path_accumulator:
  assumes "f1 \<noteq> []" and "f2 \<noteq> []"
    and "n1 = normalize_fragment (Num 0, Num 0) f1"
    and "n2 = normalize_fragment (displacement n1) f2"
    and "compound = PaperPath (n1 @ n2) ''none'' ''#000000'' (Some klass)"
  shows "endGroup (beginGroup self) klass = Inr (None, (beginGroup self)\<lparr>ingroup := False\<rparr>)
       \<and> paper ((beginGroup self)\<lparr>ingroup := False\<rparr>) = paper self
       \<and> addPath s None = Inr s \<and> addPath s (Some []) = Inr s
       \<and> group_of_two self f1 f2 klass =
            Inr (Some compound,
                 self\<lparr>lastM := Some (displacement (n1 @ n2)), this_path := Some [], ingroup := False,
                      paper := paper self @ [compound],
                      history := history self @ [(Some compound, False)]\<rparr>)
       \<and> hd n1 = (''m'', jsub (cmd_x (hd f1)) (Num 0) # jsub (cmd_y (hd f1)) (Num 0) # drop 2 (snd (hd f1)))
       \<and> tl n1 = tl f1
       \<and> hd n2 = (''m'', jsub (cmd_x (hd f2)) (fst (displacement n1))
                         # jsub (cmd_y (hd f2)) (snd (displacement n1)) # drop 2 (snd (hd f2)))
       \<and> tl n2 = tl f2
       \<and> displacement (n1 @ n2) = vadd (displacement n1) (displacement n2)"
proof -
  have b: "lastM (beginGroup self) = Some (Num 0, Num 0)" "this_path (beginGroup self) = Some []"
    by (simp_all add: beginGroup_def)
  have a1: "addPath (beginGroup self) (Some f1) =
              Inr ((beginGroup self)\<lparr>lastM := Some (displacement n1), this_path := Some n1\<rparr>)"
    using addPath_in_group [OF b, of f1] by (simp add: assms(3))
  have a2: "addPath ((beginGroup self)\<lparr>lastM := Some (displacement n1), this_path := Some n1\<rparr>) (Some f2) =
              Inr ((beginGroup self)\<lparr>lastM := Some (displacement (n1 @ n2)), this_path := Some (n1 @ n2)\<rparr>)"
    using addPath_in_group [of "(beginGroup self)\<lparr>lastM := Some (displacement n1), this_path := Some n1\<rparr>"
        "displacement n1" n1 f2]
    by (simp add: assms(4) displacement_append)
  have ne: "n1 @ n2 \<noteq> []" using assms(1,3) by (cases f1) simp_all
  have e: "endGroup ((beginGroup self)\<lparr>lastM := Some (displacement (n1 @ n2)), this_path := Some (n1 @ n2)\<rparr>) klass =
             Inr (Some compound,
                  self\<lparr>lastM := Some (displacement (n1 @ n2)), this_path := Some [], ingroup := False,
                       paper := paper self @ [compound],
                       history := history self @ [(Some compound, False)]\<rparr>)"
    using endGroup_nonempty [of "(beginGroup self)\<lparr>lastM := Some (displacement (n1 @ n2)), this_path := Some (n1 @ n2)\<rparr>"
        "n1 @ n2" klass] ne
    by (simp add: assms(5) beginGroup_def)
  have g: "group_of_two self f1 f2 klass =
            Inr (Some compound,
                 self\<lparr>lastM := Some (displacement (n1 @ n2)), this_path := Some [], ingroup := False,
                      paper := paper self @ [compound],
                      history := history self @ [(Some compound, False)]\<rparr>)"
    by (simp add: group_of_two_def bindE_def a1 a2 e)
  have h1: "hd n1 = (''m'', jsub (cmd_x (hd f1)) (Num 0) # jsub (cmd_y (hd f1)) (Num 0) # drop 2 (snd (hd f1)))"
    "tl n1 = tl f1"
    using assms(1) unfolding assms(3) by (cases f1; simp)+
  have h2: "hd n2 = (''m'', jsub (cmd_x (hd f2)) (fst (displacement n1))
                         # jsub (cmd_y (hd f2)) (snd (displacement n1)) # drop 2 (snd (hd f2)))"
    "tl n2 = tl f2"
    using assms(2) unfolding assms(4) by (cases f2; simp)+
  have p: "paper ((beginGroup self)\<lparr>ingroup := False\<rparr>) = paper self"
    by (simp add: beginGroup_def)
  show ?thesis
    using endGroup_empty [of self klass] p addPath_empty [of s] g h1 h2 displacement_append [of n1 n2]
    by blast
qed

text \<open>
  The stem starting at (10, 20) and the glyph starting at (30, 50): the glyph's leading command
  becomes m 20 30, and the displacements (10, 20) and (22, 33) add up to (32, 53).
\<close>

theorem path_accumulator_witness:
  "stem_fragment \<noteq> [] \<and> glyph_fragment \<noteq> []
   \<and> map_sum id fst (group_of_two (new_renderer plain_tune) stem_fragment glyph_fragment ''note'') =
       Inr (Some (PaperPath [(''m'', [Num 10, Num 20]), (''L'', [Num 10, Num 40]), (''z'', []),
                             (''m'', [Num 20, Num 30]), (''l'', [Num 1, Num 1]), (''m'', [Num 2, Num 3]), (''z'', [])]
                    ''none'' ''#000000'' (Some ''note'')))
   \<and> displacement (normalize_fragment (Num 0, Num 0) stem_fragment) = (Num 10, Num 20)
   \<and> displacement (normalize_fragment (Num 10, Num 20) glyph_fragment) = (Num 22, Num 33)
   \<and> displacement (normalize_fragment (Num 0, Num 0) stem_fragment
                    @ normalize_fragment (Num 10, Num 20) glyph_fragment) = (Num 32, Num 53)"
proof -
  have ne: "stem_fragment \<noteq> []" "glyph_fragment \<noteq> []"
    by (simp_all add: stem_fragment_def glyph_fragment_def)
  show ?thesis
    using path_accumulator [OF ne refl refl refl, of "new_renderer plain_tune" "''note''"]
    by (simp add: stem_fragment_def glyph_fragment_def vadd_def)
qed

section \<open>Kerning and missing glyphs\<close>

lemma calcY_this_y: "this_y s = this_y s' \<Longrightarrow> calcY E s ofs = calcY E s' ofs"
  by (simp add: calcY_def)

lemma kernSymbols_table:
  "kernSymbols ''f'' ''f'' w = jdiv (jmul w (Num 2)) (Num 3)"
  "kernSymbols ''p'' ''p'' w = jdiv (jmul w (Num 5)) (Num 6)"
  "kernSymbols ''f'' ''z'' w = jdiv (jmul w (Num 5)) (Num 8)"
  "(l, t) \<notin> {(''f'', ''f''), (''p'', ''p''), (''f'', ''z'')} \<Longrightarrow> kernSymbols l t w = w"
  by (auto simp add: kernSymbols_def Let_def)

lemma printSymbol_loop_placed:
  assumes "glyphs_defined E [c]"
  shows "printSymbol_loop E self x offset symbol dx (c # cs) =
           printSymbol_loop E
             (self\<lparr>paper := paper self @
                [PaperGlyph (jadd x dx) (calcY E self (jadd offset (glyphs_getYCorr E [c]))) [c] []]\<rparr>)
             x offset symbol
             (if cs \<noteq> [] then jadd dx (kernSymbols [c] [hd cs] (glyphs_getSymbolWidth E [c])) else dx) cs"
  using assms by (simp add: glyphs_printSymbol_def Let_def)



lemma renderText_console:
  "console (snd (renderText E s x y0 t type klass anchr nc hist)) =
     (if type = FontKey ''debugfont'' then console s @ [''Debug msg: '' @ t] else console s)"
  unfolding renderText_def recordHistory_def
  by (simp add: Let_def case_prod_beta split: option.splits)

lemma renderText_draws_text:
  "PaperText (nbsp_before_leading_newline (blank_between_newlines t))
     (renderText_attr (snd (getFontAndAttr s type klass)) (font_box (fst (getFontAndAttr s type klass)))
        x y0 type anchr nc)
        \<in> set (paper (snd (renderText E s x y0 t type klass anchr nc hist)))"
  unfolding renderText_def recordHistory_def
  by (simp add: Let_def case_prod_beta split: option.splits)

text \<open>
  Outside a group, a single symbol that the glyph table does not have is replaced by the
  marker text, which is also logged.
\<close>

lemma printSymbol_marker_outside_group:
  assumes "symbol \<noteq> []" and "\<not> (1 < length symbol \<and> CHR ''.'' \<notin> set symbol)"
    and "\<not> ingroup self" and "\<not> glyphs_defined E symbol"
  shows "\<exists>s'. printSymbol E self x offset symbol scalex scaley klass = Inr (None, s')
            \<and> console s' = console self @ [''Debug msg: no symbol:'' @ symbol]
            \<and> (\<exists>a. PaperText (nbsp_before_leading_newline (blank_between_newlines (''no symbol:'' @ symbol))) a
                     \<in> set (paper s'))"
proof -
  define s1 where "s1 = recordHistory self None False"
  have c: "console s1 = console self" by (simp add: s1_def recordHistory_def)
  have p: "printSymbol E self x offset symbol scalex scaley klass =
             Inr (None, snd (renderText E s1 x (this_y s1) (''no symbol:'' @ symbol)
                               (FontKey ''debugfont'') ''debug-msg'' ''start'' False None))"
    using assms by (simp add: printSymbol_def Let_def glyphs_printSymbol_def s1_def)
  show ?thesis
    unfolding p using renderText_draws_text [where t = "''no symbol:'' @ symbol" and E = E and s = s1 and x = x
        and ?y0.0 = "this_y s1" and type = "FontKey ''debugfont''" and klass = "''debug-msg''"
        and anchr = "''start''" and nc = False and hist = None]
    by (auto simp add: renderText_console c)
qed

lemma renderText_keeps_paper:
  "set (paper s) \<subseteq> set (paper (snd (renderText E s x y0 t type klass anchr nc hist)))"
  unfolding renderText_def recordHistory_def
  by (auto simp add: Let_def case_prod_beta split: option.splits)

lemma printSymbol_loop_frame:
  "this_y (printSymbol_loop E s x offset symbol dx cs) = this_y s
   \<and> this_abctune (printSymbol_loop E s x offset symbol dx cs) = this_abctune s"
  by (induction cs arbitrary: s dx) (simp_all add: Let_def glyphs_printSymbol_def)

lemma printSymbol_loop_keeps_paper:
  "set (paper s) \<subseteq> set (paper (printSymbol_loop E s x offset symbol dx cs))"
proof (induction cs arbitrary: s dx)
  case Nil
  then show ?case by simp
next
  case (Cons a cs)
  show ?case
  proof (cases "glyphs_defined E [a]")
    case True
    show ?thesis
      unfolding printSymbol_loop_placed [OF True]
      using Cons.IH [of "s\<lparr>paper := paper s @
                [PaperGlyph (jadd x dx) (calcY E s (jadd offset (glyphs_getYCorr E [a]))) [a] []]\<rparr>"]
      by auto
  next
    case False
    then show ?thesis
      using Cons.IH [of "snd (renderText E s x (this_y s) (''no symbol:'' @ symbol)
                       (FontKey ''debugfont'') ''debug-msg'' ''start'' False None)" dx]
        renderText_keeps_paper [of s E x "this_y s" "''no symbol:'' @ symbol" "FontKey ''debugfont''"
          "''debug-msg''" "''start''" False None]
      by (auto simp add: Let_def glyphs_printSymbol_def)
  qed
qed

text \<open>
  In a multi-character symbol, a character that the glyph table does not have is replaced by
  the marker text.
\<close>

lemma printSymbol_loop_marker:
  assumes "c \<in> set cs" and "\<not> glyphs_defined E [c]"
  shows "PaperText (nbsp_before_leading_newline (blank_between_newlines (''no symbol:'' @ symbol)))
           (renderText_attr (snd (getFontAndAttr s (FontKey ''debugfont'') ''debug-msg''))
              (font_box (fst (getFontAndAttr s (FontKey ''debugfont'') ''debug-msg'')))
              x (this_y s) (FontKey ''debugfont'') ''start'' False)
         \<in> set (paper (printSymbol_loop E s x offset symbol dx cs))"
  using assms(1)
proof (induction cs arbitrary: s dx)
  case Nil
  then show ?case by simp
next
  case (Cons a cs)
  show ?case
  proof (cases "glyphs_defined E [a]")
    case True
    then have "c \<in> set cs" using Cons.prems assms(2) by auto
    from Cons.IH [OF this, of "s\<lparr>paper := paper s @
                [PaperGlyph (jadd x dx) (calcY E s (jadd offset (glyphs_getYCorr E [a]))) [a] []]\<rparr>"]
    show ?thesis
      unfolding printSymbol_loop_placed [OF True]
      by (simp add: getFontAndAttr_abctune [of "s\<lparr>paper := paper s @
                [PaperGlyph (jadd x dx) (calcY E s (jadd offset (glyphs_getYCorr E [a]))) [a] []]\<rparr>" s])
  next
    case False
    define s' where "s' = snd (renderText E s x (this_y s) (''no symbol:'' @ symbol)
                       (FontKey ''debugfont'') ''debug-msg'' ''start'' False None)"
    have step: "printSymbol_loop E s x offset symbol dx (a # cs) = printSymbol_loop E s' x offset symbol dx cs"
      using False by (simp add: Let_def glyphs_printSymbol_def s'_def)
    have "PaperText (nbsp_before_leading_newline (blank_between_newlines (''no symbol:'' @ symbol)))
           (renderText_attr (snd (getFontAndAttr s (FontKey ''debugfont'') ''debug-msg''))
              (font_box (fst (getFontAndAttr s (FontKey ''debugfont'') ''debug-msg'')))
              x (this_y s) (FontKey ''debugfont'') ''start'' False) \<in> set (paper s')"
      unfolding s'_def by (rule renderText_draws_text)
    then show ?thesis
      unfolding step using printSymbol_loop_keeps_paper [of s' E x offset symbol dx cs] by blast
  qed
qed

lemma printSymbol_marker_in_sequence:
  assumes "1 < length symbol" and "CHR ''.'' \<notin> set symbol"
    and "c \<in> set symbol" and "\<not> glyphs_defined E [c]"
  shows "\<exists>s'. printSymbol E self x offset symbol scalex scaley klass = Inr (Some PaperCloseGroup, s')
            \<and> PaperText (nbsp_before_leading_newline (blank_between_newlines (''no symbol:'' @ symbol)))
                 (renderText_attr (snd (getFontAndAttr self (FontKey ''debugfont'') ''debug-msg''))
                    (font_box (fst (getFontAndAttr self (FontKey ''debugfont'') ''debug-msg'')))
                    x (this_y self) (FontKey ''debugfont'') ''start'' False)
               \<in> set (paper s')"
proof -
  have ne: "symbol \<noteq> []" using assms(1) by auto
  from printSymbol_loop_marker [OF assms(3,4), where symbol = symbol
      and s = "self\<lparr>paper := paper self @ [PaperOpenGroup (Some klass)]\<rparr>"
      and x = x and offset = offset and dx = "Num 0"]
  show ?thesis
    using assms(1,2) ne
    by (simp add: printSymbol_def Let_def recordHistory_def
        getFontAndAttr_abctune [of "self\<lparr>paper := paper self @ [PaperOpenGroup (Some klass)]\<rparr>" self]
        del: printSymbol_loop.simps)
qed

text \<open>
  Claim C6 fails inside a group. At a glyph that the table does not have, requested between
  \<^verbatim>\<open>beginGroup\<close> and \<^verbatim>\<open>endGroup\<close>, \<^verbatim>\<open>printSymbol\<close> hands the \<^verbatim>\<open>null\<close> path to
  \<^verbatim>\<open>addPath\<close>, returns \<^verbatim>\<open>null\<close> and leaves the renderer as it was: nothing is drawn and
  nothing is logged, where the two other branches draw the marker text.
\<close>

theorem printSymbol_in_group_no_marker:
  "\<not> glyphs_defined example_extern ''scripts.missing''
   \<and> glyphs_getPathForSymbol example_extern (Num 100)
        (calcY example_extern (beginGroup (new_renderer plain_tune))
           (jadd (Num 6) (glyphs_getYCorr example_extern ''scripts.missing'')))
        ''scripts.missing'' (Num 1) (Num 1) = None
   \<and> ingroup (beginGroup (new_renderer plain_tune))
   \<and> printSymbol example_extern (beginGroup (new_renderer plain_tune)) (Num 100) (Num 6)
        ''scripts.missing'' (Num 1) (Num 1) ''note''
       = Inr (None, beginGroup (new_renderer plain_tune))
   \<and> paper (beginGroup (new_renderer plain_tune)) = []
   \<and> console (beginGroup (new_renderer plain_tune)) = []"
  by (simp add: printSymbol_def Let_def example_extern_def bindE_def addPath_def beginGroup_def
      new_renderer_def)

section \<open>The unset pitch of an ending\<close>

lemma draw_console:
  "console (snd (draw E this rend linestartx lineendx)) =
     (if pitch this = None then console rend @ [ending_message] else console rend)"
  unfolding draw_def printPath_def recordHistory_def
  by (simp add: Let_def case_prod_beta renderText_console split: option.splits)

text \<open>
  Claim C8. Drawing an ending element whose pitch is still \<^verbatim>\<open>undefined\<close>, as the constructor
  leaves it, writes the message to the error console. Once \<^verbatim>\<open>setUpperAndLowerElements\<close> has
  set the pitch, drawing writes nothing to the console.
\<close>

theorem ending_unset_pitch_reported:
  "console (snd (draw E (new_EndingElem label a1 a2) rend linestartx lineendx))
     = console rend @ [ending_message]
   \<and> console (snd (draw E (setUpperAndLowerElements this positionY) rend linestartx lineendx))
     = console rend
   \<and> (pitch this = None \<longrightarrow>
        console (snd (draw E this rend linestartx lineendx)) = console rend @ [ending_message])
   \<and> (pitch this \<noteq> None \<longrightarrow>
        console (snd (draw E this rend linestartx lineendx)) = console rend)"
  by (simp add: draw_console new_EndingElem_def setUpperAndLowerElements_def)

text \<open>
  An ending drawn as constructed logs the message; drawn after its placement was resolved
  from an ending height of 14, it logs nothing.
\<close>

theorem ending_unset_pitch_reported_witness:
  "pitch (new_EndingElem ''1.'' (Some example_anchor) None) = None
   \<and> console (snd (draw example_extern (new_EndingElem ''1.'' (Some example_anchor) None)
                     (new_renderer plain_tune) (Num 0) (Num 300)))
       = [''Ending Element y-coordinate not set.'']
   \<and> pitch (setUpperAndLowerElements (new_EndingElem ''1.'' (Some example_anchor) None) (Some (Num 14)))
       = Some (Num 12)
   \<and> console (snd (draw example_extern
                     (setUpperAndLowerElements (new_EndingElem ''1.'' (Some example_anchor) None) (Some (Num 14)))
                     (new_renderer plain_tune) (Num 0) (Num 300)))
       = []"
  using ending_unset_pitch_reported [where E = example_extern and label = "''1.''"
      and ?a1.0 = "Some example_anchor" and ?a2.0 = None and rend = "new_renderer plain_tune"
      and linestartx = "Num 0" and lineendx = "Num 300"
      and this = "new_EndingElem ''1.'' (Some example_anchor) None" and positionY = "Some (Num 14)"]
  by (simp add: new_EndingElem_def setUpperAndLowerElements_def new_renderer_def ending_message_def)

section \<open>The cursor during a pass\<close>

lemma moveY_traced_eq:
  "moveY_traced st em n =
     (moveY (fst st) em n,
      snd st @ [(this_y (fst st), jadd (this_y (fst st)) (jmul em (case n of None \<Rightarrow> Num 1 | Some k \<Rightarrow> k)))])"
  by (simp add: moveY_traced_def assign_y_def moveY_def Let_def)

lemma outputTextIf_traced_falsy:
  "\<not> str_truthy str \<Longrightarrow>
     outputTextIf_traced E st x str kind klass mt mb al nc = ((Num 0, Num 0, None), st)"
  by (simp add: outputTextIf_traced_def)

lemma outputTextIf_traced_eq:
  "outputTextIf_traced E st x str kind klass mt mb al nc =
     (fst (outputTextIf E (fst st) x str kind klass mt mb al nc),
      snd (outputTextIf E (fst st) x str kind klass mt mb al nc),
      snd st
      @ (if str_truthy str \<and> truthy mt then [(this_y (fst st), jadd (this_y (fst st)) mt)] else [])
      @ (if str_truthy str \<and> mb \<noteq> None \<and> \<not> isNaN (snd (getTextSize E (fst st) (the str) kind klass))
         then [(this_y (after_marginTop (fst st) mt),
                this_y (snd (outputTextIf E (fst st) x str kind klass mt mb al nc)))]
         else []))"
proof (cases "str_truthy str")
  case False
  then show ?thesis by (simp add: outputTextIf_traced_falsy outputTextIf_falsy)
next
  case True
  then obtain t where t: "str = Some t" "t \<noteq> []" by (cases str) simp_all
  have a: "getTextSize E (snd (renderText E s x y0 t kind klass al nc None)) t kind klass
             = getTextSize E s t kind klass"
    "getFontAndAttr (snd (renderText E s x y0 t kind klass al nc None)) kind klass
             = getFontAndAttr s kind klass" for s y0
    by (rule getTextSize_abctune, simp, rule getFontAndAttr_abctune, simp)
  have b: "getTextSize E (moveY s em None) t kind klass = getTextSize E s t kind klass"
    "getFontAndAttr (moveY s em None) kind klass = getFontAndAttr s kind klass" for s em
    by (rule getTextSize_abctune, simp, rule getFontAndAttr_abctune, simp)
  show ?thesis
  proof (cases mb)
    case None
    show ?thesis
      unfolding t(1) None outputTextIf_traced_def outputTextIf_def
      using t(2)
      by (simp add: Let_def case_prod_beta moveY_traced_eq after_marginTop_def)
  next
    case (Some b)
    show ?thesis
      unfolding t(1) Some outputTextIf_traced_def outputTextIf_def
      using t(2)
      by (simp add: Let_def case_prod_beta moveY_traced_eq after_marginTop_def moveY_y a b)
  qed
qed

lemma walk_append: "walk a xs b \<Longrightarrow> walk b ys c \<Longrightarrow> walk a (xs @ ys) c"
  by (induction xs arbitrary: a) simp_all

lemma lawful_append: "lawful xs \<Longrightarrow> lawful ys \<Longrightarrow> lawful (xs @ ys)"
proof (induction xs rule: lawful.induct)
  case 1
  then show ?case by simp
next
  case (2 s)
  then show ?case by (cases ys) simp_all
next
  case (3 s s' ss)
  then show ?case by (simp split: if_splits)
qed

lemma unlowered_lawful: "list_all unlowered xs \<Longrightarrow> lawful xs"
  by (induction xs rule: lawful.induct) simp_all

lemma proceeds_refl: "isFinite (this_y (fst st)) \<Longrightarrow> proceeds st [] st"
  by (simp add: proceeds_def)

lemma proceeds_trans:
  assumes "proceeds st xs st'" and "proceeds st' ys st''"
  shows "proceeds st (xs @ ys) st''"
  using assms unfolding proceeds_def by (auto intro: walk_append)

lemma proceeds_y: "proceeds st xs st' \<Longrightarrow> \<exists>y'. this_y (fst st') = Num y'"
  unfolding proceeds_def by (cases "this_y (fst st')") simp_all

lemma nonneg_Num: "nonneg a \<Longrightarrow> \<exists>r. a = Num r \<and> 0 \<le> r"
  by (cases a) simp_all

lemma moveY_traced_proceeds:
  assumes "this_y (fst st) = Num y"
  shows "proceeds st [(Num y, Num (y + m))] (moveY_traced st (Num m) None)"
  using assms by (simp add: proceeds_def moveY_traced_eq moveY_y)

lemma getTextSize_nonneg:
  assumes "\<forall>t a. nonneg (snd (paper_getTextSize E t a))"
  shows "\<exists>h. snd (getTextSize E s str type klass) = Num h \<and> 0 \<le> h"
proof -
  obtain r where r: "snd (paper_getTextSize E str (snd (getFontAndAttr s type klass))) = Num r" "0 \<le> r"
    using nonneg_Num [OF assms [rule_format]] by blast
  show ?thesis
    using r by (simp add: getTextSize_def case_prod_beta)
qed

lemma after_marginTop_frame [simp]:
  "this_spacing (after_marginTop s mt) = this_spacing s"
  "isPrint (after_marginTop s mt) = isPrint s"
  "padding (after_marginTop s mt) = padding s"
  by (simp_all add: after_marginTop_def)

lemma outputTextIf_frame:
  "this_spacing (snd (outputTextIf E s x str kind klass mt mb al nc)) = this_spacing s"
  "isPrint (snd (outputTextIf E s x str kind klass mt mb al nc)) = isPrint s"
  "this_abctune (snd (outputTextIf E s x str kind klass mt mb al nc)) = this_abctune s"
  "padding (snd (outputTextIf E s x str kind klass mt mb al nc)) = padding s"
proof -
  have "this_spacing (snd (outputTextIf E s x str kind klass mt mb al nc)) = this_spacing s
      \<and> isPrint (snd (outputTextIf E s x str kind klass mt mb al nc)) = isPrint s
      \<and> this_abctune (snd (outputTextIf E s x str kind klass mt mb al nc)) = this_abctune s
      \<and> padding (snd (outputTextIf E s x str kind klass mt mb al nc)) = padding s"
  proof (cases "str_truthy str")
    case False
    then show ?thesis by (simp add: outputTextIf_falsy)
  next
    case True
    then obtain t where t: "str = Some t" "t \<noteq> []" by (cases str) simp_all
    show ?thesis
      unfolding t(1) outputTextIf_truthy [OF t(2)]
      by (simp add: Let_def split: option.splits)
  qed
  then show "this_spacing (snd (outputTextIf E s x str kind klass mt mb al nc)) = this_spacing s"
    "isPrint (snd (outputTextIf E s x str kind klass mt mb al nc)) = isPrint s"
    "this_abctune (snd (outputTextIf E s x str kind klass mt mb al nc)) = this_abctune s"
    "padding (snd (outputTextIf E s x str kind klass mt mb al nc)) = padding s"
    by simp_all
qed

text \<open>
  The cursor and the returned height of \<^verbatim>\<open>outputTextIf\<close> on a text whose measured height is
  a number.
\<close>

lemma outputTextIf_numeric:
  assumes "snd (getTextSize E s t kind klass) = Num h" and "t \<noteq> []" and "this_y s = Num y"
    and "H = (if font_box (fst (getFontAndAttr s kind klass)) then h + 8 else h)"
    and "n = real (split_newline_length t)"
  shows "fst (snd (fst (outputTextIf E s x (Some t) kind klass (Num m) mb al nc))) = Num H"
    and "this_y (after_marginTop s (Num m)) = Num (y + m)"
    and "this_y (snd (outputTextIf E s x (Some t) kind klass (Num m) mb al nc)) =
           (case mb of None \<Rightarrow> Num (y + m) | Some b \<Rightarrow> jadd (Num (y + m)) (jmul (Num (H / n)) (jadd (Num n) b)))"
proof -
  have n: "n \<noteq> 0" by (simp add: assms(5) split_newline_length_def)
  show "fst (snd (fst (outputTextIf E s x (Some t) kind klass (Num m) mb al nc))) = Num H"
    unfolding outputTextIf_truthy [OF assms(2)] by (simp add: Let_def assms(1,4))
  show y1: "this_y (after_marginTop s (Num m)) = Num (y + m)"
    using assms(3) by (simp add: after_marginTop_def moveY_y)
  show "this_y (snd (outputTextIf E s x (Some t) kind klass (Num m) mb al nc)) =
           (case mb of None \<Rightarrow> Num (y + m) | Some b \<Rightarrow> jadd (Num (y + m)) (jmul (Num (H / n)) (jadd (Num n) b)))"
    unfolding outputTextIf_truthy [OF assms(2)]
    using n by (simp add: Let_def moveY_y assms(1,4) y1 assms(5) [symmetric] split: option.splits)
qed

text \<open>
  With a top margin and a bottom margin that are not negative (or no bottom margin), and
  measured heights that are not negative, \<^verbatim>\<open>outputTextIf\<close> only takes steps that do not
  lower the cursor. With the top margin 0 and no bottom margin it takes no step.
\<close>

lemma outputTextIf_traced_proceeds:
  assumes "\<forall>t a. nonneg (snd (paper_getTextSize E t a))"
    and "this_y (fst st) = Num y" and "0 \<le> m" and "mb = None \<or> (\<exists>b. mb = Some (Num b) \<and> 0 \<le> b)"
  shows "\<exists>new. proceeds st new (snd (outputTextIf_traced E st x str kind klass (Num m) mb al nc))
            \<and> list_all unlowered new \<and> (m = 0 \<and> mb = None \<longrightarrow> new = [])"
proof (cases "str_truthy str")
  case False
  then show ?thesis
    using assms(2) by (simp add: outputTextIf_traced_falsy proceeds_def)
next
  case True
  then obtain t where t: "str = Some t" "t \<noteq> []" by (cases str) simp_all
  obtain h where h: "snd (getTextSize E (fst st) t kind klass) = Num h" "0 \<le> h"
    using getTextSize_nonneg [OF assms(1)] by blast
  define H where "H = (if font_box (fst (getFontAndAttr (fst st) kind klass)) then h + 8 else h)"
  define n where "n = real (split_newline_length t)"
  have H: "0 \<le> H" using h(2) by (simp add: H_def)
  have n: "0 < n" by (simp add: n_def split_newline_length_def)
  note num1 = outputTextIf_numeric(2) [OF h(1) t(2) assms(2) H_def n_def, where m = m]
  note num2 = outputTextIf_numeric(3) [OF h(1) t(2) assms(2) H_def n_def,
      where x = x and m = m and mb = mb and al = al and nc = nc]
  let ?r = "outputTextIf E (fst st) x (Some t) kind klass (Num m) mb al nc"
  define new where "new =
      (if m \<noteq> 0 then [(Num y, Num (y + m))] else [])
      @ (if mb \<noteq> None then [(Num (y + m), this_y (snd ?r))] else [])"
  have eq: "outputTextIf_traced E st x (Some t) kind klass (Num m) mb al nc = (fst ?r, snd ?r, snd st @ new)"
    unfolding outputTextIf_traced_eq new_def using t(2) h(1) assms(2) num1 by simp
  have fr: "this_spacing (snd ?r) = this_spacing (fst st)" "isPrint (snd ?r) = isPrint (fst st)"
    "this_abctune (snd ?r) = this_abctune (fst st)" "padding (snd ?r) = padding (fst st)"
    by (rule outputTextIf_frame)+
  have adv: "0 \<le> H / n * (n + b)" if "0 \<le> b" for b
    using that H n by simp
  have fin: "\<exists>y'. this_y (snd ?r) = Num y' \<and> y + m \<le> y'"
    using assms(4) num2 adv by auto
  then obtain y' where y': "this_y (snd ?r) = Num y'" "y + m \<le> y'" by blast
  have w: "walk (Num y) new (Num y')"
    unfolding new_def using y' num2 by (auto split: option.splits)
  have u: "list_all unlowered new"
    unfolding new_def using y' assms(3) by (simp add: unlowered_def)
  have e: "m = 0 \<and> mb = None \<longrightarrow> new = []" by (simp add: new_def)
  have "proceeds st new (snd (outputTextIf_traced E st x (Some t) kind klass (Num m) mb al nc))"
    unfolding eq proceeds_def using w y' fr assms(2) by simp
  then show ?thesis using u e unfolding t(1) by blast
qed

lemma outputTextIf_traced_height:
  assumes "\<forall>t a. nonneg (snd (paper_getTextSize E t a))" and "str_truthy str"
  shows "\<exists>H. fst (snd (fst (outputTextIf_traced E st x str kind klass mt mb al nc))) = Num H \<and> 0 \<le> H"
proof -
  obtain t where t: "str = Some t" "t \<noteq> []" using assms(2) by (cases str) simp_all
  obtain h where h: "snd (getTextSize E (fst st) t kind klass) = Num h" "0 \<le> h"
    using getTextSize_nonneg [OF assms(1)] by blast
  show ?thesis
    unfolding outputTextIf_traced_eq t(1) outputTextIf_truthy [OF t(2)]
    using h by (simp add: Let_def)
qed

lemma assign_y_proceeds: "proceeds st [(this_y (fst st), Num v)] (assign_y st (Num v))"
  by (simp add: proceeds_def assign_y_def)

lemma proceeds_nil: "proceeds st [] st' \<Longrightarrow> this_y (fst st') = this_y (fst st)"
  by (simp add: proceeds_def)

lemma outputTextIf_no_margins:
  "this_y (snd (outputTextIf E s x str kind klass (Num 0) None al nc)) = this_y s"
proof (cases "str_truthy str")
  case False
  then show ?thesis by (simp add: outputTextIf_falsy)
next
  case True
  then obtain t where t: "str = Some t" "t \<noteq> []" by (cases str) simp_all
  show ?thesis
    unfolding t(1) outputTextIf_truthy [OF t(2)]
    by (simp add: Let_def after_marginTop_def)
qed

lemma outputTextIf_traced_still:
  assumes "this_y (fst st) = Num y"
  shows "proceeds st [] (snd (outputTextIf_traced E st x str kind klass (Num 0) None al nc))"
  unfolding outputTextIf_traced_eq proceeds_def
  using assms by (simp add: outputTextIf_no_margins outputTextIf_frame)

lemma header_block_steps:
  assumes "this_y (fst st) = Num y"
    and "snd (getTextSize E (fst st) ''XXXX'' (FontKey ''headerfont'') ''abcjs-header abcjs-meta-top'') = Num h"
    and "bracket = (if meta_header (tune_metaText tune) \<noteq> None \<and> isPrint (fst st)
                    then [(Num y, Num (y - h)), (Num (y - h), Num (y - h + h))] else [])"
  shows "proceeds st bracket (header_block E st width tune)"
proof (cases "meta_header (tune_metaText tune) \<noteq> None \<and> isPrint (fst st)")
  case False
  then show ?thesis
    using assms(1) by (auto simp add: header_block_def assms(3) proceeds_def split: option.splits)
next
  case True
  then obtain hdr where hdr: "meta_header (tune_metaText tune) = Some hdr" and pr: "isPrint (fst st)"
    by auto
  define st1 where "st1 = assign_y st (Num (y - h))"
  define st2 where "st2 = snd (outputTextIf_traced E st1 (padding_left (fst st1)) (header_left hdr)
                              (FontKey ''headerfont'') ''header meta-top'' (Num 0) None ''start'' False)"
  define st3 where "st3 = snd (outputTextIf_traced E st2 (jadd (padding_left (fst st2)) (jdiv width (Num 2)))
                              (header_center hdr)
                              (FontKey ''headerfont'') ''header meta-top'' (Num 0) None ''middle'' False)"
  define st4 where "st4 = snd (outputTextIf_traced E st3 (jadd (padding_left (fst st3)) width) (header_right hdr)
                              (FontKey ''headerfont'') ''header meta-top'' (Num 0) None ''end'' False)"
  have eq: "header_block E st width tune = assign_y st4 (jadd (this_y (fst st4)) (Num h))"
    unfolding header_block_def hdr st4_def st3_def st2_def st1_def
    using pr by (simp add: Let_def assms(1,2))
  have p1: "proceeds st [(Num y, Num (y - h))] st1"
    unfolding st1_def using assign_y_proceeds [of st "y - h"] assms(1) by simp
  have y1: "this_y (fst st1) = Num (y - h)" by (simp add: st1_def assign_y_def)
  have p2: "proceeds st1 [] st2" unfolding st2_def by (rule outputTextIf_traced_still [OF y1])
  have y2: "this_y (fst st2) = Num (y - h)" using proceeds_nil [OF p2] y1 by simp
  have p3: "proceeds st2 [] st3" unfolding st3_def by (rule outputTextIf_traced_still [OF y2])
  have y3: "this_y (fst st3) = Num (y - h)" using proceeds_nil [OF p3] y2 by simp
  have p4: "proceeds st3 [] st4" unfolding st4_def by (rule outputTextIf_traced_still [OF y3])
  have y4: "this_y (fst st4) = Num (y - h)" using proceeds_nil [OF p4] y3 by simp
  have p5: "proceeds st4 [(Num (y - h), Num (y - h + h))] (assign_y st4 (jadd (this_y (fst st4)) (Num h)))"
    using assign_y_proceeds [of st4 "y - h + h"] y4 by simp
  have "proceeds st ([(Num y, Num (y - h))] @ [] @ [] @ [] @ [(Num (y - h), Num (y - h + h))])
          (assign_y st4 (jadd (this_y (fst st4)) (Num h)))"
    by (rule proceeds_trans [OF p1 proceeds_trans [OF p2 proceeds_trans [OF p3 proceeds_trans [OF p4 p5]]]])
  then show ?thesis
    unfolding eq assms(3) using True by simp
qed

lemma top_space_block_steps:
  assumes "nonneg (spacing_top (this_spacing (fst st)))" and "this_y (fst st) = Num y"
  shows "\<exists>new. proceeds st new (top_space_block st) \<and> list_all unlowered new"
proof -
  obtain m where m: "spacing_top (this_spacing (fst st)) = Num m" "0 \<le> m"
    using nonneg_Num [OF assms(1)] by blast
  show ?thesis
  proof (cases "isPrint (fst st)")
    case True
    have "proceeds st [(Num y, Num (y + m))] (top_space_block st)"
      unfolding top_space_block_def m(1) using True moveY_traced_proceeds [OF assms(2)] by simp
    moreover have "list_all unlowered [(Num y, Num (y + m))]"
      using m(2) by (simp add: unlowered_def)
    ultimately show ?thesis by blast
  next
    case False
    then have "proceeds st [] (top_space_block st)"
      unfolding top_space_block_def using assms(2) by (simp add: proceeds_refl)
    then show ?thesis by force
  qed
qed

lemma title_block_steps:
  assumes "\<forall>t a. nonneg (snd (paper_getTextSize E t a))"
    and "nonneg (spacing_title (this_spacing (fst st)))" and "this_y (fst st) = Num y"
  shows "\<exists>new. proceeds st new (title_block E st width tune) \<and> list_all unlowered new"
proof -
  obtain m where m: "spacing_title (this_spacing (fst st)) = Num m" "0 \<le> m"
    using nonneg_Num [OF assms(2)] by blast
  have z: "Some (Num 0) = None \<or> (\<exists>b. Some (Num 0) = Some (Num b) \<and> 0 \<le> b)" by simp
  show ?thesis
  proof (cases "str_truthy (meta_title (tune_metaText tune))")
    case True
    then show ?thesis
      unfolding title_block_def m(1)
      using outputTextIf_traced_proceeds [OF assms(1,3) m(2) z] by auto
  next
    case False
    then have "proceeds st [] (title_block E st width tune)"
      unfolding title_block_def using assms(3) by (simp add: proceeds_refl)
    then show ?thesis by force
  qed
qed

lemma subtitle_block_steps:
  assumes "\<forall>t a. nonneg (snd (paper_getTextSize E t a))"
    and "nonneg (spacing_subtitle (this_spacing (fst st)))" and "this_y (fst st) = Num y"
  shows "\<exists>new. proceeds st new (subtitle_block E st width tune) \<and> list_all unlowered new"
proof -
  obtain m where m: "spacing_subtitle (this_spacing (fst st)) = Num m" "0 \<le> m"
    using nonneg_Num [OF assms(2)] by blast
  have z: "Some (Num 0) = None \<or> (\<exists>b. Some (Num 0) = Some (Num b) \<and> 0 \<le> b)" by simp
  show ?thesis
  proof (cases "str_truthy (line0_subtitle tune)")
    case True
    then show ?thesis
      unfolding subtitle_block_def m(1)
      using outputTextIf_traced_proceeds [OF assms(1,3) m(2) z] by auto
  next
    case False
    then have "proceeds st [] (subtitle_block E st width tune)"
      unfolding subtitle_block_def using assms(3) by (simp add: proceeds_refl)
    then show ?thesis by force
  qed
qed

lemma author_block_steps:
  assumes "\<forall>t a. nonneg (snd (paper_getTextSize E t a))" and "this_y (fst st) = Num y"
  shows "\<exists>new. proceeds st new (author_block E st width tune) \<and> list_all unlowered new"
proof -
  have z: "Some (Num 0) = None \<or> (\<exists>b. Some (Num 0) = Some (Num b) \<and> 0 \<le> b)" by simp
  have o: "(0::real) \<le> 0" by simp
  show ?thesis
  proof (cases "str_truthy (meta_author (tune_metaText tune)) \<and> 0 < length (the (meta_author (tune_metaText tune)))")
    case True
    then show ?thesis
      unfolding author_block_def Let_def
      using outputTextIf_traced_proceeds [OF assms(1,2) o z] by auto
  next
    case False
    then have "proceeds st [] (author_block E st width tune)"
      unfolding author_block_def Let_def using assms(2) by (auto simp add: proceeds_refl)
    then show ?thesis by force
  qed
qed

lemma partOrder_block_steps:
  assumes "\<forall>t a. nonneg (snd (paper_getTextSize E t a))" and "this_y (fst st) = Num y"
  shows "\<exists>new. proceeds st new (partOrder_block E st width tune) \<and> list_all unlowered new"
proof -
  have z: "Some (Num 0) = None \<or> (\<exists>b. Some (Num 0) = Some (Num b) \<and> 0 \<le> b)" by simp
  have o: "(0::real) \<le> 0" by simp
  show ?thesis
  proof (cases "str_truthy (meta_partOrder (tune_metaText tune)) \<and> 0 < length (the (meta_partOrder (tune_metaText tune)))")
    case True
    then show ?thesis
      unfolding partOrder_block_def Let_def
      using outputTextIf_traced_proceeds [OF assms(1,2) o z] by auto
  next
    case False
    then have "proceeds st [] (partOrder_block E st width tune)"
      unfolding partOrder_block_def Let_def using assms(2) by (auto simp add: proceeds_refl)
    then show ?thesis by force
  qed
qed

lemma composerLine_empty:
  "composerLine m = [] \<longleftrightarrow> \<not> str_truthy (meta_composer m) \<and> \<not> str_truthy (meta_origin m)"
  by (cases "meta_composer m"; cases "meta_origin m") (auto simp add: composerLine_def)

lemma composer_block_eq:
  assumes "st1 = moveY_traced st (spacing_composer (this_spacing (fst st))) None"
    and "ro = outputTextIf_traced E st1 (padding_left (fst st1)) (meta_rhythm (tune_metaText tune))
                (FontKey ''infofont'') ''meta-top rhythm'' (Num 0) None ''start'' False"
    and "st2 = (if str_truthy (meta_rhythm (tune_metaText tune)) then snd ro else st1)"
    and "co = outputTextIf_traced E st2 (jadd (padding_left (fst st2)) width)
                (Some (composerLine (tune_metaText tune)))
                (FontKey ''composerfont'') ''meta-top composer'' (Num 0) None ''end'' False"
  shows "composer_block E st width tune =
     (if str_truthy (meta_rhythm (tune_metaText tune)) \<or> str_truthy (meta_origin (tune_metaText tune))
         \<or> str_truthy (meta_composer (tune_metaText tune))
      then (if composerLine (tune_metaText tune) \<noteq> []
            then Inr (moveY_traced (moveY_traced (snd co) (fst (snd (fst co))) None) (Num (- 6)) None)
            else Inr (moveY_traced (moveY_traced (snd ro) (fst (snd (fst ro))) None) (Num (- 6)) None))
      else Inr st)"
proof -
  let ?m = "tune_metaText tune"
  consider (absent) "\<not> (str_truthy (meta_rhythm ?m) \<or> str_truthy (meta_origin ?m) \<or> str_truthy (meta_composer ?m))"
    | (line) "str_truthy (meta_rhythm ?m) \<or> str_truthy (meta_origin ?m) \<or> str_truthy (meta_composer ?m)"
        "composerLine ?m \<noteq> []"
    | (rhythm) "str_truthy (meta_rhythm ?m) \<or> str_truthy (meta_origin ?m) \<or> str_truthy (meta_composer ?m)"
        "composerLine ?m = []"
    by blast
  then show ?thesis
  proof cases
    case absent
    then show ?thesis by (simp add: composer_block_def Let_def)
  next
    case line
    show ?thesis
    proof (cases "str_truthy (meta_rhythm ?m)")
      case True
      then have "the (meta_rhythm ?m) \<noteq> []" by (cases "meta_rhythm ?m") simp_all
      then show ?thesis
        unfolding composer_block_def assms using line True
        by (simp add: Let_def case_prod_beta)
    next
      case False
      then show ?thesis
        unfolding composer_block_def assms using line
        by (simp add: Let_def case_prod_beta)
    qed
  next
    case rhythm
    then have rt: "str_truthy (meta_rhythm ?m)" using composerLine_empty by blast
    then have "the (meta_rhythm ?m) \<noteq> []" by (cases "meta_rhythm ?m") simp_all
    then show ?thesis
      unfolding composer_block_def assms using rhythm rt
      by (simp add: Let_def case_prod_beta)
  qed
qed

text \<open>
  The rhythm, origin and composer block takes three steps: down by the composer spacing, down
  by the height of the composer line (or of the rhythm), and up by 6.
\<close>

lemma composer_block_steps:
  assumes "\<forall>t a. nonneg (snd (paper_getTextSize E t a))"
    and "nonneg (spacing_composer (this_spacing (fst st)))" and "this_y (fst st) = Num y"
    and "present = (str_truthy (meta_rhythm (tune_metaText tune))
                    \<or> str_truthy (meta_origin (tune_metaText tune))
                    \<or> str_truthy (meta_composer (tune_metaText tune)))"
  shows "\<exists>st' new. composer_block E st width tune = Inr st' \<and> proceeds st new st'
            \<and> (if present
                then \<exists>c H. 0 \<le> c \<and> 0 \<le> H
                       \<and> new = [(Num y, Num (y + c)), (Num (y + c), Num (y + c + H)),
                                (Num (y + c + H), Num (y + c + H + - 6))]
                else new = [])"
proof -
  obtain c where c: "spacing_composer (this_spacing (fst st)) = Num c" "0 \<le> c"
    using nonneg_Num [OF assms(2)] by blast
  define st1 where "st1 = moveY_traced st (spacing_composer (this_spacing (fst st))) None"
  define ro where "ro = outputTextIf_traced E st1 (padding_left (fst st1)) (meta_rhythm (tune_metaText tune))
                (FontKey ''infofont'') ''meta-top rhythm'' (Num 0) None ''start'' False"
  define st2 where "st2 = (if str_truthy (meta_rhythm (tune_metaText tune)) then snd ro else st1)"
  define co where "co = outputTextIf_traced E st2 (jadd (padding_left (fst st2)) width)
                (Some (composerLine (tune_metaText tune)))
                (FontKey ''composerfont'') ''meta-top composer'' (Num 0) None ''end'' False"
  note eq = composer_block_eq [OF st1_def ro_def st2_def co_def]
  have p1: "proceeds st [(Num y, Num (y + c))] st1"
    unfolding st1_def c(1) by (rule moveY_traced_proceeds [OF assms(3)])
  have y1: "this_y (fst st1) = Num (y + c)"
    unfolding st1_def c(1) using assms(3) by (simp add: moveY_traced_eq moveY_y)
  have pro: "proceeds st1 [] (snd ro)"
    unfolding ro_def by (rule outputTextIf_traced_still [OF y1])
  have p2: "proceeds st1 [] st2"
    unfolding st2_def using pro y1 by (simp add: proceeds_refl)
  have y2: "this_y (fst st2) = Num (y + c)" using proceeds_nil [OF p2] y1 by simp
  have pco: "proceeds st2 [] (snd co)"
    unfolding co_def by (rule outputTextIf_traced_still [OF y2])
  have tail: "proceeds st [(Num y, Num (y + c)), (Num (y + c), Num (y + c + H)),
                           (Num (y + c + H), Num (y + c + H + - 6))]
                (moveY_traced (moveY_traced t (Num H) None) (Num (- 6)) None)"
    if p: "proceeds st1 [] t" for t H
  proof -
    have yt: "this_y (fst t) = Num (y + c)" using proceeds_nil [OF p] y1 by simp
    have q1: "proceeds t [(Num (y + c), Num (y + c + H))] (moveY_traced t (Num H) None)"
      by (rule moveY_traced_proceeds [OF yt])
    have yq: "this_y (fst (moveY_traced t (Num H) None)) = Num (y + c + H)"
      using yt by (simp add: moveY_traced_eq moveY_y)
    have q2: "proceeds (moveY_traced t (Num H) None) [(Num (y + c + H), Num (y + c + H + - 6))]
                (moveY_traced (moveY_traced t (Num H) None) (Num (- 6)) None)"
      by (rule moveY_traced_proceeds [OF yq])
    show ?thesis
      using proceeds_trans [OF p1 proceeds_trans [OF p proceeds_trans [OF q1 q2]]] by simp
  qed
  show ?thesis
  proof (cases present)
    case False
    then show ?thesis
      unfolding eq using assms(3) by (simp add: assms(4) [symmetric] proceeds_refl)
  next
    case present: True
    show ?thesis
    proof (cases "composerLine (tune_metaText tune) = []")
      case False
      then have tr: "str_truthy (Some (composerLine (tune_metaText tune)))" by simp
      obtain H where H: "fst (snd (fst co)) = Num H" "0 \<le> H"
        unfolding co_def using outputTextIf_traced_height [OF assms(1) tr] by blast
      have "proceeds st1 [] (snd co)" by (rule proceeds_trans [OF p2 pco, simplified])
      from tail [OF this, of H] show ?thesis
        unfolding eq using present False c(2) H by (simp add: assms(4) [symmetric]) blast
    next
      case True
      then have rt: "str_truthy (meta_rhythm (tune_metaText tune))"
        using present composerLine_empty unfolding assms(4) by blast
      obtain H where H: "fst (snd (fst ro)) = Num H" "0 \<le> H"
        unfolding ro_def using outputTextIf_traced_height [OF assms(1) rt] by blast
      from tail [OF pro, of H] show ?thesis
        unfolding eq using present True c(2) H by (simp add: assms(4) [symmetric]) blast
    qed
  qed
qed

lemma proceeds_frame:
  assumes "proceeds st xs st'"
  shows "this_spacing (fst st') = this_spacing (fst st)" and "isPrint (fst st') = isPrint (fst st)"
    and "this_abctune (fst st') = this_abctune (fst st)" and "padding (fst st') = padding (fst st)"
  using assms by (simp_all add: proceeds_def)

lemma unlowered_filter: "list_all unlowered xs \<Longrightarrow> filter (\<lambda>s. \<not> unlowered s) xs = []"
  by (induction xs) simp_all

lemma unlowered_weaken: "list_all unlowered xs \<Longrightarrow> list_all (\<lambda>s. unlowered s \<or> minus_six s) xs"
  by (induction xs) simp_all

lemma mild_lawful: "list_all (\<lambda>s. unlowered s \<or> minus_six s) xs \<Longrightarrow> lawful xs"
  by (induction xs rule: lawful.induct) simp_all

lemma bracket_lawful:
  "0 \<le> h \<Longrightarrow> lawful [(Num y, Num (y - h)), (Num (y - h), Num y)]"
  by (simp add: unlowered_def)

text \<open>
  Every value of the cursor during \<^verbatim>\<open>engraveTopText\<close>: the two steps of the header bracket,
  then steps that do not lower the cursor, but for the step by -6 that ends the rhythm,
  origin and composer block.
\<close>

lemma engraveTopText_steps:
  assumes "\<forall>t a. nonneg (snd (paper_getTextSize E t a))"
    and "nonneg (spacing_top (this_spacing (fst st)))"
    and "nonneg (spacing_title (this_spacing (fst st)))"
    and "nonneg (spacing_subtitle (this_spacing (fst st)))"
    and "nonneg (spacing_composer (this_spacing (fst st)))"
    and "this_y (fst st) = Num y"
    and "headerTextHeight =
           snd (getTextSize E (fst st) ''XXXX'' (FontKey ''headerfont'') ''abcjs-header abcjs-meta-top'')"
    and "bracket = (if meta_header (tune_metaText tune) \<noteq> None \<and> isPrint (fst st)
                    then [(Num y, jsub (Num y) headerTextHeight),
                          (jsub (Num y) headerTextHeight, jadd (jsub (Num y) headerTextHeight) headerTextHeight)]
                    else [])"
    and "present = (str_truthy (meta_rhythm (tune_metaText tune))
                    \<or> str_truthy (meta_origin (tune_metaText tune))
                    \<or> str_truthy (meta_composer (tune_metaText tune)))"
  shows "\<exists>st' rest. engraveTopText E st width tune = Inr st' \<and> proceeds st (bracket @ rest) st'
            \<and> jadd (jsub (Num y) headerTextHeight) headerTextHeight = Num y
            \<and> list_all (\<lambda>s. unlowered s \<or> minus_six s) rest
            \<and> (if present then \<exists>a. filter (\<lambda>s. \<not> unlowered s) rest = [(Num a, Num (a + - 6))]
                else filter (\<lambda>s. \<not> unlowered s) rest = [])
            \<and> lawful (bracket @ rest)
            \<and> length (filter (\<lambda>s. \<not> unlowered s) (bracket @ rest)) \<le> 2"
proof -
  obtain h where h: "headerTextHeight = Num h" "0 \<le> h"
    unfolding assms(7) using getTextSize_nonneg [OF assms(1)] by blast
  have br: "bracket = (if meta_header (tune_metaText tune) \<noteq> None \<and> isPrint (fst st)
                    then [(Num y, Num (y - h)), (Num (y - h), Num (y - h + h))] else [])"
    unfolding assms(8) h(1) by simp
  define sA where "sA = header_block E st width tune"
  define sB where "sB = top_space_block sA"
  define sC where "sC = title_block E sB width tune"
  define sD where "sD = subtitle_block E sC width tune"
  have pA: "proceeds st bracket sA"
    unfolding sA_def by (rule header_block_steps [OF assms(6) h(1) [unfolded assms(7)] br])
  note fA = proceeds_frame [OF pA]
  obtain yA where yA: "this_y (fst sA) = Num yA" using proceeds_y [OF pA] by blast
  obtain nB where pB: "proceeds sA nB sB" and uB: "list_all unlowered nB"
    unfolding sB_def using top_space_block_steps [OF _ yA] assms(2) fA(1) by auto
  note fB = proceeds_frame [OF pB]
  obtain yB where yB: "this_y (fst sB) = Num yB" using proceeds_y [OF pB] by blast
  obtain nC where pC: "proceeds sB nC sC" and uC: "list_all unlowered nC"
    unfolding sC_def using title_block_steps [OF assms(1) _ yB] assms(3) fA(1) fB(1) by auto
  note fC = proceeds_frame [OF pC]
  obtain yC where yC: "this_y (fst sC) = Num yC" using proceeds_y [OF pC] by blast
  obtain nD where pD: "proceeds sC nD sD" and uD: "list_all unlowered nD"
    unfolding sD_def using subtitle_block_steps [OF assms(1) _ yC] assms(4) fA(1) fB(1) fC(1) by auto
  note fD = proceeds_frame [OF pD]
  obtain yD where yD: "this_y (fst sD) = Num yD" using proceeds_y [OF pD] by blast
  have cD: "nonneg (spacing_composer (this_spacing (fst sD)))"
    using assms(5) fA(1) fB(1) fC(1) fD(1) by simp
  obtain sE nE where eE: "composer_block E sD width tune = Inr sE" and pE: "proceeds sD nE sE"
    and nE: "if present
             then \<exists>c H. 0 \<le> c \<and> 0 \<le> H
                    \<and> nE = [(Num yD, Num (yD + c)), (Num (yD + c), Num (yD + c + H)),
                            (Num (yD + c + H), Num (yD + c + H + - 6))]
             else nE = []"
    using composer_block_steps [OF assms(1) cD yD assms(9)] by blast
  obtain yE where yE: "this_y (fst sE) = Num yE" using proceeds_y [OF pE] by blast
  define sF where "sF = author_block E sE width tune"
  obtain nF where pF: "proceeds sE nF sF" and uF: "list_all unlowered nF"
    unfolding sF_def using author_block_steps [OF assms(1) yE] by blast
  obtain yF where yF: "this_y (fst sF) = Num yF" using proceeds_y [OF pF] by blast
  define sG where "sG = partOrder_block E sF width tune"
  obtain nG where pG: "proceeds sF nG sG" and uG: "list_all unlowered nG"
    unfolding sG_def using partOrder_block_steps [OF assms(1) yF] by blast
  define rest where "rest = nB @ nC @ nD @ nE @ nF @ nG"
  have eq: "engraveTopText E st width tune = Inr sG"
    unfolding engraveTopText_def sG_def sF_def
    using eE unfolding sD_def sC_def sB_def sA_def by (simp add: bindE_def)
  have p: "proceeds st (bracket @ rest) sG"
    unfolding rest_def
    by (rule proceeds_trans [OF pA proceeds_trans [OF pB proceeds_trans [OF pC proceeds_trans [OF pD
          proceeds_trans [OF pE proceeds_trans [OF pF pG]]]]]])
  have mE: "list_all (\<lambda>s. unlowered s \<or> minus_six s) nE"
    using nE by (auto simp add: unlowered_def minus_six_def split: if_splits)
  have fE: "if present then \<exists>a. filter (\<lambda>s. \<not> unlowered s) nE = [(Num a, Num (a + - 6))]
            else filter (\<lambda>s. \<not> unlowered s) nE = []"
    using nE by (auto simp add: unlowered_def split: if_splits)
  have m: "list_all (\<lambda>s. unlowered s \<or> minus_six s) rest"
    unfolding rest_def using mE unlowered_weaken [OF uB] unlowered_weaken [OF uC]
      unlowered_weaken [OF uD] unlowered_weaken [OF uF] unlowered_weaken [OF uG]
    by simp
  have f: "filter (\<lambda>s. \<not> unlowered s) rest = filter (\<lambda>s. \<not> unlowered s) nE"
    unfolding rest_def
    by (simp add: unlowered_filter [OF uB] unlowered_filter [OF uC] unlowered_filter [OF uD]
        unlowered_filter [OF uF] unlowered_filter [OF uG])
  have lb: "lawful bracket"
    unfolding assms(8) h(1) by (simp add: bracket_lawful [OF h(2)] del: lawful.simps(2,3))
  have l: "lawful (bracket @ rest)"
    by (rule lawful_append [OF lb mild_lawful [OF m]])
  have r: "jadd (jsub (Num y) headerTextHeight) headerTextHeight = Num y"
    unfolding h(1) by simp
  have fR: "if present then \<exists>a. filter (\<lambda>s. \<not> unlowered s) rest = [(Num a, Num (a + - 6))]
            else filter (\<lambda>s. \<not> unlowered s) rest = []"
    unfolding f by (rule fE)
  have cb: "length (filter (\<lambda>s. \<not> unlowered s) bracket) \<le> 1"
    unfolding assms(8) h(1) using h(2) by (simp add: unlowered_def)
  have cr: "length (filter (\<lambda>s. \<not> unlowered s) rest) \<le> 1"
    using fR by (auto split: if_splits)
  have c: "length (filter (\<lambda>s. \<not> unlowered s) (bracket @ rest)) \<le> 2"
    using cb cr by simp
  from eq p r m fR l c show ?thesis by blast
qed

lemma moveY_traced_nonneg:
  assumes "this_y (fst st) = Num y" and "nonneg (jmul em (case n of None \<Rightarrow> Num 1 | Some k \<Rightarrow> k))"
  shows "\<exists>new. proceeds st new (moveY_traced st em n) \<and> list_all unlowered new"
proof -
  obtain a where a: "jmul em (case n of None \<Rightarrow> Num 1 | Some k \<Rightarrow> k) = Num a" "0 \<le> a"
    using nonneg_Num [OF assms(2)] by blast
  have "proceeds st [(Num y, Num (y + a))] (moveY_traced st em n)"
    using assms(1) a(1) by (simp add: proceeds_def moveY_traced_eq moveY_y)
  moreover have "list_all unlowered [(Num y, Num (y + a))]"
    using a(2) by (simp add: unlowered_def)
  ultimately show ?thesis by blast
qed

lemma moveY_traced_once:
  assumes "this_y (fst st) = Num y" and "nonneg em"
  shows "\<exists>new. proceeds st new (moveY_traced st em None) \<and> list_all unlowered new"
  using moveY_traced_nonneg [OF assms(1), of em None] assms(2) by simp

lemma proceeds_both:
  assumes "proceeds st xs st'" and "list_all unlowered xs"
    and "proceeds st' ys st''" and "list_all unlowered ys"
  shows "\<exists>new. proceeds st new st'' \<and> list_all unlowered new"
  using proceeds_trans [OF assms(1,3)] assms(2,4) by (intro exI [of _ "xs @ ys"]) simp

lemma paper_proceeds:
  assumes "this_y (fst st) = Num y"
  shows "proceeds st [] ((fst st)\<lparr>paper := p\<rparr>, snd st)"
  using assms by (simp add: proceeds_def)

lemma topMargin_steps:
  assumes "this_y (fst st) = Num y" and "nonneg (ToNumber (padding (fst st) ''top''))"
  shows "\<exists>new. proceeds st new (topMargin st tune) \<and> list_all unlowered new"
  unfolding topMargin_def by (rule moveY_traced_once [OF assms])

lemma addMusicPadding_steps:
  assumes "this_y (fst st) = Num y" and "nonneg (spacing_music (this_spacing (fst st)))"
  shows "\<exists>new. proceeds st new (addMusicPadding st) \<and> list_all unlowered new"
  unfolding addMusicPadding_def by (rule moveY_traced_once [OF assms])

lemma skipSpaceY_steps:
  assumes "this_y (fst st) = Num y" and "nonneg (SPACE E)"
  shows "\<exists>new. proceeds st new (skipSpaceY E st) \<and> list_all unlowered new"
proof -
  obtain a where a: "SPACE E = Num a" "0 \<le> a" using nonneg_Num [OF assms(2)] by blast
  have "proceeds st [(Num y, Num (y + 3 * a))] (skipSpaceY E st)"
    unfolding skipSpaceY_def a(1) using assign_y_proceeds [of st "y + 3 * a"] assms(1) by simp
  moreover have "list_all unlowered [(Num y, Num (y + 3 * a))]"
    using a(2) by (simp add: unlowered_def)
  ultimately show ?thesis by blast
qed

lemma outputSubtitle_steps:
  assumes "\<forall>t a. nonneg (snd (paper_getTextSize E t a))"
    and "this_y (fst st) = Num y" and "nonneg (spacing_subtitle (this_spacing (fst st)))"
  shows "\<exists>new. proceeds st new (outputSubtitle E st width subtitle) \<and> list_all unlowered new"
proof -
  obtain m where m: "spacing_subtitle (this_spacing (fst st)) = Num m" "0 \<le> m"
    using nonneg_Num [OF assms(3)] by blast
  have z: "Some (Num 0) = None \<or> (\<exists>b. Some (Num 0) = Some (Num b) \<and> 0 \<le> b)" by simp
  show ?thesis
    unfolding outputSubtitle_def m(1)
    using outputTextIf_traced_proceeds [OF assms(1,2) m(2) z] by blast
qed

lemma addStaffPadding_steps:
  assumes "this_y (fst st) = Num y"
    and "lastStaffGroup \<noteq> []" and "thisStaffGroup \<noteq> []"
    and "isFinite (staff_bottom (last lastStaffGroup))" and "isFinite (staff_top (hd thisStaffGroup))"
    and "isFinite (STEP E)" and "isFinite (spacing_staffSeparation (this_spacing (fst st)))"
  shows "\<exists>st' new. addStaffPadding E st lastStaffGroup thisStaffGroup = Inr st'
            \<and> proceeds st new st' \<and> list_all unlowered new"
proof -
  obtain b where b: "staff_bottom (last lastStaffGroup) = Num b"
    using assms(4) by (cases "staff_bottom (last lastStaffGroup)") simp_all
  obtain t where t: "staff_top (hd thisStaffGroup) = Num t"
    using assms(5) by (cases "staff_top (hd thisStaffGroup)") simp_all
  obtain s where s: "STEP E = Num s" using assms(6) by (cases "STEP E") simp_all
  obtain sep where sep: "spacing_staffSeparation (this_spacing (fst st)) = Num sep"
    using assms(7) by (cases "spacing_staffSeparation (this_spacing (fst st))") simp_all
  define px where "px = (t - 10 + - (b - 2)) * s"
  show ?thesis
  proof (cases "px < sep")
    case True
    have e: "addStaffPadding E st lastStaffGroup thisStaffGroup = Inr (moveY_traced st (Num (sep - px)) None)"
      using True assms(2,3) by (simp add: addStaffPadding_def Let_def b t s sep px_def)
    have "nonneg (Num (sep - px))" using True by simp
    from moveY_traced_once [OF assms(1) this] show ?thesis unfolding e by blast
  next
    case False
    have e: "addStaffPadding E st lastStaffGroup thisStaffGroup = Inr st"
      using False assms(2,3) by (simp add: addStaffPadding_def Let_def b t s sep px_def)
    have "proceeds st [] st" using assms(1) by (simp add: proceeds_refl)
    then show ?thesis unfolding e by force
  qed
qed

lemma printSeparator_proceeds:
  assumes "this_y (fst st) = Num y"
  shows "proceeds st [] (printSeparator E (fst st) w, snd st)"
  using assms by (simp add: proceeds_def printSeparator_def Let_def)

lemma outputSeparator_steps:
  assumes "this_y (fst st) = Num y"
    and "\<not> truthy (sep_lineLength separator)
         \<or> nonneg (sep_spaceAbove separator) \<and> nonneg (sep_spaceBelow separator)"
  shows "\<exists>new. proceeds st new (outputSeparator E st separator) \<and> list_all unlowered new"
proof (cases "truthy (sep_lineLength separator)")
  case False
  have "proceeds st [] st" using assms(1) by (simp add: proceeds_refl)
  then show ?thesis using False by (force simp add: outputSeparator_def)
next
  case True
  then have n: "nonneg (sep_spaceAbove separator)" "nonneg (sep_spaceBelow separator)"
    using assms(2) by simp_all
  define st1 where "st1 = moveY_traced st (sep_spaceAbove separator) None"
  define st2 where "st2 = (printSeparator E (fst st1) (sep_lineLength separator), snd st1)"
  obtain n1 where p1: "proceeds st n1 st1" and u1: "list_all unlowered n1"
    unfolding st1_def using moveY_traced_once [OF assms(1) n(1)] by blast
  obtain y1 where y1: "this_y (fst st1) = Num y1" using proceeds_y [OF p1] by blast
  have p2: "proceeds st1 [] st2" unfolding st2_def by (rule printSeparator_proceeds [OF y1])
  have y2: "this_y (fst st2) = Num y1" using proceeds_nil [OF p2] y1 by simp
  obtain n3 where p3: "proceeds st2 n3 (moveY_traced st2 (sep_spaceBelow separator) None)"
    and u3: "list_all unlowered n3"
    using moveY_traced_once [OF y2 n(2)] by blast
  have e: "outputSeparator E st separator = moveY_traced st2 (sep_spaceBelow separator) None"
    using True by (simp add: outputSeparator_def Let_def st2_def st1_def)
  have "proceeds st (n1 @ [] @ n3) (moveY_traced st2 (sep_spaceBelow separator) None)"
    by (rule proceeds_trans [OF p1 proceeds_trans [OF p2 p3]])
  then show ?thesis unfolding e using u1 u3 by (intro exI [of _ "n1 @ [] @ n3"]) simp
qed

lemma outputTextIf_traced_plain:
  assumes "\<forall>t a. nonneg (snd (paper_getTextSize E t a))"
    and "this_y (fst st) = Num y" and "0 \<le> b"
  shows "\<exists>new. proceeds st new (snd (outputTextIf_traced E st x str kind klass (Num 0) (Some (Num b)) al nc))
            \<and> list_all unlowered new"
proof -
  have z: "Some (Num b) = None \<or> (\<exists>c. Some (Num b) = Some (Num c) \<and> 0 \<le> c)" using assms(3) by simp
  have o: "(0::real) \<le> 0" by simp
  show ?thesis using outputTextIf_traced_proceeds [OF assms(1,2) o z] by blast
qed

lemma outputFreeText_steps:
  assumes "\<forall>t a. nonneg (snd (paper_getTextSize E t a))"
    and "this_y (fst st) = Num y"
    and "\<not> truthy vskip \<or> nonneg vskip"
    and "nonneg (attr_font_size (snd (getFontAndAttr (fst st) (FontKey ''textfont'') ''defined-text'')))"
  shows "\<exists>new. proceeds st new (outputFreeText E st freeText vskip) \<and> list_all unlowered new"
proof -
  define st1 where "st1 = (if truthy vskip then moveY_traced st vskip None else st)"
  obtain n1 where p1: "proceeds st n1 st1" and u1: "list_all unlowered n1"
  proof (cases "truthy vskip")
    case True
    then have "nonneg vskip" using assms(3) by simp
    from moveY_traced_once [OF assms(2) this] show ?thesis
      using that True unfolding st1_def by auto
  next
    case False
    have "proceeds st [] st" using assms(2) by (simp add: proceeds_refl)
    then show ?thesis using that False unfolding st1_def by force
  qed
  obtain y1 where y1: "this_y (fst st1) = Num y1" using proceeds_y [OF p1] by blast
  have f: "getFontAndAttr (fst st1) (FontKey ''textfont'') ''defined-text''
             = getFontAndAttr (fst st) (FontKey ''textfont'') ''defined-text''"
    by (rule getFontAndAttr_abctune) (rule proceeds_frame(3) [OF p1])
  obtain fs where fs: "attr_font_size (snd (getFontAndAttr (fst st) (FontKey ''textfont'') ''defined-text'')) = Num fs"
    "0 \<le> fs"
    using nonneg_Num [OF assms(4)] by blast
  have "\<exists>new. proceeds st1 new (outputFreeText E st freeText vskip) \<and> list_all unlowered new"
  proof (cases freeText)
    case (FreeString str)
    show ?thesis
    proof (cases "str = []")
      case True
      have e: "outputFreeText E st freeText vskip = moveY_traced st1 (Num (fs * 2)) None"
        unfolding outputFreeText_def FreeString st1_def [symmetric] f
        using True by (simp add: Let_def case_prod_beta f fs(1))
      have "nonneg (Num (fs * 2))" using fs(2) by simp
      from moveY_traced_once [OF y1 this] show ?thesis unfolding e .
    next
      case False
      define st2 where "st2 = moveY_traced st1 (Num (fs / 2)) None"
      have e: "outputFreeText E st freeText vskip =
                 snd (outputTextIf_traced E st2 (padding_left (fst st2)) (Some str)
                          (FontKey ''textfont'') ''defined-text'' (Num 0) (Some (Num 0)) ''start'' False)"
        unfolding outputFreeText_def FreeString st1_def [symmetric] f st2_def
        using False by (simp add: Let_def case_prod_beta f fs(1))
      have "nonneg (Num (fs / 2))" using fs(2) by simp
      from moveY_traced_once [OF y1 this]
      obtain n2 where p2: "proceeds st1 n2 st2" and u2: "list_all unlowered n2"
        unfolding st2_def by blast
      obtain y2 where y2: "this_y (fst st2) = Num y2" using proceeds_y [OF p2] by blast
      have o: "(0::real) \<le> 0" by simp
      from outputTextIf_traced_plain [OF assms(1) y2 o]
      obtain n3 where p3: "proceeds st2 n3 (snd (outputTextIf_traced E st2 (padding_left (fst st2)) (Some str)
                          (FontKey ''textfont'') ''defined-text'' (Num 0) (Some (Num 0)) ''start'' False))"
        and u3: "list_all unlowered n3" by blast
      show ?thesis unfolding e by (rule proceeds_both [OF p2 u2 p3 u3])
    qed
  next
    case (FreeParts parts)
    have o: "(0::real) \<le> 1" by simp
    show ?thesis
      unfolding outputFreeText_def FreeParts st1_def [symmetric]
      using outputTextIf_traced_plain [OF assms(1) y1 o]
      by (simp add: Let_def case_prod_beta)
  qed
  then obtain n2 where p2: "proceeds st1 n2 (outputFreeText E st freeText vskip)"
    and u2: "list_all unlowered n2" by blast
  show ?thesis by (rule proceeds_both [OF p1 u1 p2 u2])
qed

lemma unaligned_words_frame:
  assumes "\<forall>t a. nonneg (snd (paper_getTextSize E t a))" and "0 \<le> l"
  shows "\<exists>l'. 0 \<le> l'
           \<and> fst (fst (unaligned_words E spaceWidth self (Num l, offsetX) ws)) = Num l'
           \<and> this_y (snd (unaligned_words E spaceWidth self (Num l, offsetX) ws)) = this_y self
           \<and> this_spacing (snd (unaligned_words E spaceWidth self (Num l, offsetX) ws)) = this_spacing self
           \<and> isPrint (snd (unaligned_words E spaceWidth self (Num l, offsetX) ws)) = isPrint self
           \<and> this_abctune (snd (unaligned_words E spaceWidth self (Num l, offsetX) ws)) = this_abctune self
           \<and> padding (snd (unaligned_words E spaceWidth self (Num l, offsetX) ws)) = padding self"
  using assms(2)
proof (induction ws arbitrary: self l offsetX)
  case Nil
  then show ?case by simp
next
  case (Cons w ws)
  define type where "type = (case word_font w of Some f \<Rightarrow> FontDesc f | None \<Rightarrow> FontKey ''wordsfont'')"
  define s1 where "s1 = snd (renderText E self (jadd (jadd (padding_left self) (INDENT E)) offsetX) (this_y self)
                      (word_text w) type ''meta-bottom unaligned-words'' ''start'' True None)"
  obtain h where h: "snd (getTextSize E s1 (word_text w) type ''meta-bottom unaligned-words'') = Num h" "0 \<le> h"
    using getTextSize_nonneg [OF assms(1)] by blast
  define off where "off = (if word_text w \<noteq> [] \<and> last (word_text w) = CHR '' ''
        then jadd (jadd offsetX (fst (getTextSize E s1 (word_text w) type ''meta-bottom unaligned-words''))) spaceWidth
        else jadd offsetX (fst (getTextSize E s1 (word_text w) type ''meta-bottom unaligned-words'')))"
  have "unaligned_words E spaceWidth self (Num l, offsetX) (w # ws) =
             unaligned_words E spaceWidth s1
               (Math_max (Num l) (snd (getTextSize E s1 (word_text w) type ''meta-bottom unaligned-words'')), off) ws"
    unfolding off_def s1_def type_def unaligned_words.simps Let_def case_prod_beta fst_conv snd_conv
    by (rule refl)
  then have e: "unaligned_words E spaceWidth self (Num l, offsetX) (w # ws) =
             unaligned_words E spaceWidth s1 (Num (max l h), off) ws"
    unfolding h(1) Math_max_Num .
  have m: "0 \<le> max l h" using Cons.prems by simp
  have fr: "this_y s1 = this_y self" "this_spacing s1 = this_spacing self" "isPrint s1 = isPrint self"
    "this_abctune s1 = this_abctune self" "padding s1 = padding self"
    by (simp_all add: s1_def)
  show ?case
    unfolding e using Cons.IH [OF m, of s1 off] fr by simp
qed

lemma unaligned_lines_steps:
  assumes "\<forall>t a. nonneg (snd (paper_getTextSize E t a))" and "nonneg fontSize"
    and "this_y (fst st) = Num y"
  shows "\<exists>new. proceeds st new (unaligned_lines E fontSize spaceWidth st items) \<and> list_all unlowered new"
  using assms(3)
proof (induction items arbitrary: st y)
  case Nil
  have "proceeds st [] st" using Nil by (simp add: proceeds_refl)
  then show ?case by force
next
  case (Cons item items)
  have "\<exists>st1 n1. unaligned_lines E fontSize spaceWidth st (item # items)
                    = unaligned_lines E fontSize spaceWidth st1 items
                 \<and> proceeds st n1 st1 \<and> list_all unlowered n1"
  proof (cases item)
    case (WordsString str)
    show ?thesis
    proof (cases "str = []")
      case True
      have "nonneg (jmul fontSize (case Some (Num 1) of None \<Rightarrow> Num 1 | Some k \<Rightarrow> k))"
        using assms(2) by simp
      from moveY_traced_nonneg [OF Cons.prems this]
      obtain n1 where "proceeds st n1 (moveY_traced st fontSize (Some (Num 1)))" "list_all unlowered n1"
        by blast
      then show ?thesis
        unfolding WordsString using True
        by (intro exI [of _ "moveY_traced st fontSize (Some (Num 1))"] exI [of _ n1]) simp
    next
      case False
      have o: "(0::real) \<le> 0" by simp
      define st1 where "st1 = snd (outputTextIf_traced E st (jadd (padding_left (fst st)) (INDENT E)) (Some str)
                     (FontKey ''wordsfont'') ''meta-bottom unaligned-words'' (Num 0) (Some (Num 0))
                     ''start'' True)"
      from outputTextIf_traced_plain [OF assms(1) Cons.prems o]
      obtain n1 where "proceeds st n1 st1" "list_all unlowered n1"
        unfolding st1_def by blast
      then show ?thesis
        unfolding WordsString using False
        by (intro exI [of _ st1] exI [of _ n1]) (simp add: st1_def)
    qed
  next
    case (WordsParts ws)
    have o: "(0::real) \<le> 0" by simp
    obtain l' where l': "0 \<le> l'"
      "fst (fst (unaligned_words E spaceWidth (fst st) (Num 0, Num 0) ws)) = Num l'"
      "this_y (snd (unaligned_words E spaceWidth (fst st) (Num 0, Num 0) ws)) = this_y (fst st)"
      "this_spacing (snd (unaligned_words E spaceWidth (fst st) (Num 0, Num 0) ws)) = this_spacing (fst st)"
      "isPrint (snd (unaligned_words E spaceWidth (fst st) (Num 0, Num 0) ws)) = isPrint (fst st)"
      "this_abctune (snd (unaligned_words E spaceWidth (fst st) (Num 0, Num 0) ws)) = this_abctune (fst st)"
      "padding (snd (unaligned_words E spaceWidth (fst st) (Num 0, Num 0) ws)) = padding (fst st)"
      using unaligned_words_frame [OF assms(1) o, where spaceWidth = spaceWidth and self = "fst st"
          and offsetX = "Num 0" and ws = ws] by blast
    define s1 where "s1 = snd (unaligned_words E spaceWidth (fst st) (Num 0, Num 0) ws)"
    have p1: "proceeds st [] (s1, snd st)"
      unfolding proceeds_def s1_def using l'(3-7) Cons.prems by simp
    have y1: "this_y (fst (s1, snd st)) = Num y" unfolding s1_def using l'(3) Cons.prems by simp
    have "nonneg (jmul (Num l') (case Some (Num 1) of None \<Rightarrow> Num 1 | Some k \<Rightarrow> k))"
      using l'(1) by simp
    from moveY_traced_nonneg [OF y1 this]
    obtain n2 where p2: "proceeds (s1, snd st) n2 (moveY_traced (s1, snd st) (Num l') (Some (Num 1)))"
      and u2: "list_all unlowered n2" by blast
    have e: "unaligned_lines E fontSize spaceWidth st (item # items)
               = unaligned_lines E fontSize spaceWidth (moveY_traced (s1, snd st) (Num l') (Some (Num 1))) items"
      unfolding WordsParts by (simp add: case_prod_beta s1_def l'(2))
    show ?thesis
      unfolding e using proceeds_trans [OF p1 p2] u2
      by (intro exI [of _ "moveY_traced (s1, snd st) (Num l') (Some (Num 1))"] exI [of _ "[] @ n2"]) simp
  qed
  then obtain st1 n1 where e: "unaligned_lines E fontSize spaceWidth st (item # items)
                    = unaligned_lines E fontSize spaceWidth st1 items"
    and p1: "proceeds st n1 st1" and u1: "list_all unlowered n1" by blast
  obtain y1 where y1: "this_y (fst st1) = Num y1" using proceeds_y [OF p1] by blast
  from Cons.IH [OF y1] obtain n2 where p2: "proceeds st1 n2 (unaligned_lines E fontSize spaceWidth st1 items)"
    and u2: "list_all unlowered n2" by blast
  show ?case unfolding e by (rule proceeds_both [OF p1 u1 p2 u2])
qed

lemma words_block_steps:
  assumes "\<forall>t a. nonneg (snd (paper_getTextSize E t a))"
    and "this_y (fst st) = Num y"
    and "nonneg (spacing_words (this_spacing (fst st)))"
    and "nonneg (font_size (fst (getFontAndAttr (fst st) (FontKey ''wordsfont'')
                                   ''meta-bottom unaligned-words'')))"
  shows "\<exists>new. proceeds st new (words_block E st tune) \<and> list_all unlowered new"
proof (cases "meta_unalignedWords (tune_metaText tune) = []")
  case True
  have "proceeds st [] st" using assms(2) by (simp add: proceeds_refl)
  then show ?thesis using True by (force simp add: words_block_def)
next
  case False
  define fontSize where "fontSize = font_size (fst (getFontAndAttr (fst st) (FontKey ''wordsfont'')
                                   ''meta-bottom unaligned-words''))"
  define spaceWidth where "spaceWidth = fst (getTextSize E (fst st) ''i'' (FontKey ''wordsfont'')
                                 ''meta-bottom unaligned-words'')"
  define st1 where "st1 = moveY_traced st (spacing_words (this_spacing (fst st))) (Some (Num 1))"
  define st2 where "st2 = ((fst st1)\<lparr>paper := paper (fst st1) @
                       [PaperOpenGroup (Some ''abcjs-meta-bottom abcjs-unaligned-words'')]\<rparr>, snd st1)"
  define st3 where "st3 = unaligned_lines E fontSize spaceWidth st2 (meta_unalignedWords (tune_metaText tune))"
  define st4 where "st4 = moveY_traced st3 fontSize (Some (Num 2))"
  have e: "words_block E st tune = ((fst st4)\<lparr>paper := paper (fst st4) @ [PaperCloseGroup]\<rparr>, snd st4)"
    unfolding words_block_def st4_def st3_def st2_def st1_def fontSize_def spaceWidth_def
    using False by (simp add: Let_def case_prod_beta)
  have "nonneg (jmul (spacing_words (this_spacing (fst st))) (case Some (Num 1) of None \<Rightarrow> Num 1 | Some k \<Rightarrow> k))"
    using assms(3) by simp
  from moveY_traced_nonneg [OF assms(2) this]
  obtain n1 where p1: "proceeds st n1 st1" and u1: "list_all unlowered n1"
    unfolding st1_def by blast
  obtain y1 where y1: "this_y (fst st1) = Num y1" using proceeds_y [OF p1] by blast
  have p2: "proceeds st1 [] st2" unfolding st2_def by (rule paper_proceeds [OF y1])
  have y2: "this_y (fst st2) = Num y1" using proceeds_nil [OF p2] y1 by simp
  have fs: "nonneg fontSize" unfolding fontSize_def by (rule assms(4))
  from unaligned_lines_steps [OF assms(1) fs y2]
  obtain n3 where p3: "proceeds st2 n3 st3" and u3: "list_all unlowered n3"
    unfolding st3_def by blast
  obtain y3 where y3: "this_y (fst st3) = Num y3" using proceeds_y [OF p3] by blast
  obtain f where f: "fontSize = Num f" "0 \<le> f" using nonneg_Num [OF fs] by blast
  have "nonneg (jmul fontSize (case Some (Num 2) of None \<Rightarrow> Num 1 | Some k \<Rightarrow> k))"
    using f by simp
  from moveY_traced_nonneg [OF y3 this]
  obtain n4 where p4: "proceeds st3 n4 st4" and u4: "list_all unlowered n4"
    unfolding st4_def by blast
  obtain y4 where y4: "this_y (fst st4) = Num y4" using proceeds_y [OF p4] by blast
  have p5: "proceeds st4 [] ((fst st4)\<lparr>paper := paper (fst st4) @ [PaperCloseGroup]\<rparr>, snd st4)"
    by (rule paper_proceeds [OF y4])
  have "proceeds st (n1 @ [] @ n3 @ n4 @ []) (words_block E st tune)"
    unfolding e
    by (rule proceeds_trans [OF p1 proceeds_trans [OF p2 proceeds_trans [OF p3 proceeds_trans [OF p4 p5]]]])
  then show ?thesis using u1 u3 u4 by (intro exI [of _ "n1 @ [] @ n3 @ n4 @ []"]) simp
qed

lemma extraText_block_steps:
  assumes "\<forall>t a. nonneg (snd (paper_getTextSize E t a))"
    and "this_y (fst st) = Num y" and "nonneg (spacing_info (this_spacing (fst st)))"
  shows "\<exists>new. proceeds st new (extraText_block E st tune) \<and> list_all unlowered new"
proof -
  obtain m where m: "spacing_info (this_spacing (fst st)) = Num m" "0 \<le> m"
    using nonneg_Num [OF assms(3)] by blast
  have z: "Some (Num 0) = None \<or> (\<exists>b. Some (Num 0) = Some (Num b) \<and> 0 \<le> b)" by simp
  show ?thesis
  proof (cases "0 < length (extraText (tune_metaText tune))")
    case True
    then show ?thesis
      unfolding extraText_block_def m(1)
      using outputTextIf_traced_proceeds [OF assms(1,2) m(2) z] by auto
  next
    case False
    have "proceeds st [] st" using assms(2) by (simp add: proceeds_refl)
    then show ?thesis using False by (force simp add: extraText_block_def)
  qed
qed

lemma footer_block_steps:
  assumes "this_y (fst st) = Num y"
  shows "proceeds st [] (footer_block E st width tune)"
proof (cases "meta_footer (tune_metaText tune) \<noteq> None \<and> isPrint (fst st)")
  case False
  then show ?thesis
    using assms by (auto simp add: footer_block_def proceeds_def split: option.splits)
next
  case True
  then obtain ftr where ftr: "meta_footer (tune_metaText tune) = Some ftr" and pr: "isPrint (fst st)"
    by auto
  define st1 where "st1 = snd (outputTextIf_traced E st (padding_left (fst st)) (header_left ftr)
                              (FontKey ''footerfont'') ''header meta-bottom'' (Num 0) None ''start'' False)"
  define st2 where "st2 = snd (outputTextIf_traced E st1 (jadd (padding_left (fst st1)) (jdiv width (Num 2)))
                              (header_center ftr)
                              (FontKey ''footerfont'') ''header meta-bottom'' (Num 0) None ''middle'' False)"
  define st3 where "st3 = snd (outputTextIf_traced E st2 (jadd (padding_left (fst st2)) width) (header_right ftr)
                       (FontKey ''footerfont'') ''header meta-bottom'' (Num 0) None ''end'' False)"
  have e: "footer_block E st width tune = st3"
    unfolding footer_block_def ftr st3_def st2_def st1_def using pr by (simp add: Let_def)
  have p1: "proceeds st [] st1" unfolding st1_def by (rule outputTextIf_traced_still [OF assms])
  have y1: "this_y (fst st1) = Num y" using proceeds_nil [OF p1] assms by simp
  have p2: "proceeds st1 [] st2" unfolding st2_def by (rule outputTextIf_traced_still [OF y1])
  have y2: "this_y (fst st2) = Num y" using proceeds_nil [OF p2] y1 by simp
  have p3: "proceeds st2 [] st3" unfolding st3_def by (rule outputTextIf_traced_still [OF y2])
  show ?thesis
    unfolding e using proceeds_trans [OF p1 proceeds_trans [OF p2 p3]] by simp
qed

lemma engraveExtraText_steps:
  assumes "\<forall>t a. nonneg (snd (paper_getTextSize E t a))"
    and "this_y (fst st) = Num y"
    and "nonneg (spacing_words (this_spacing (fst st)))"
    and "nonneg (spacing_info (this_spacing (fst st)))"
    and "nonneg (font_size (fst (getFontAndAttr (fst st) (FontKey ''wordsfont'')
                                   ''meta-bottom unaligned-words'')))"
  shows "\<exists>new. proceeds st new (engraveExtraText E st width tune) \<and> list_all unlowered new"
proof -
  obtain n1 where p1: "proceeds st n1 (words_block E st tune)" and u1: "list_all unlowered n1"
    using words_block_steps [OF assms(1,2,3,5)] by blast
  obtain y1 where y1: "this_y (fst (words_block E st tune)) = Num y1" using proceeds_y [OF p1] by blast
  have i: "nonneg (spacing_info (this_spacing (fst (words_block E st tune))))"
    using assms(4) proceeds_frame(1) [OF p1] by simp
  obtain n2 where p2: "proceeds (words_block E st tune) n2 (extraText_block E (words_block E st tune) tune)"
    and u2: "list_all unlowered n2"
    using extraText_block_steps [OF assms(1) y1 i] by blast
  obtain y2 where y2: "this_y (fst (extraText_block E (words_block E st tune) tune)) = Num y2"
    using proceeds_y [OF p2] by blast
  have p3: "proceeds (extraText_block E (words_block E st tune) tune) []
              (engraveExtraText E st width tune)"
    unfolding engraveExtraText_def by (rule footer_block_steps [OF y2])
  have "proceeds st (n1 @ n2 @ []) (engraveExtraText E st width tune)"
    by (rule proceeds_trans [OF p1 proceeds_trans [OF p2 p3]])
  then show ?thesis using u1 u2 by (intro exI [of _ "n1 @ n2 @ []"]) simp
qed

lemma permitted_frame:
  assumes "proceeds st xs st'"
  shows "permitted E (fst st') op = permitted E (fst st) op"
proof -
  note f = proceeds_frame [OF assms]
  have g: "getFontAndAttr (fst st') ty klass = getFontAndAttr (fst st) ty klass" for ty klass
    by (rule getFontAndAttr_abctune [OF f(3)])
  show ?thesis by (cases op) (simp_all add: f g)
qed

text \<open>
  Every call of a pass, made where the cursor is a number and with amounts that are not
  negative, takes steps that do not lower the cursor; only \<^verbatim>\<open>engraveTopText\<close> takes the
  steps of its bracket and its step by -6 besides.
\<close>

lemma plain_steps:
  assumes "\<exists>new. proceeds st new st' \<and> list_all unlowered new" and "perform E st op = Inr st'"
    and "\<not> is_EngraveTopText op"
  shows "\<exists>st' seg. perform E st op = Inr st' \<and> proceeds st seg st' \<and> call_steps op seg"
  using assms unfolding call_steps_def by auto

lemma perform_steps:
  assumes "\<forall>t a. nonneg (snd (paper_getTextSize E t a))"
    and "this_y (fst st) = Num y" and "permitted E (fst st) op"
  shows "\<exists>st' seg. perform E st op = Inr st' \<and> proceeds st seg st' \<and> call_steps op seg"
proof (cases op)
  case (TopMargin tune)
  have q: "nonneg (ToNumber (padding (fst st) ''top''))" using assms(3) unfolding TopMargin by simp
  show ?thesis
    unfolding TopMargin by (rule plain_steps [OF topMargin_steps [OF assms(2) q]]) simp_all
next
  case (EngraveTopText width tune)
  have p: "nonneg (spacing_top (this_spacing (fst st)))" "nonneg (spacing_title (this_spacing (fst st)))"
    "nonneg (spacing_subtitle (this_spacing (fst st)))" "nonneg (spacing_composer (this_spacing (fst st)))"
    using assms(3) unfolding EngraveTopText by simp_all
  define bracket where "bracket =
      (if meta_header (tune_metaText tune) \<noteq> None \<and> isPrint (fst st)
       then [(Num y, jsub (Num y) (snd (getTextSize E (fst st) ''XXXX'' (FontKey ''headerfont'')
                                          ''abcjs-header abcjs-meta-top''))),
             (jsub (Num y) (snd (getTextSize E (fst st) ''XXXX'' (FontKey ''headerfont'')
                                   ''abcjs-header abcjs-meta-top'')),
              jadd (jsub (Num y) (snd (getTextSize E (fst st) ''XXXX'' (FontKey ''headerfont'')
                                         ''abcjs-header abcjs-meta-top'')))
                   (snd (getTextSize E (fst st) ''XXXX'' (FontKey ''headerfont'')
                           ''abcjs-header abcjs-meta-top'')))]
       else [])"
  from engraveTopText_steps [OF assms(1) p assms(2) refl bracket_def refl, of width]
  obtain st' rest where e: "engraveTopText E st width tune = Inr st'"
    and pr: "proceeds st (bracket @ rest) st'" and l: "lawful (bracket @ rest)"
    and c: "length (filter (\<lambda>s. \<not> unlowered s) (bracket @ rest)) \<le> 2"
    by blast
  have "call_steps (EngraveTopText width tune) (bracket @ rest)"
    unfolding call_steps_def using l c by simp
  then show ?thesis
    unfolding EngraveTopText using e pr by (intro exI [of _ st'] exI [of _ "bracket @ rest"]) simp
next
  case AddMusicPadding
  have q: "nonneg (spacing_music (this_spacing (fst st)))" using assms(3) unfolding AddMusicPadding by simp
  show ?thesis
    unfolding AddMusicPadding by (rule plain_steps [OF addMusicPadding_steps [OF assms(2) q]]) simp_all
next
  case (AddStaffPadding l t)
  have p: "l \<noteq> []" "t \<noteq> []" "isFinite (staff_bottom (last l))" "isFinite (staff_top (hd t))"
    "isFinite (STEP E)" "isFinite (spacing_staffSeparation (this_spacing (fst st)))"
    using assms(3) unfolding AddStaffPadding by simp_all
  from addStaffPadding_steps [OF assms(2) p]
  obtain st' new where a: "addStaffPadding E st l t = Inr st'" and b: "proceeds st new st'"
    and c: "list_all unlowered new"
    by blast
  have "\<exists>new. proceeds st new st' \<and> list_all unlowered new" using b c by blast
  then show ?thesis
    unfolding AddStaffPadding by (rule plain_steps) (simp_all add: a)
next
  case (MoveY em numLines)
  have q: "nonneg (jmul em (case numLines of None \<Rightarrow> Num 1 | Some k \<Rightarrow> k))"
    using assms(3) unfolding MoveY by simp
  show ?thesis
    unfolding MoveY by (rule plain_steps [OF moveY_traced_nonneg [OF assms(2) q]]) simp_all
next
  case SkipSpaceY
  have q: "nonneg (SPACE E)" using assms(3) unfolding SkipSpaceY by simp
  show ?thesis
    unfolding SkipSpaceY by (rule plain_steps [OF skipSpaceY_steps [OF assms(2) q]]) simp_all
next
  case (OutputSubtitle width subtitle)
  have q: "nonneg (spacing_subtitle (this_spacing (fst st)))"
    using assms(3) unfolding OutputSubtitle by simp
  show ?thesis
    unfolding OutputSubtitle by (rule plain_steps [OF outputSubtitle_steps [OF assms(1,2) q]]) simp_all
next
  case (OutputSeparator separator)
  have q: "\<not> truthy (sep_lineLength separator)
         \<or> nonneg (sep_spaceAbove separator) \<and> nonneg (sep_spaceBelow separator)"
    using assms(3) unfolding OutputSeparator by simp
  show ?thesis
    unfolding OutputSeparator by (rule plain_steps [OF outputSeparator_steps [OF assms(2) q]]) simp_all
next
  case (OutputFreeText freeText vskip)
  have q: "\<not> truthy vskip \<or> nonneg vskip"
    "nonneg (attr_font_size (snd (getFontAndAttr (fst st) (FontKey ''textfont'') ''defined-text'')))"
    using assms(3) unfolding OutputFreeText by simp_all
  show ?thesis
    unfolding OutputFreeText by (rule plain_steps [OF outputFreeText_steps [OF assms(1,2) q]]) simp_all
next
  case (EngraveExtraText width tune)
  have q: "nonneg (spacing_words (this_spacing (fst st)))" "nonneg (spacing_info (this_spacing (fst st)))"
    "nonneg (font_size (fst (getFontAndAttr (fst st) (FontKey ''wordsfont'')
                                   ''meta-bottom unaligned-words'')))"
    using assms(3) unfolding EngraveExtraText by simp_all
  show ?thesis
    unfolding EngraveExtraText by (rule plain_steps [OF engraveExtraText_steps [OF assms(1,2) q]]) simp_all
qed

lemma call_steps_lawful: "call_steps op seg \<Longrightarrow> lawful seg"
  unfolding call_steps_def using unlowered_lawful by (auto split: if_splits)

lemma segments_lawful: "list_all2 call_steps ops segs \<Longrightarrow> lawful (concat segs)"
proof (induction ops arbitrary: segs)
  case Nil
  then show ?case by simp
next
  case (Cons op ops)
  then obtain seg rest where s: "segs = seg # rest" "call_steps op seg" "list_all2 call_steps ops rest"
    by (auto simp add: list_all2_Cons1)
  show ?case
    unfolding s(1) using lawful_append [OF call_steps_lawful [OF s(2)] Cons.IH [OF s(3)]] by simp
qed

lemma pass_steps:
  assumes "\<forall>t a. nonneg (snd (paper_getTextSize E t a))"
    and "this_y (fst st) = Num y" and "\<forall>op \<in> set ops. permitted E (fst st) op"
  shows "\<exists>st' segs. pass E st ops = Inr st' \<and> proceeds st (concat segs) st'
            \<and> list_all2 call_steps ops segs"
  using assms(2,3)
proof (induction ops arbitrary: st y)
  case Nil
  have "proceeds st (concat []) st" using Nil(1) by (simp add: proceeds_refl)
  then show ?case by force
next
  case (Cons op ops)
  have "permitted E (fst st) op" using Cons.prems(2) by simp
  from perform_steps [OF assms(1) Cons.prems(1) this]
  obtain st1 n1 where e1: "perform E st op = Inr st1" and p1: "proceeds st n1 st1"
    and l1: "call_steps op n1" by blast
  obtain y1 where y1: "this_y (fst st1) = Num y1" using proceeds_y [OF p1] by blast
  have "\<forall>op \<in> set ops. permitted E (fst st1) op"
    using Cons.prems(2) permitted_frame [OF p1] by simp
  from Cons.IH [OF y1 this]
  obtain st2 segs where e2: "pass E st1 ops = Inr st2" and p2: "proceeds st1 (concat segs) st2"
    and l2: "list_all2 call_steps ops segs" by blast
  have e: "pass E st (op # ops) = Inr st2" using e1 e2 by (simp add: bindE_def)
  have "proceeds st (concat (n1 # segs)) st2" using proceeds_trans [OF p1 p2] by simp
  moreover have "list_all2 call_steps (op # ops) (n1 # segs)" using l1 l2 by simp
  ultimately show ?case using e by blast
qed



lemma outputTextIf_traced_unmoved:
  "snd (outputTextIf_traced E st x str kind klass (Num 0) None al nc) =
     (snd (outputTextIf E (fst st) x str kind klass (Num 0) None al nc), snd st)"
  by (simp add: outputTextIf_traced_eq)

lemma fallback_height:
  assumes "formatting_font (this_abctune s) k = None"
    and "paper_getTextSize E t (snd (getFontAndAttr s (FontKey k) klass)) = (w, Num h)"
    and "t \<noteq> []"
  shows "snd (getTextSize E s t (FontKey k) klass) = Num h"
    and "fst (snd (fst (outputTextIf E s x (Some t) (FontKey k) klass mt mb al nc))) = Num h"
    and "\<not> font_box (fst (getFontAndAttr s (FontKey k) klass))"
proof -
  have f: "fst (getFontAndAttr s (FontKey k) klass) = fallback_font"
    by (simp add: getFontAndAttr_def assms(1) Let_def)
  show b: "\<not> font_box (fst (getFontAndAttr s (FontKey k) klass))"
    unfolding f by (simp add: fallback_font_def)
  show g: "snd (getTextSize E s t (FontKey k) klass) = Num h"
    using b by (simp add: getTextSize_def case_prod_beta assms(2))
  show "fst (snd (fst (outputTextIf E s x (Some t) (FontKey k) klass mt mb al nc))) = Num h"
    unfolding outputTextIf_truthy [OF assms(3)] using b g by (simp add: Let_def)
qed

lemma rhythm_renderer_eq:
  "rhythm_renderer = (new_renderer rhythm_tune)\<lparr>this_spacing := default_spacing\<lparr>spacing_composer := Num 0\<rparr>\<rparr>"
  by (simp add: rhythm_renderer_def setVerticalSpace_def rhythm_tune_def plain_tune_def new_renderer_def Let_def)

lemma rhythm_trace:
  "trace_of (engraveTopText small_text_extern (rhythm_renderer, []) (Num 500) rhythm_tune)
     = Some [(Num 0, Num 0), (Num 0, Num 4), (Num 4, Num (- 2))]"
proof -
  have y0: "this_y rhythm_renderer = Num 0" "isPrint rhythm_renderer = False"
    "spacing_composer (this_spacing rhythm_renderer) = Num 0"
    "this_abctune rhythm_renderer = rhythm_tune"
    by (simp_all add: rhythm_renderer_eq new_renderer_def)
  have m: "meta_header (tune_metaText rhythm_tune) = None" "meta_title (tune_metaText rhythm_tune) = None"
    "line0_subtitle rhythm_tune = None" "meta_rhythm (tune_metaText rhythm_tune) = Some ''Jig''"
    "meta_origin (tune_metaText rhythm_tune) = None" "meta_composer (tune_metaText rhythm_tune) = None"
    "meta_author (tune_metaText rhythm_tune) = None" "meta_partOrder (tune_metaText rhythm_tune) = None"
    "formatting_font rhythm_tune = Map.empty"
    by (simp_all add: rhythm_tune_def plain_tune_def empty_metaText_def)
  have pre: "subtitle_block small_text_extern
               (title_block small_text_extern
                  (top_space_block (header_block small_text_extern (rhythm_renderer, []) (Num 500) rhythm_tune))
                  (Num 500) rhythm_tune)
               (Num 500) rhythm_tune = (rhythm_renderer, [])"
    by (simp add: header_block_def top_space_block_def title_block_def subtitle_block_def m y0)
  have cl: "composerLine (tune_metaText rhythm_tune) = []"
    by (simp add: composerLine_def m)
  define st1 where "st1 = moveY_traced (rhythm_renderer, []) (spacing_composer (this_spacing (fst (rhythm_renderer, [])))) None"
  define ro where "ro = outputTextIf_traced small_text_extern st1 (padding_left (fst st1))
                (meta_rhythm (tune_metaText rhythm_tune))
                (FontKey ''infofont'') ''meta-top rhythm'' (Num 0) None ''start'' False"
  have s1: "snd st1 = [(Num 0, Num 0)]" "this_y (fst st1) = Num 0" "this_abctune (fst st1) = rhythm_tune"
    by (simp_all add: st1_def moveY_traced_eq moveY_y y0)
  have f: "formatting_font (this_abctune (fst st1)) ''infofont'' = None" by (simp add: s1 m)
  have g: "paper_getTextSize small_text_extern ''Jig''
             (snd (getFontAndAttr (fst st1) (FontKey ''infofont'') ''meta-top rhythm'')) = (Num 20, Num 4)"
    by (simp add: small_text_extern_def)
  have ne: "''Jig'' \<noteq> []" by simp
  have hr: "fst (snd (fst ro)) = Num 4"
    unfolding ro_def m(4) outputTextIf_traced_eq using fallback_height(2) [OF f g ne] by simp
  have tr: "snd (snd ro) = [(Num 0, Num 0)]" "this_y (fst (snd ro)) = Num 0"
    unfolding ro_def outputTextIf_traced_unmoved by (simp_all add: s1 outputTextIf_no_margins)
  have c: "composer_block small_text_extern (rhythm_renderer, []) (Num 500) rhythm_tune =
             Inr (moveY_traced (moveY_traced (snd ro) (fst (snd (fst ro))) None) (Num (- 6)) None)"
    unfolding composer_block_eq [where E = small_text_extern and st = "(rhythm_renderer, [])"
        and width = "Num 500" and tune = rhythm_tune, OF refl refl refl refl] ro_def st1_def
    by (simp add: m cl)
  have t: "snd (moveY_traced (moveY_traced (snd ro) (Num 4) None) (Num (- 6)) None)
             = [(Num 0, Num 0), (Num 0, Num 4), (Num 4, Num (- 2))]"
    by (simp add: moveY_traced_eq moveY_y tr)
  show ?thesis
    by (simp add: engraveTopText_def pre c bindE_def trace_of_def author_block_def partOrder_block_def
        m Let_def hr t)
qed

lemma negative_title_trace:
  "spacing_title (this_spacing negative_title_renderer) = Num (- 40)"
  "snd (title_block example_extern (negative_title_renderer, []) (Num 500) negative_title_tune)
     = [(Num 0, Num (- 40)), (Num (- 40), Num (- 10))]"
proof -
  have r: "negative_title_renderer =
             (new_renderer negative_title_tune)\<lparr>this_spacing := default_spacing\<lparr>spacing_title := Num (- 40)\<rparr>\<rparr>"
    by (simp add: negative_title_renderer_def setVerticalSpace_def negative_title_tune_def titled_tune_def
        plain_tune_def new_renderer_def Let_def)
  show sp: "spacing_title (this_spacing negative_title_renderer) = Num (- 40)"
    by (simp add: r)
  have y0: "this_y negative_title_renderer = Num 0" "this_abctune negative_title_renderer = negative_title_tune"
    by (simp_all add: r new_renderer_def)
  have m: "meta_title (tune_metaText negative_title_tune) = Some ''The Reel''"
    "formatting_font negative_title_tune = Map.empty"
    by (simp_all add: negative_title_tune_def titled_tune_def plain_tune_def empty_metaText_def)
  have f: "formatting_font (this_abctune negative_title_renderer) ''titlefont'' = None" by (simp add: y0 m)
  have g: "paper_getTextSize example_extern ''The Reel''
             (snd (getFontAndAttr negative_title_renderer (FontKey ''titlefont'') ''title meta-top''))
             = (Num 60, Num 30)"
    by (simp add: example_extern_def)
  have ne: "''The Reel'' \<noteq> []" by simp
  note fh = fallback_height [OF f g ne]
  have n: "real (split_newline_length ''The Reel'') = 1" by (simp add: split_newline_length_def)
  have H: "(30::real) = (if font_box (fst (getFontAndAttr negative_title_renderer (FontKey ''titlefont'')
                                              ''title meta-top'')) then 30 + 8 else 30)"
    using fh(3) by simp
  note num = outputTextIf_numeric(2) [OF fh(1) ne y0(1) H refl, where m = "- 40"]
    outputTextIf_numeric(3) [OF fh(1) ne y0(1) H refl, where m = "- 40" and mb = "Some (Num 0)"]
  show "snd (title_block example_extern (negative_title_renderer, []) (Num 500) negative_title_tune)
     = [(Num 0, Num (- 40)), (Num (- 40), Num (- 10))]"
    unfolding title_block_def m(1) outputTextIf_traced_eq
    using fh(1) by (simp add: sp y0(1) num n)
qed

lemma unmeasured_header_trace:
  "snd (header_block nan_extern (pass_renderer, []) (Num 500) printed_tune) = [(Num 0, NaN), (NaN, NaN)]"
  "this_y (fst (header_block nan_extern (pass_renderer, []) (Num 500) printed_tune)) = NaN"
proof -
  have y0: "this_y pass_renderer = Num 0" "isPrint pass_renderer"
    "formatting_font (this_abctune pass_renderer) = Map.empty"
    by (simp_all add: pass_renderer_def setPrintMode_def new_renderer_def printed_tune_def titled_tune_def
        plain_tune_def)
  have m: "meta_header (tune_metaText printed_tune) =
             Some \<lparr>header_left = Some ''Page'', header_center = None, header_right = None\<rparr>"
    by (simp add: printed_tune_def)
  have f: "\<not> font_box (fst (getFontAndAttr pass_renderer (FontKey ''headerfont'') klass))" for klass
    by (simp add: getFontAndAttr_def y0(3) Let_def fallback_font_def)
  have h: "snd (getTextSize nan_extern pass_renderer ''XXXX'' (FontKey ''headerfont'')
                  ''abcjs-header abcjs-meta-top'') = NaN"
    using f by (simp add: getTextSize_def case_prod_beta nan_extern_def)
  show "snd (header_block nan_extern (pass_renderer, []) (Num 500) printed_tune) = [(Num 0, NaN), (NaN, NaN)]"
    unfolding header_block_def m using y0(2)
    by (simp add: Let_def h assign_y_def outputTextIf_traced_unmoved outputTextIf_no_margins y0(1) jsub_def)
  show "this_y (fst (header_block nan_extern (pass_renderer, []) (Num 500) printed_tune)) = NaN"
    unfolding header_block_def m using y0(2)
    by (simp add: Let_def h assign_y_def outputTextIf_traced_unmoved outputTextIf_no_margins y0(1) jsub_def)
qed


end
